(* ===== verification/Prelude.thy ===== *)
theory Prelude
  imports Main "HOL-Library.AList"
begin

text \<open>
  Shared vocabulary of the development.

  The Go code is modelled in state-passing style: an effectful function takes the state of the
  world (the database server, the message broker, the clock, ...) and returns its results
  together with the next state.  A Go result pair \<open>(T, error)\<close> is a sum, an error-only result is
  an \<open>option\<close> (\<open>None\<close> is Go's nil).  The two combinators below are Go's early-return idiom
  \<^verbatim>\<open>if err != nil { return fmt.Errorf(...) }\<close>.
\<close>

subsection \<open>Collections of facts\<close>

named_theorems go_defs \<open>definitions of the small helper functions of the code\<close>
named_theorems io_simps \<open>unfolding of the state-passing combinators\<close>
named_theorems err_simps \<open>errors.Is and errors.As through wrapped errors\<close>

subsection \<open>State passing with errors\<close>

type_synonym ('w, 'e, 'a) io = "'w \<Rightarrow> ('e + 'a) \<times> 'w"
type_synonym ('w, 'e) cmd = "'w \<Rightarrow> 'e option \<times> 'w"

text \<open>\<^verbatim>\<open>x, err := m(); if err != nil { return h(err) }; k(x)\<close>\<close>

definition try_io :: "('w, 'e, 'a) io \<Rightarrow> ('e \<Rightarrow> 'b) \<Rightarrow> ('a \<Rightarrow> 'w \<Rightarrow> 'b \<times> 'w) \<Rightarrow> 'w \<Rightarrow> 'b \<times> 'w" where
  [io_simps]: "try_io m h k w =
     (case m w of (Inl e, w') \<Rightarrow> (h e, w') | (Inr a, w') \<Rightarrow> k a w')"

text \<open>\<^verbatim>\<open>if err := m(); err != nil { return h(err) }; k()\<close>\<close>

definition try_cmd :: "('w, 'e) cmd \<Rightarrow> ('e \<Rightarrow> 'b) \<Rightarrow> ('w \<Rightarrow> 'b \<times> 'w) \<Rightarrow> 'w \<Rightarrow> 'b \<times> 'w" where
  [io_simps]: "try_cmd m h k w =
     (case m w of (Some e, w') \<Rightarrow> (h e, w') | (None, w') \<Rightarrow> k w')"

lemma try_io_Inl [simp]: "m w = (Inl e, w') \<Longrightarrow> try_io m h k w = (h e, w')"
  by (simp add: try_io_def)

lemma try_io_Inr [simp]: "m w = (Inr a, w') \<Longrightarrow> try_io m h k w = k a w'"
  by (simp add: try_io_def)

lemma try_cmd_Some [simp]: "m w = (Some e, w') \<Longrightarrow> try_cmd m h k w = (h e, w')"
  by (simp add: try_cmd_def)

lemma try_cmd_None [simp]: "m w = (None, w') \<Longrightarrow> try_cmd m h k w = k w'"
  by (simp add: try_cmd_def)

text \<open>
  Inversion of the two combinators: which of the two ways did the code take?
\<close>

lemma try_ioE:
  assumes "try_io m h k w = (r, w')"
  obtains (Err) e where "m w = (Inl e, w')" and "r = h e"
  | (Ok) a w1 where "m w = (Inr a, w1)" and "k a w1 = (r, w')"
proof (cases "m w")
  case (Pair x w1)
  with assms that show ?thesis by (cases x) (auto simp: try_io_def)
qed

lemma try_cmdE:
  assumes "try_cmd m h k w = (r, w')"
  obtains (Err) e where "m w = (Some e, w')" and "r = h e"
  | (Ok) w1 where "m w = (None, w1)" and "k w1 = (r, w')"
proof (cases "m w")
  case (Pair x w1)
  with assms that show ?thesis by (cases x) (auto simp: try_cmd_def)
qed

end
