(* ===== verification/GoStrings.thy ===== *)
theory GoStrings
  imports Prelude
begin

text \<open>
  What the code uses of Go's \<^verbatim>\<open>strings\<close>, \<^verbatim>\<open>unicode\<close>, \<^verbatim>\<open>unicode/utf8\<close> and \<^verbatim>\<open>strconv\<close> packages.
  A Go string is a sequence of bytes, and so is an HOL string: a \<^typ>\<open>char\<close> is one byte.
  Counting and trimming work on the UTF-8 decoded runes, as in Go.
\<close>

subsection \<open>Bytes and runes\<close>

definition byte :: "char \<Rightarrow> nat" where
  "byte c = of_char c"

definition in_range :: "nat \<Rightarrow> nat \<Rightarrow> char \<Rightarrow> bool" where
  "in_range lo hi c \<longleftrightarrow> lo \<le> byte c \<and> byte c \<le> hi"

abbreviation RuneError :: nat where
  "RuneError \<equiv> 65533"

text \<open>
  \<^verbatim>\<open>utf8.DecodeRuneInString\<close>: the first rune and its width in bytes; width 0 for the empty string,
  \<open>(RuneError, 1)\<close> for an invalid encoding.
\<close>

fun decodeRune :: "string \<Rightarrow> nat \<times> nat" where
  "decodeRune [] = (RuneError, 0)"
| "decodeRune (c0 # s) =
     (let b0 = byte c0 in
      if b0 < 128 then (b0, 1)
      else if 194 \<le> b0 \<and> b0 \<le> 223 then
        (case s of
           c1 # _ \<Rightarrow> if in_range 128 191 c1
                    then ((b0 - 192) * 64 + (byte c1 - 128), 2) else (RuneError, 1)
         | _ \<Rightarrow> (RuneError, 1))
      else if 224 \<le> b0 \<and> b0 \<le> 239 then
        (case s of
           c1 # c2 # _ \<Rightarrow>
             if in_range (if b0 = 224 then 160 else 128) (if b0 = 237 then 159 else 191) c1
                \<and> in_range 128 191 c2
             then ((b0 - 224) * 4096 + (byte c1 - 128) * 64 + (byte c2 - 128), 3)
             else (RuneError, 1)
         | _ \<Rightarrow> (RuneError, 1))
      else if 240 \<le> b0 \<and> b0 \<le> 244 then
        (case s of
           c1 # c2 # c3 # _ \<Rightarrow>
             if in_range (if b0 = 240 then 144 else 128) (if b0 = 244 then 143 else 191) c1
                \<and> in_range 128 191 c2 \<and> in_range 128 191 c3
             then ((b0 - 240) * 262144 + (byte c1 - 128) * 4096 + (byte c2 - 128) * 64
                   + (byte c3 - 128), 4)
             else (RuneError, 1)
         | _ \<Rightarrow> (RuneError, 1))
      else (RuneError, 1))"

declare decodeRune.simps(2) [simp del]

lemma decodeRune_width_pos: "s \<noteq> [] \<Longrightarrow> 0 < snd (decodeRune s)"
  by (cases s) (auto simp: decodeRune.simps(2) Let_def split: list.splits if_splits)

lemma decodeRune_width_le: "snd (decodeRune s) \<le> length s"
  by (cases s) (auto simp: decodeRune.simps(2) Let_def split: list.splits if_splits)

text \<open>
  Cutting a string short either keeps its first rune or makes it an invalid one of width 1.
\<close>

lemma decodeRune_prefix:
  assumes "p \<noteq> []"
  shows "decodeRune p = decodeRune (p @ q) \<or> decodeRune p = (RuneError, 1)"
proof -
  obtain c p' where p: "p = c # p'" using assms by (cases p) auto
  show ?thesis
    unfolding p by (auto simp: decodeRune.simps(2) Let_def split: list.splits if_splits)
qed

subsection \<open>Counting runes\<close>

text \<open>\<^verbatim>\<open>utf8.RuneCountInString\<close>: every invalid byte counts as one rune.\<close>

function RuneCountInString :: "string \<Rightarrow> nat" where
  "RuneCountInString s =
     (if s = [] then 0 else Suc (RuneCountInString (drop (snd (decodeRune s)) s)))"
  by pat_completeness auto
termination
  by (relation "measure length") (use decodeRune_width_pos in auto)

declare RuneCountInString.simps [simp del]

lemma RuneCountInString_Nil [simp]: "RuneCountInString [] = 0"
  by (simp add: RuneCountInString.simps)

lemma RuneCountInString_le_length: "RuneCountInString s \<le> length s"
proof (induction s rule: RuneCountInString.induct)
  case (1 s)
  show ?case
  proof (cases "s = []")
    case False
    then have "Suc (length (drop (snd (decodeRune s)) s)) \<le> length s"
      using decodeRune_width_pos [OF False] decodeRune_width_le [of s] by auto
    with 1 [OF False] False show ?thesis
      by (subst RuneCountInString.simps) simp
  qed simp
qed

text \<open>\<^verbatim>\<open>utf8.ValidString\<close>.\<close>

function ValidString :: "string \<Rightarrow> bool" where
  "ValidString s =
     (if s = [] then True
      else if decodeRune s = (RuneError, 1) then False
      else ValidString (drop (snd (decodeRune s)) s))"
  by pat_completeness auto
termination
  by (relation "measure length") (use decodeRune_width_pos in auto)

declare ValidString.simps [simp del]

lemma ValidString_Nil [simp]: "ValidString []"
  by (simp add: ValidString.simps)

text \<open>ASCII strings are the simple case: one byte, one rune.\<close>

definition ascii :: "string \<Rightarrow> bool" where
  "ascii s = list_all (\<lambda>c. byte c < 128) s"

lemma ascii_Cons [simp]: "ascii (c # s) \<longleftrightarrow> byte c < 128 \<and> ascii s"
  by (simp add: ascii_def)

lemma ascii_Nil [simp]: "ascii []"
  by (simp add: ascii_def)

lemma decodeRune_ascii [simp]: "byte c < 128 \<Longrightarrow> decodeRune (c # s) = (byte c, 1)"
  by (simp add: decodeRune.simps(2))

lemma RuneCountInString_ascii_Cons [simp]:
  "byte c < 128 \<Longrightarrow> RuneCountInString (c # s) = Suc (RuneCountInString s)"
  by (subst RuneCountInString.simps) simp

lemma ValidString_ascii_Cons [simp]:
  "byte c < 128 \<Longrightarrow> ValidString (c # s) \<longleftrightarrow> ValidString s"
  by (subst ValidString.simps) simp

lemma RuneCountInString_ascii: "ascii s \<Longrightarrow> RuneCountInString s = length s"
  by (induction s) auto

lemma ValidString_ascii: "ascii s \<Longrightarrow> ValidString s"
  by (induction s) auto

subsection \<open>Trimming\<close>

text \<open>\<^verbatim>\<open>unicode.IsSpace\<close>\<close>

definition IsSpace :: "nat \<Rightarrow> bool" where
  "IsSpace r \<longleftrightarrow> (9 \<le> r \<and> r \<le> 13) \<or> r = 32 \<or> r = 133 \<or> r = 160 \<or> r = 5760
     \<or> (8192 \<le> r \<and> r \<le> 8202) \<or> r = 8232 \<or> r = 8233 \<or> r = 8239 \<or> r = 8287 \<or> r = 12288"

lemma IsSpace_RuneError [simp]: "\<not> IsSpace RuneError"
  by (simp add: IsSpace_def)

text \<open>
  \<^verbatim>\<open>utf8.DecodeLastRuneInString\<close>: an ASCII byte is a rune of its own; otherwise the last 2, 3 or 4
  bytes must be exactly one encoded rune (at most one of the three widths can fit, since the first
  byte fixes the width and a continuation byte starts no rune).
\<close>

definition last_rune_at :: "string \<Rightarrow> nat \<Rightarrow> bool" where
  "last_rune_at s k \<longleftrightarrow> k \<le> length s \<and> snd (decodeRune (drop (length s - k) s)) = k"

definition decodeLastRune :: "string \<Rightarrow> nat \<times> nat" where
  "decodeLastRune s =
     (if s = [] then (RuneError, 0)
      else if byte (last s) < 128 then (byte (last s), 1)
      else if last_rune_at s 2 then (fst (decodeRune (drop (length s - 2) s)), 2)
      else if last_rune_at s 3 then (fst (decodeRune (drop (length s - 3) s)), 3)
      else if last_rune_at s 4 then (fst (decodeRune (drop (length s - 4) s)), 4)
      else (RuneError, 1))"

lemma decodeLastRune_width_pos: "s \<noteq> [] \<Longrightarrow> 0 < snd (decodeLastRune s)"
  by (simp add: decodeLastRune_def)

text \<open>\<^verbatim>\<open>strings.TrimLeftFunc(s, unicode.IsSpace)\<close>\<close>

function TrimLeft :: "string \<Rightarrow> string" where
  "TrimLeft s =
     (if s \<noteq> [] \<and> IsSpace (fst (decodeRune s)) then TrimLeft (drop (snd (decodeRune s)) s) else s)"
  by pat_completeness auto
termination
  by (relation "measure length") (use decodeRune_width_pos in auto)

text \<open>\<^verbatim>\<open>strings.TrimRightFunc(s, unicode.IsSpace)\<close>\<close>

function TrimRight :: "string \<Rightarrow> string" where
  "TrimRight s =
     (if s \<noteq> [] \<and> IsSpace (fst (decodeLastRune s))
      then TrimRight (take (length s - snd (decodeLastRune s)) s) else s)"
  by pat_completeness auto
termination
  by (relation "measure length") (use decodeLastRune_width_pos in auto)

declare TrimLeft.simps [simp del] TrimRight.simps [simp del]

text \<open>
  \<^verbatim>\<open>strings.TrimSpace\<close>: Go's loops over leading and trailing ASCII space are a fast path of these
  two.
\<close>

definition TrimSpace :: "string \<Rightarrow> string" where
  "TrimSpace s = TrimRight (TrimLeft s)"

definition starts_with_space :: "string \<Rightarrow> bool" where
  "starts_with_space s \<longleftrightarrow> s \<noteq> [] \<and> IsSpace (fst (decodeRune s))"

definition ends_with_space :: "string \<Rightarrow> bool" where
  "ends_with_space s \<longleftrightarrow> s \<noteq> [] \<and> IsSpace (fst (decodeLastRune s))"

lemma TrimLeft_id: "\<not> starts_with_space s \<Longrightarrow> TrimLeft s = s"
  by (subst TrimLeft.simps) (auto simp: starts_with_space_def)

lemma TrimRight_id: "\<not> ends_with_space s \<Longrightarrow> TrimRight s = s"
  by (subst TrimRight.simps) (auto simp: ends_with_space_def)

lemma TrimLeft_Nil [simp]: "TrimLeft [] = []"
  by (simp add: TrimLeft.simps)

lemma TrimRight_Nil [simp]: "TrimRight [] = []"
  by (simp add: TrimRight.simps)

lemma TrimSpace_Nil [simp]: "TrimSpace [] = []"
  by (simp add: TrimSpace_def)

lemma TrimLeft_no_space: "\<not> starts_with_space (TrimLeft s)"
proof (induction s rule: TrimLeft.induct)
  case (1 s)
  then show ?case
    by (cases "starts_with_space s")
      (auto simp: TrimLeft.simps [of s] starts_with_space_def)
qed

lemma TrimRight_no_space: "\<not> ends_with_space (TrimRight s)"
proof (induction s rule: TrimRight.induct)
  case (1 s)
  then show ?case
    by (cases "ends_with_space s")
      (auto simp: TrimRight.simps [of s] ends_with_space_def)
qed

lemma TrimLeft_suffix: "\<exists>p. s = p @ TrimLeft s"
proof (induction s rule: TrimLeft.induct)
  case (1 s)
  show ?case
  proof (cases "s \<noteq> [] \<and> IsSpace (fst (decodeRune s))")
    case True
    with 1 obtain p where
      "drop (snd (decodeRune s)) s = p @ TrimLeft (drop (snd (decodeRune s)) s)" by blast
    then have "s = (take (snd (decodeRune s)) s @ p) @ TrimLeft (drop (snd (decodeRune s)) s)"
      by (metis append.assoc append_take_drop_id)
    with True show ?thesis by (metis TrimLeft.simps)
  qed (metis TrimLeft.simps append_Nil)
qed

lemma TrimRight_prefix: "\<exists>q. s = TrimRight s @ q"
proof (induction s rule: TrimRight.induct)
  case (1 s)
  let ?t = "take (length s - snd (decodeLastRune s)) s"
  show ?case
  proof (cases "s \<noteq> [] \<and> IsSpace (fst (decodeLastRune s))")
    case True
    with 1 obtain q where "?t = TrimRight ?t @ q" by blast
    then have "s = TrimRight ?t @ q @ drop (length s - snd (decodeLastRune s)) s"
      by (metis append.assoc append_take_drop_id)
    with True show ?thesis by (metis TrimRight.simps)
  qed (metis TrimRight.simps append_Nil2)
qed

text \<open>Cutting the end off a string does not make it start with a space.\<close>

lemma starts_with_space_prefix:
  assumes "\<not> starts_with_space (p @ q)"
  shows "\<not> starts_with_space p"
  using decodeRune_prefix [of p q] assms by (auto simp: starts_with_space_def)

lemma TrimSpace_starts: "\<not> starts_with_space (TrimSpace s)"
proof -
  obtain q where "TrimLeft s = TrimSpace s @ q"
    unfolding TrimSpace_def using TrimRight_prefix by blast
  with TrimLeft_no_space [of s] show ?thesis
    by (metis starts_with_space_prefix)
qed

lemma TrimSpace_ends: "\<not> ends_with_space (TrimSpace s)"
  by (simp add: TrimSpace_def TrimRight_no_space)

lemma TrimSpace_id: "\<not> starts_with_space s \<Longrightarrow> \<not> ends_with_space s \<Longrightarrow> TrimSpace s = s"
  by (simp add: TrimSpace_def TrimLeft_id TrimRight_id)

lemma TrimSpace_idem [simp]: "TrimSpace (TrimSpace s) = TrimSpace s"
  by (rule TrimSpace_id [OF TrimSpace_starts TrimSpace_ends])

lemma TrimSpace_infix: "\<exists>p q. s = p @ TrimSpace s @ q"
  unfolding TrimSpace_def by (metis TrimLeft_suffix TrimRight_prefix append.assoc)

lemma length_TrimSpace: "length (TrimSpace s) \<le> length s"
proof -
  obtain p q where "s = p @ TrimSpace s @ q" using TrimSpace_infix by blast
  then show ?thesis by (metis length_append le_add1 le_add2 le_trans)
qed

subsection \<open>Case\<close>

text \<open>The runes of a string, as \<^verbatim>\<open>for _, r := range s\<close> sees them.\<close>

function runes :: "string \<Rightarrow> nat list" where
  "runes s =
     (if s = [] then []
      else fst (decodeRune s) # runes (drop (snd (decodeRune s)) s))"
  by pat_completeness auto
termination
  by (relation "measure length") (use decodeRune_width_pos in auto)

declare runes.simps [simp del]

lemma runes_Nil [simp]: "runes [] = []"
  by (simp add: runes.simps)

lemma runes_ascii_Cons [simp]: "byte c < 128 \<Longrightarrow> runes (c # s) = byte c # runes s"
  by (subst runes.simps) simp

lemma length_runes: "length (runes s) = RuneCountInString s"
proof (induction s rule: runes.induct)
  case (1 s)
  then show ?case
    by (cases "s = []") (simp_all add: runes.simps [of s] RuneCountInString.simps [of s])
qed

text \<open>
  The representative of a rune's simple-folding orbit, for the orbits that hold an ASCII letter:
  beside the two cases of the letter, U+212A (Kelvin sign) folds with k and U+017F (long s) with s.
\<close>

definition foldRune :: "nat \<Rightarrow> nat" where
  "foldRune r =
     (if 65 \<le> r \<and> r \<le> 90 then r + 32
      else if r = 8490 then 107
      else if r = 383 then 115
      else r)"

text \<open>\<^verbatim>\<open>strings.EqualFold(s, t)\<close> for an ASCII \<open>t\<close>, the only way the code calls it.\<close>

definition EqualFold :: "string \<Rightarrow> string \<Rightarrow> bool" where
  "EqualFold s t \<longleftrightarrow> map foldRune (runes s) = map foldRune (runes t)"

lemma EqualFold_refl [simp]: "EqualFold s s"
  by (simp add: EqualFold_def)

text \<open>
  \<^verbatim>\<open>strings.ToLower\<close>, as far as its result can equal an ASCII string: ASCII capitals, and the two
  other runes whose lower case is an ASCII letter, U+212A (k) and U+0130 (i).  Any other rune
  keeps its bytes here; its lower case in Go is not ASCII either.
\<close>

function ToLower :: "string \<Rightarrow> string" where
  "ToLower s =
     (if s = [] then []
      else let (r, n) = decodeRune s in
        (if 65 \<le> r \<and> r \<le> 90 then [char_of (r + 32)]
         else if r = 8490 then ''k''
         else if r = 304 then ''i''
         else take n s) @ ToLower (drop (snd (decodeRune s)) s))"
  by pat_completeness auto
termination
  by (relation "measure length") (use decodeRune_width_pos in auto)

declare ToLower.simps [simp del]

lemma ToLower_Nil [simp]: "ToLower [] = []"
  by (simp add: ToLower.simps)

lemma ToLower_ascii_Cons [simp]:
  "byte c < 128 \<Longrightarrow>
   ToLower (c # s) = (if 65 \<le> byte c \<and> byte c \<le> 90 then char_of (byte c + 32) else c) # ToLower s"
  by (subst ToLower.simps) simp

subsection \<open>Splitting\<close>

text \<open>\<^verbatim>\<open>strings.Split(s, sep)\<close> for a one-byte separator.\<close>

fun Split :: "char \<Rightarrow> string \<Rightarrow> string list" where
  "Split sep [] = [[]]"
| "Split sep (c # s) =
     (if c = sep then [] # Split sep s
      else (case Split sep s of [] \<Rightarrow> [[c]] | p # ps \<Rightarrow> (c # p) # ps))"

text \<open>\<^verbatim>\<open>strings.SplitN(s, sep, 2)\<close> for a one-byte separator.\<close>

definition SplitN2 :: "char \<Rightarrow> string \<Rightarrow> string list" where
  "SplitN2 sep s =
     (case dropWhile (\<lambda>c. c \<noteq> sep) s of
        [] \<Rightarrow> [s]
      | _ # rest \<Rightarrow> [takeWhile (\<lambda>c. c \<noteq> sep) s, rest])"

fun Join :: "char \<Rightarrow> string list \<Rightarrow> string" where
  "Join sep [] = []"
| "Join sep [p] = p"
| "Join sep (p # ps) = p @ sep # Join sep ps"

lemma Split_nonempty [simp]: "Split sep s \<noteq> []"
  by (induction s) (auto split: list.splits)

lemma Split_no_sep: "p \<in> set (Split sep s) \<Longrightarrow> sep \<notin> set p"
proof (induction s arbitrary: p)
  case (Cons c s)
  then show ?case
    by (cases "Split sep s") (auto split: if_splits)
qed simp

lemma Join_Cons: "ps \<noteq> [] \<Longrightarrow> Join sep (p # ps) = p @ sep # Join sep ps"
  by (cases ps) auto

lemma Join_Split: "Join sep (Split sep s) = s"
proof (induction s)
  case (Cons c s)
  show ?case
  proof (cases "Split sep s")
    case (Cons p ps)
    with \<open>Join sep (Split sep s) = s\<close> show ?thesis
      by (cases ps) (auto simp: Join_Cons)
  qed (metis Split_nonempty)
qed simp

lemma SplitN2_sep: "sep \<notin> set p \<Longrightarrow> SplitN2 sep (p @ sep # q) = [p, q]"
  by (simp add: SplitN2_def dropWhile_append takeWhile_append)

lemma SplitN2_no_sep: "sep \<notin> set s \<Longrightarrow> SplitN2 sep s = [s]"
  unfolding SplitN2_def by (subst dropWhile_eq_Nil_conv [THEN iffD2]) auto

subsection \<open>Numbers\<close>

definition int_min :: int where "int_min = - (2 ^ 63)"
definition int_max :: int where "int_max = 2 ^ 63 - 1"

text \<open>A value of Go's \<^verbatim>\<open>int\<close> on the 64-bit platforms the service runs on.\<close>

definition is_go_int :: "int \<Rightarrow> bool" where
  "is_go_int n \<longleftrightarrow> int_min \<le> n \<and> n \<le> int_max"

definition is_digit :: "char \<Rightarrow> bool" where
  "is_digit c \<longleftrightarrow> 48 \<le> byte c \<and> byte c \<le> 57"

definition digits_value :: "string \<Rightarrow> int" where
  "digits_value s = foldl (\<lambda>n c. 10 * n + (int (byte c) - 48)) 0 s"

definition unsigned_value :: "string \<Rightarrow> int option" where
  "unsigned_value s = (if s \<noteq> [] \<and> list_all is_digit s then Some (digits_value s) else None)"

text \<open>
  \<^verbatim>\<open>strconv.Atoi\<close>: an optional sign and decimal digits; None stands for either error
  (\<^verbatim>\<open>ErrSyntax\<close> or \<^verbatim>\<open>ErrRange\<close>), which the code does not tell apart.
\<close>

definition Atoi :: "string \<Rightarrow> int option" where
  "Atoi s =
     (let v = (case s of
                 [] \<Rightarrow> None
               | c # t \<Rightarrow>
                   if c = CHR ''-'' then map_option uminus (unsigned_value t)
                   else if c = CHR ''+'' then unsigned_value t
                   else unsigned_value s)
      in case v of
           None \<Rightarrow> None
         | Some n \<Rightarrow> if is_go_int n then Some n else None)"

lemma Atoi_range: "Atoi s = Some n \<Longrightarrow> is_go_int n"
  by (auto simp: Atoi_def Let_def split: option.splits if_splits)

end
