(* ===== verification/GoErrors.thy ===== *)
theory GoErrors
  imports GoStrings
begin

text \<open>
  The error values of the program (\<^verbatim>\<open>internal/domain/company/errors.go\<close> and the error values of the
  libraries the code tells apart), and Go's error chains: \<^verbatim>\<open>fmt.Errorf\<close> with one \<^verbatim>\<open>%w\<close>,
  \<^verbatim>\<open>errors.Is\<close>, \<^verbatim>\<open>errors.As\<close>.
\<close>

type_synonym fields = "(string \<times> string) list"

text \<open>
  A \<^verbatim>\<open>map[string]string\<close> is an association list with distinct keys, built by \<open>set_field\<close> only.  Its order
  stands for the iteration order, which Go leaves open and only the error text depends on.
\<close>

definition set_field :: "string \<Rightarrow> string \<Rightarrow> fields \<Rightarrow> fields" where
  "set_field k v fs = AList.update k v fs"

lemma set_field_not_Nil [simp]: "set_field k v fs \<noteq> []"
  by (cases fs) (auto simp: set_field_def)

lemma map_of_set_field [simp]: "map_of (set_field k v fs) = (map_of fs)(k \<mapsto> v)"
  by (simp add: set_field_def update_conv')

lemma set_field_Nil [simp]: "set_field k v [] = [(k, v)]"
  by (simp add: set_field_def)

lemma set_field_Cons [simp]:
  "set_field k v (p # fs) = (if fst p = k then (k, v) # fs else p # set_field k v fs)"
  by (cases p) (simp add: set_field_def)

datatype goerr =
    ErrNotFound
  | ErrDuplicateID
  | ErrDuplicateName
  | ErrEmptyPatch
  | ValidationError (Fields: fields)
  | ErrNoRows
      \<comment> \<open>\<^verbatim>\<open>pgx.ErrNoRows\<close>\<close>
  | EOF
      \<comment> \<open>\<^verbatim>\<open>io.EOF\<close>\<close>
  | PgError (Code: string) (ConstraintName: string) (Message: string)
      \<comment> \<open>\<^verbatim>\<open>*pgconn.PgError\<close>: an error reported by the database server\<close>
  | OtherError string
      \<comment> \<open>any other error value, by its text (\<^verbatim>\<open>errors.New\<close>)\<close>
  | Errorf string goerr string
      \<comment> \<open>\<^verbatim>\<open>fmt.Errorf\<close>: the text before \<^verbatim>\<open>%w\<close>, the wrapped error, the text after\<close>

text \<open>\<^verbatim>\<open>fmt.Errorf("<context>: %w", err)\<close>, the form the code uses almost everywhere.\<close>

definition wrap :: "string \<Rightarrow> goerr \<Rightarrow> goerr" where
  "wrap context e = Errorf (context @ '': '') e ''''"

definition NewValidationError :: "fields \<Rightarrow> goerr option" where
  "NewValidationError fs = (if length fs = 0 then None else Some (ValidationError fs))"

fun join_text :: "string \<Rightarrow> string list \<Rightarrow> string" where
  "join_text sep [] = ''''"
| "join_text sep [p] = p"
| "join_text sep (p # ps) = p @ sep @ join_text sep ps"

definition ValidationError_Error :: "fields \<Rightarrow> string" where
  "ValidationError_Error fs =
     (if length fs = 0 then ''validation failed''
      else let parts = map (\<lambda>(field, message). field @ '': '' @ message) fs
           in ''validation failed: '' @ join_text ''; '' parts)"

text \<open>The \<^verbatim>\<open>Error()\<close> text of an error value.\<close>

primrec error_text :: "goerr \<Rightarrow> string" where
  "error_text ErrNotFound = ''company not found''"
| "error_text ErrDuplicateID = ''company id already exists''"
| "error_text ErrDuplicateName = ''company name already exists''"
| "error_text ErrEmptyPatch = ''empty patch''"
| "error_text (ValidationError fs) = ValidationError_Error fs"
| "error_text ErrNoRows = ''no rows in result set''"
| "error_text EOF = ''EOF''"
| "error_text (PgError code con msg) = ''ERROR: '' @ msg @ '' (SQLSTATE '' @ code @ '')''"
| "error_text (OtherError msg) = msg"
| "error_text (Errorf pre e post) = pre @ error_text e @ post"

text \<open>\<^verbatim>\<open>errors.Is(err, target)\<close> for a target that is a sentinel value.\<close>

primrec errors_Is :: "goerr \<Rightarrow> goerr \<Rightarrow> bool" where
  "errors_Is ErrNotFound t = (t = ErrNotFound)"
| "errors_Is ErrDuplicateID t = (t = ErrDuplicateID)"
| "errors_Is ErrDuplicateName t = (t = ErrDuplicateName)"
| "errors_Is ErrEmptyPatch t = (t = ErrEmptyPatch)"
| "errors_Is (ValidationError fs) t = False"
| "errors_Is ErrNoRows t = (t = ErrNoRows)"
| "errors_Is EOF t = (t = EOF)"
| "errors_Is (PgError code con msg) t = (t = PgError code con msg)"
| "errors_Is (OtherError msg) t = (t = OtherError msg)"
| "errors_Is (Errorf pre e post) t = errors_Is e t"

text \<open>\<^verbatim>\<open>errors.As(err, &validationErr)\<close> and \<^verbatim>\<open>errors.As(err, &pgErr)\<close>\<close>

fun errors_As_ValidationError :: "goerr \<Rightarrow> fields option" where
  "errors_As_ValidationError (ValidationError fs) = Some fs"
| "errors_As_ValidationError (Errorf pre e post) = errors_As_ValidationError e"
| "errors_As_ValidationError _ = None"

fun errors_As_PgError :: "goerr \<Rightarrow> (string \<times> string) option" where
  "errors_As_PgError (PgError code con msg) = Some (code, con)"
| "errors_As_PgError (Errorf pre e post) = errors_As_PgError e"
| "errors_As_PgError _ = None"

lemma errors_Is_wrap [simp, err_simps]: "errors_Is (wrap s e) t = errors_Is e t"
  by (simp add: wrap_def)

lemma errors_As_ValidationError_wrap [simp, err_simps]:
  "errors_As_ValidationError (wrap s e) = errors_As_ValidationError e"
  by (simp add: wrap_def)

lemma errors_As_PgError_wrap [simp, err_simps]: "errors_As_PgError (wrap s e) = errors_As_PgError e"
  by (simp add: wrap_def)

text \<open>An error is, or wraps, at most one value: the innermost one decides.\<close>

primrec root_cause :: "goerr \<Rightarrow> goerr" where
  "root_cause ErrNotFound = ErrNotFound"
| "root_cause ErrDuplicateID = ErrDuplicateID"
| "root_cause ErrDuplicateName = ErrDuplicateName"
| "root_cause ErrEmptyPatch = ErrEmptyPatch"
| "root_cause (ValidationError fs) = ValidationError fs"
| "root_cause ErrNoRows = ErrNoRows"
| "root_cause EOF = EOF"
| "root_cause (PgError code con msg) = PgError code con msg"
| "root_cause (OtherError msg) = OtherError msg"
| "root_cause (Errorf pre e post) = root_cause e"

lemma root_cause_wrap [simp, err_simps]: "root_cause (wrap s e) = root_cause e"
  by (simp add: wrap_def)

lemma errors_Is_iff: "errors_Is e t \<longleftrightarrow> root_cause e = t \<and> (\<forall>fs. t \<noteq> ValidationError fs)"
  by (induction e) auto

lemma errors_As_ValidationError_iff:
  "errors_As_ValidationError e = Some fs \<longleftrightarrow> root_cause e = ValidationError fs"
  by (induction e) auto

lemma errors_Is_unique: "errors_Is e t \<Longrightarrow> errors_Is e u \<Longrightarrow> t = u"
  by (simp add: errors_Is_iff)

lemma NewValidationError_None [simp]: "NewValidationError fs = None \<longleftrightarrow> fs = []"
  by (simp add: NewValidationError_def)

lemma NewValidationError_Nil [simp]: "NewValidationError [] = None"
  by simp

lemma NewValidationError_Some [simp]:
  "NewValidationError fs = Some e \<longleftrightarrow> fs \<noteq> [] \<and> e = ValidationError fs"
  by (auto simp: NewValidationError_def)

end
