(* ===== verification/Domain.thy ===== *)
theory Domain
  imports GoErrors "HOL-Library.Word"
begin

text \<open>
  The domain package (\<^verbatim>\<open>internal/domain/company\<close>): the company entity, its validation, its creation
  and the application of a partial update.

  A \<^verbatim>\<open>uuid.UUID\<close> is its 128 bits, a \<^verbatim>\<open>time.Time\<close> in UTC is the number of nanoseconds since the Unix
  epoch, a Go \<^verbatim>\<open>int\<close> is an \<^typ>\<open>int\<close> (the code computes nothing with it; what comes in is within 64
  bits).  The clock and the random source are read by the caller: \<^verbatim>\<open>time.Now().UTC()\<close> and
  \<^verbatim>\<open>uuid.New()\<close> are arguments.
\<close>

type_synonym uuid = "128 word"
type_synonym time = int

definition uuid_Nil :: uuid where
  "uuid_Nil = 0"

subsection \<open>The company type\<close>

type_synonym CompanyType = string

definition TypeCorporations :: CompanyType where "TypeCorporations = ''Corporations''"
definition TypeNonProfit :: CompanyType where "TypeNonProfit = ''NonProfit''"
definition TypeCooperative :: CompanyType where "TypeCooperative = ''Cooperative''"
definition TypeSoleProprietorship :: CompanyType where
  "TypeSoleProprietorship = ''Sole Proprietorship''"

lemmas type_defs [go_defs] =
  TypeCorporations_def TypeNonProfit_def TypeCooperative_def TypeSoleProprietorship_def

definition IsValid :: "CompanyType \<Rightarrow> bool" where
  "IsValid t \<longleftrightarrow>
     t = TypeCorporations \<or> t = TypeNonProfit \<or> t = TypeCooperative \<or> t = TypeSoleProprietorship"

subsection \<open>The entity\<close>

definition MaxNameLength :: nat where "MaxNameLength = 15"
definition MaxDescriptionLength :: nat where "MaxDescriptionLength = 3000"

record company =
  ID :: uuid
  Name :: string
  Description :: string
  AmountOfEmployees :: int
  Registered :: bool
  Type :: CompanyType
  CreatedAt :: time
  UpdatedAt :: time

text \<open>A nil pointer of the patch is \<^term>\<open>None\<close>.\<close>

record patch =
  p_Name :: "string option"
  p_Description :: "string option"
  p_AmountOfEmployees :: "int option"
  p_Registered :: "bool option"
  p_Type :: "CompanyType option"

definition validateName :: "string \<Rightarrow> fields \<Rightarrow> fields" where
  "validateName name fs =
     (if TrimSpace name = '''' then set_field ''name'' ''is required'' fs
      else if MaxNameLength < RuneCountInString name
      then set_field ''name'' ''must be at most 15 characters'' fs
      else fs)"

definition validateDescription :: "string \<Rightarrow> fields \<Rightarrow> fields" where
  "validateDescription description fs =
     (if MaxDescriptionLength < RuneCountInString description
      then set_field ''description'' ''must be at most 3000 characters'' fs
      else fs)"

definition validateAmountOfEmployees :: "int \<Rightarrow> fields \<Rightarrow> fields" where
  "validateAmountOfEmployees amount fs =
     (if amount < 0
      then set_field ''amount_of_employees'' ''must be greater than or equal to 0'' fs
      else fs)"

definition validateType :: "CompanyType \<Rightarrow> fields \<Rightarrow> fields" where
  "validateType t fs =
     (if \<not> IsValid t
      then set_field ''type''
             ''must be one of Corporations, NonProfit, Cooperative, Sole Proprietorship'' fs
      else fs)"

lemmas validate_field_defs [go_defs] =
  validateName_def validateDescription_def validateAmountOfEmployees_def validateType_def

definition Validate :: "company \<Rightarrow> goerr option" where
  "Validate c =
     (let fs = [];
          fs = (if ID c = uuid_Nil then set_field ''id'' ''is required'' fs else fs);
          fs = validateName (Name c) fs;
          fs = validateDescription (Description c) fs;
          fs = validateAmountOfEmployees (AmountOfEmployees c) fs;
          fs = validateType (Type c) fs
      in NewValidationError fs)"

definition NewWithID ::
    "time \<Rightarrow> uuid \<Rightarrow> string \<Rightarrow> string \<Rightarrow> int \<Rightarrow> bool \<Rightarrow> CompanyType \<Rightarrow> goerr + company" where
  "NewWithID now i name description amount registered t =
     (let c = \<lparr>ID = i, Name = TrimSpace name, Description = TrimSpace description,
               AmountOfEmployees = amount, Registered = registered, Type = t,
               CreatedAt = now, UpdatedAt = now\<rparr>
      in case Validate c of Some e \<Rightarrow> Inl e | None \<Rightarrow> Inr c)"

definition New ::
    "uuid \<Rightarrow> time \<Rightarrow> string \<Rightarrow> string \<Rightarrow> int \<Rightarrow> bool \<Rightarrow> CompanyType \<Rightarrow> goerr + company" where
  "New fresh now name description amount registered t =
     NewWithID now fresh name description amount registered t"

subsection \<open>Partial updates\<close>

definition IsEmpty :: "patch \<Rightarrow> bool" where
  "IsEmpty p \<longleftrightarrow> p_Name p = None \<and> p_Description p = None \<and> p_AmountOfEmployees p = None
     \<and> p_Registered p = None \<and> p_Type p = None"

text \<open>
  \<^verbatim>\<open>ApplyPatch\<close> works on the company through its pointer, so what a failing call has already
  assigned stays assigned.  Each block of the method is a command over the company: the error it
  returns, if any, and the company as it leaves it.
\<close>

type_synonym patch_step = "(company, goerr) cmd"

definition patchName :: "string option \<Rightarrow> patch_step" where
  "patchName v c =
     (case v of
        None \<Rightarrow> (None, c)
      | Some n \<Rightarrow>
          let name = TrimSpace n in
          (case NewValidationError (validateName name []) of
             Some e \<Rightarrow> (Some e, c)
           | None \<Rightarrow> (None, c\<lparr>Name := name\<rparr>)))"

definition patchDescription :: "string option \<Rightarrow> patch_step" where
  "patchDescription v c =
     (case v of
        None \<Rightarrow> (None, c)
      | Some d \<Rightarrow>
          let description = TrimSpace d in
          (case NewValidationError (validateDescription description []) of
             Some e \<Rightarrow> (Some e, c)
           | None \<Rightarrow> (None, c\<lparr>Description := description\<rparr>)))"

definition patchAmountOfEmployees :: "int option \<Rightarrow> patch_step" where
  "patchAmountOfEmployees v c =
     (case v of
        None \<Rightarrow> (None, c)
      | Some n \<Rightarrow>
          (case NewValidationError (validateAmountOfEmployees n []) of
             Some e \<Rightarrow> (Some e, c)
           | None \<Rightarrow> (None, c\<lparr>AmountOfEmployees := n\<rparr>)))"

definition patchRegistered :: "bool option \<Rightarrow> patch_step" where
  "patchRegistered v c = (case v of None \<Rightarrow> (None, c) | Some b \<Rightarrow> (None, c\<lparr>Registered := b\<rparr>))"

definition patchType :: "CompanyType option \<Rightarrow> patch_step" where
  "patchType v c =
     (case v of
        None \<Rightarrow> (None, c)
      | Some t \<Rightarrow>
          (case NewValidationError (validateType t []) of
             Some e \<Rightarrow> (Some e, c)
           | None \<Rightarrow> (None, c\<lparr>Type := t\<rparr>)))"

lemmas patch_step_defs [go_defs] =
  patchName_def patchDescription_def patchAmountOfEmployees_def patchRegistered_def patchType_def

definition ApplyPatch :: "time \<Rightarrow> patch \<Rightarrow> patch_step" where
  "ApplyPatch now p c =
     (if IsEmpty p then (Some ErrEmptyPatch, c)
      else
        try_cmd (patchName (p_Name p)) Some
        (try_cmd (patchDescription (p_Description p)) Some
        (try_cmd (patchAmountOfEmployees (p_AmountOfEmployees p)) Some
        (try_cmd (patchRegistered (p_Registered p)) Some
        (try_cmd (patchType (p_Type p)) Some
        (\<lambda>c. let c' = c\<lparr>UpdatedAt := now\<rparr> in (Validate c', c')))))) c)"

subsection \<open>What a valid company is\<close>

definition valid_name :: "string \<Rightarrow> bool" where
  "valid_name n \<longleftrightarrow> TrimSpace n \<noteq> '''' \<and> RuneCountInString n \<le> 15"

definition valid_description :: "string \<Rightarrow> bool" where
  "valid_description d \<longleftrightarrow> RuneCountInString d \<le> 3000"

definition valid_company :: "company \<Rightarrow> bool" where
  "valid_company c \<longleftrightarrow> ID c \<noteq> 0 \<and> valid_name (Name c) \<and> valid_description (Description c)
     \<and> 0 \<le> AmountOfEmployees c
     \<and> Type c \<in> {''Corporations'', ''NonProfit'', ''Cooperative'', ''Sole Proprietorship''}"

text \<open>The complaint of each field of a company, by the field's JSON name.\<close>

definition violation :: "company \<Rightarrow> string \<Rightarrow> string option" where
  "violation c k =
     (if k = ''id'' \<and> ID c = 0 then Some ''is required''
      else if k = ''name'' \<and> TrimSpace (Name c) = '''' then Some ''is required''
      else if k = ''name'' \<and> 15 < RuneCountInString (Name c)
      then Some ''must be at most 15 characters''
      else if k = ''description'' \<and> 3000 < RuneCountInString (Description c)
      then Some ''must be at most 3000 characters''
      else if k = ''amount_of_employees'' \<and> AmountOfEmployees c < 0
      then Some ''must be greater than or equal to 0''
      else if k = ''type'' \<and>
        Type c \<notin> {''Corporations'', ''NonProfit'', ''Cooperative'', ''Sole Proprietorship''}
      then Some ''must be one of Corporations, NonProfit, Cooperative, Sole Proprietorship''
      else None)"

text \<open>Stored names and descriptions carry no space at either end.\<close>

definition normalised :: "company \<Rightarrow> bool" where
  "normalised c \<longleftrightarrow> TrimSpace (Name c) = Name c \<and> TrimSpace (Description c) = Description c"

lemma IsValid_iff:
  "IsValid t \<longleftrightarrow> t \<in> {''Corporations'', ''NonProfit'', ''Cooperative'', ''Sole Proprietorship''}"
  by (auto simp: IsValid_def type_defs)

lemma validateName_Nil [simp]: "validateName n fs = fs \<longleftrightarrow> valid_name n" if "fs = []"
  using that by (auto simp: validateName_def valid_name_def MaxNameLength_def)

lemma validateDescription_Nil [simp]:
  "validateDescription d fs = fs \<longleftrightarrow> valid_description d" if "fs = []"
  using that by (auto simp: validateDescription_def valid_description_def MaxDescriptionLength_def)

lemma validateAmountOfEmployees_Nil [simp]:
  "validateAmountOfEmployees a fs = fs \<longleftrightarrow> 0 \<le> a" if "fs = []"
  using that by (auto simp: validateAmountOfEmployees_def)

lemma validateType_Nil [simp]: "validateType t fs = fs \<longleftrightarrow> IsValid t" if "fs = []"
  using that by (auto simp: validateType_def)

definition validation_fields :: "company \<Rightarrow> fields" where
  "validation_fields c =
     validateType (Type c) (validateAmountOfEmployees (AmountOfEmployees c)
       (validateDescription (Description c) (validateName (Name c)
         (if ID c = uuid_Nil then set_field ''id'' ''is required'' [] else []))))"

lemma Validate_fields: "Validate c = NewValidationError (validation_fields c)"
  by (simp add: Validate_def validation_fields_def Let_def)

lemma map_of_validateName:
  "map_of (validateName n fs) k =
     (if k = ''name'' \<and> TrimSpace n = '''' then Some ''is required''
      else if k = ''name'' \<and> 15 < RuneCountInString n then Some ''must be at most 15 characters''
      else map_of fs k)"
  by (simp add: validateName_def MaxNameLength_def)

lemma map_of_validateDescription:
  "map_of (validateDescription d fs) k =
     (if k = ''description'' \<and> 3000 < RuneCountInString d
      then Some ''must be at most 3000 characters'' else map_of fs k)"
  by (simp add: validateDescription_def MaxDescriptionLength_def)

lemma map_of_validateAmountOfEmployees:
  "map_of (validateAmountOfEmployees a fs) k =
     (if k = ''amount_of_employees'' \<and> a < 0
      then Some ''must be greater than or equal to 0'' else map_of fs k)"
  by (simp add: validateAmountOfEmployees_def)

lemma map_of_validateType:
  "map_of (validateType t fs) k =
     (if k = ''type'' \<and> t \<notin> {''Corporations'', ''NonProfit'', ''Cooperative'', ''Sole Proprietorship''}
      then Some ''must be one of Corporations, NonProfit, Cooperative, Sole Proprietorship''
      else map_of fs k)"
  by (simp add: validateType_def IsValid_iff)

lemma map_of_validation_fields: "map_of (validation_fields c) = violation c"
proof (rule ext)
  fix k
  note rules = validation_fields_def map_of_validateName map_of_validateDescription
    map_of_validateAmountOfEmployees map_of_validateType violation_def uuid_Nil_def
  consider "k = ''id''" | "k = ''name''" | "k = ''description''" | "k = ''amount_of_employees''"
    | "k = ''type''"
    | "k \<notin> {''id'', ''name'', ''description'', ''amount_of_employees'', ''type''}"
    by blast
  then show "map_of (validation_fields c) k = violation c k"
    by cases (simp_all add: rules)
qed

lemma violation_empty: "(\<forall>k. violation c k = None) \<longleftrightarrow> valid_company c"
proof
  assume *: "\<forall>k. violation c k = None"
  show "valid_company c"
    using * [rule_format, of "''id''"] * [rule_format, of "''name''"]
      * [rule_format, of "''description''"] * [rule_format, of "''amount_of_employees''"]
      * [rule_format, of "''type''"]
    by (simp add: violation_def valid_company_def valid_name_def valid_description_def
        split: if_splits)
qed (auto simp: violation_def valid_company_def valid_name_def valid_description_def)

lemma validation_fields_Nil [simp]: "validation_fields c = [] \<longleftrightarrow> valid_company c"
proof -
  have "validation_fields c = [] \<longleftrightarrow> (\<forall>k. map_of (validation_fields c) k = None)"
    by (cases "validation_fields c") (auto split: if_splits)
  then show ?thesis by (simp add: map_of_validation_fields violation_empty)
qed

lemma Validate_None [simp]: "Validate c = None \<longleftrightarrow> valid_company c"
  by (simp add: Validate_fields)

lemma Validate_Some:
  "Validate c = Some e \<longleftrightarrow> \<not> valid_company c \<and> e = ValidationError (validation_fields c)"
  by (simp add: Validate_fields)

lemma violation_UpdatedAt [simp]: "violation (c\<lparr>UpdatedAt := t\<rparr>) = violation c"
  by (rule ext) (simp add: violation_def)

lemma valid_company_UpdatedAt [simp]: "valid_company (c\<lparr>UpdatedAt := t\<rparr>) = valid_company c"
  by (simp add: valid_company_def)

subsection \<open>Creation\<close>

definition trimmed ::
    "time \<Rightarrow> uuid \<Rightarrow> string \<Rightarrow> string \<Rightarrow> int \<Rightarrow> bool \<Rightarrow> CompanyType \<Rightarrow> company" where
  "trimmed now i name description amount registered t =
     \<lparr>ID = i, Name = TrimSpace name, Description = TrimSpace description,
      AmountOfEmployees = amount, Registered = registered, Type = t,
      CreatedAt = now, UpdatedAt = now\<rparr>"

lemma NewWithID_eq:
  "NewWithID now i n d a r t =
     (let c = trimmed now i n d a r t in
      if valid_company c then Inr c else Inl (ValidationError (validation_fields c)))"
  by (simp add: NewWithID_def trimmed_def Validate_fields NewValidationError_def Let_def
      split: option.split)

lemma NewWithID_Inr:
  "NewWithID now i n d a r t = Inr c \<longleftrightarrow>
     c = trimmed now i n d a r t \<and> valid_company (trimmed now i n d a r t)"
  by (auto simp: NewWithID_eq Let_def)

lemma NewWithID_Inl:
  "NewWithID now i n d a r t = Inl e \<longleftrightarrow>
     e = ValidationError (validation_fields (trimmed now i n d a r t))
     \<and> \<not> valid_company (trimmed now i n d a r t)"
  by (auto simp: NewWithID_eq Let_def)

lemma normalised_trimmed [simp]: "normalised (trimmed now i n d a r t)"
  by (simp add: trimmed_def normalised_def)

text \<open>
  Validate rejects a company exactly when some field breaks its rule, and the
  validation error it returns reports every broken field, with that field's message, and no
  other field.
\<close>

theorem Validate_reports_exactly_the_violations:
  "map_option (\<lambda>e. map_of (Fields e)) (Validate c) =
     (if valid_company c then None else Some (violation c))"
  by (simp add: Validate_fields NewValidationError_def map_of_validation_fields)

text \<open>
  Property C26: NewWithID either returns a valid company with trimmed name and description, the
  given other fields and both timestamps equal to the clock, or a validation error that lists
  exactly the broken rules of that company; it never returns an invalid company.
\<close>

theorem NewWithID_outcome:
  "case NewWithID now i n d a r t of
     Inr c \<Rightarrow> valid_company c \<and> normalised c
       \<and> c = \<lparr>ID = i, Name = TrimSpace n, Description = TrimSpace d, AmountOfEmployees = a,
              Registered = r, Type = t, CreatedAt = now, UpdatedAt = now\<rparr>
   | Inl e \<Rightarrow> \<not> valid_company (trimmed now i n d a r t)
       \<and> errors_As_ValidationError e = Some (Fields e)
       \<and> map_of (Fields e) = violation (trimmed now i n d a r t)"
  using normalised_trimmed [of now i n d a r t]
  by (auto simp: NewWithID_eq Let_def map_of_validation_fields simp del: normalised_trimmed)
    (simp_all add: trimmed_def)

subsection \<open>Applying a patch\<close>

text \<open>What the code complains about in each field of a patch; nothing when it is absent.\<close>

definition name_complaint :: "string option \<Rightarrow> fields" where
  "name_complaint v = (case v of None \<Rightarrow> [] | Some n \<Rightarrow> validateName (TrimSpace n) [])"

definition description_complaint :: "string option \<Rightarrow> fields" where
  "description_complaint v =
     (case v of None \<Rightarrow> [] | Some d \<Rightarrow> validateDescription (TrimSpace d) [])"

definition amount_complaint :: "int option \<Rightarrow> fields" where
  "amount_complaint v = (case v of None \<Rightarrow> [] | Some a \<Rightarrow> validateAmountOfEmployees a [])"

definition type_complaint :: "CompanyType option \<Rightarrow> fields" where
  "type_complaint v = (case v of None \<Rightarrow> [] | Some t \<Rightarrow> validateType t [])"

lemmas complaint_defs [go_defs] =
  name_complaint_def description_complaint_def amount_complaint_def type_complaint_def

text \<open>The first complaint about a patch, in the order the code looks at the fields.\<close>

definition patch_error :: "patch \<Rightarrow> goerr option" where
  "patch_error p =
     (if IsEmpty p then Some ErrEmptyPatch
      else if name_complaint (p_Name p) \<noteq> []
      then Some (ValidationError (name_complaint (p_Name p)))
      else if description_complaint (p_Description p) \<noteq> []
      then Some (ValidationError (description_complaint (p_Description p)))
      else if amount_complaint (p_AmountOfEmployees p) \<noteq> []
      then Some (ValidationError (amount_complaint (p_AmountOfEmployees p)))
      else if type_complaint (p_Type p) \<noteq> []
      then Some (ValidationError (type_complaint (p_Type p)))
      else None)"

lemma complaint_Nil:
  "name_complaint v1 = [] \<longleftrightarrow> (case v1 of None \<Rightarrow> True | Some n \<Rightarrow> valid_name (TrimSpace n))"
  "description_complaint v2 = [] \<longleftrightarrow>
     (case v2 of None \<Rightarrow> True | Some d \<Rightarrow> valid_description (TrimSpace d))"
  "amount_complaint v3 = [] \<longleftrightarrow> (case v3 of None \<Rightarrow> True | Some a \<Rightarrow> 0 \<le> a)"
  "type_complaint v4 = [] \<longleftrightarrow> (case v4 of None \<Rightarrow> True | Some t \<Rightarrow> IsValid t)"
  by (simp_all add: complaint_defs split: option.splits)

lemma patch_error_None:
  "patch_error p = None \<longleftrightarrow> \<not> IsEmpty p \<and> name_complaint (p_Name p) = []
     \<and> description_complaint (p_Description p) = []
     \<and> amount_complaint (p_AmountOfEmployees p) = [] \<and> type_complaint (p_Type p) = []"
  by (simp add: patch_error_def)

text \<open>The company a patch asks for: supplied fields replaced, the others kept.\<close>

definition patched :: "time \<Rightarrow> patch \<Rightarrow> company \<Rightarrow> company" where
  "patched now p c = c
     \<lparr>Name := (case p_Name p of None \<Rightarrow> Name c | Some n \<Rightarrow> TrimSpace n),
      Description := (case p_Description p of None \<Rightarrow> Description c | Some d \<Rightarrow> TrimSpace d),
      AmountOfEmployees := (case p_AmountOfEmployees p of None \<Rightarrow> AmountOfEmployees c | Some a \<Rightarrow> a),
      Registered := (case p_Registered p of None \<Rightarrow> Registered c | Some b \<Rightarrow> b),
      Type := (case p_Type p of None \<Rightarrow> Type c | Some t \<Rightarrow> t),
      UpdatedAt := now\<rparr>"

lemma patched_frame [simp]:
  "ID (patched now p c) = ID c" "CreatedAt (patched now p c) = CreatedAt c"
  "UpdatedAt (patched now p c) = now"
  by (simp_all add: patched_def)

lemma valid_patched:
  "valid_company c \<Longrightarrow> patch_error p = None \<Longrightarrow> valid_company (patched now p c)"
  by (simp add: patched_def patch_error_None valid_company_def complaint_Nil IsValid_iff
      split: option.splits)

lemma normalised_patched: "normalised c \<Longrightarrow> normalised (patched now p c)"
  by (auto simp: patched_def normalised_def split: option.splits)

text \<open>Each step assigns its field, or complains and leaves the company alone.\<close>

lemma patchName_eq:
  "patchName v c =
     (if name_complaint v = []
      then (None, c\<lparr>Name := (case v of None \<Rightarrow> Name c | Some n \<Rightarrow> TrimSpace n)\<rparr>)
      else (Some (ValidationError (name_complaint v)), c))"
  by (simp add: patchName_def name_complaint_def NewValidationError_def Let_def split: option.split)

lemma patchDescription_eq:
  "patchDescription v c =
     (if description_complaint v = []
      then (None, c\<lparr>Description := (case v of None \<Rightarrow> Description c | Some d \<Rightarrow> TrimSpace d)\<rparr>)
      else (Some (ValidationError (description_complaint v)), c))"
  by (simp add: patchDescription_def description_complaint_def NewValidationError_def Let_def
      split: option.split)

lemma patchAmountOfEmployees_eq:
  "patchAmountOfEmployees v c =
     (if amount_complaint v = []
      then (None, c\<lparr>AmountOfEmployees := (case v of None \<Rightarrow> AmountOfEmployees c | Some a \<Rightarrow> a)\<rparr>)
      else (Some (ValidationError (amount_complaint v)), c))"
  by (simp add: patchAmountOfEmployees_def amount_complaint_def NewValidationError_def
      split: option.split)

lemma patchRegistered_eq:
  "patchRegistered v c =
     (None, c\<lparr>Registered := (case v of None \<Rightarrow> Registered c | Some b \<Rightarrow> b)\<rparr>)"
  by (simp add: patchRegistered_def split: option.split)

lemma patchType_eq:
  "patchType v c =
     (if type_complaint v = []
      then (None, c\<lparr>Type := (case v of None \<Rightarrow> Type c | Some t \<Rightarrow> t)\<rparr>)
      else (Some (ValidationError (type_complaint v)), c))"
  by (simp add: patchType_def type_complaint_def NewValidationError_def split: option.split)

lemmas patch_step_eqs =
  patchName_eq patchDescription_eq patchAmountOfEmployees_eq patchRegistered_eq patchType_eq

lemma patch_step_valid:
  assumes "valid_company c"
  shows "valid_company (snd (patchName v1 c))"
    and "valid_company (snd (patchDescription v2 c))"
    and "valid_company (snd (patchAmountOfEmployees v3 c))"
    and "valid_company (snd (patchRegistered v4 c))"
    and "valid_company (snd (patchType v5 c))"
  using assms
  by (auto simp: patch_step_eqs valid_company_def IsValid_iff complaint_defs split: option.splits)

lemma patch_step_normalised:
  assumes "normalised c"
  shows "normalised (snd (patchName v1 c))"
    and "normalised (snd (patchDescription v2 c))"
    and "normalised (snd (patchAmountOfEmployees v3 c))"
    and "normalised (snd (patchRegistered v4 c))"
    and "normalised (snd (patchType v5 c))"
  using assms by (auto simp: patch_step_eqs normalised_def split: option.splits)

lemma patch_step_frame:
  "ID (snd (patchName v1 c)) = ID c" "CreatedAt (snd (patchName v1 c)) = CreatedAt c"
  "ID (snd (patchDescription v2 c)) = ID c" "CreatedAt (snd (patchDescription v2 c)) = CreatedAt c"
  "ID (snd (patchAmountOfEmployees v3 c)) = ID c"
  "CreatedAt (snd (patchAmountOfEmployees v3 c)) = CreatedAt c"
  "ID (snd (patchRegistered v4 c)) = ID c" "CreatedAt (snd (patchRegistered v4 c)) = CreatedAt c"
  "ID (snd (patchType v5 c)) = ID c" "CreatedAt (snd (patchType v5 c)) = CreatedAt c"
  by (simp_all add: patch_step_eqs)

text \<open>
  A fact about a sequence of steps from the facts about each step: \<^term>\<open>try_cmd\<close> leaves the
  state as one of its two parts leaves it.
\<close>

lemma try_cmd_inv:
  assumes "\<And>x. P x \<Longrightarrow> P (snd (m x))" and "\<And>x. P x \<Longrightarrow> P (snd (k x))" and "P c"
  shows "P (snd (try_cmd m h k c))"
  using assms(1) [OF assms(3)] assms(2)
  by (cases "m c") (auto simp: try_cmd_def split: option.splits)

lemma ApplyPatch_inv:
  assumes steps: "\<And>v c. P c \<Longrightarrow> P (snd (patchName v c))"
      "\<And>v c. P c \<Longrightarrow> P (snd (patchDescription v c))"
      "\<And>v c. P c \<Longrightarrow> P (snd (patchAmountOfEmployees v c))"
      "\<And>v c. P c \<Longrightarrow> P (snd (patchRegistered v c))"
      "\<And>v c. P c \<Longrightarrow> P (snd (patchType v c))"
    and stamp: "\<And>c. P c \<Longrightarrow> P (c\<lparr>UpdatedAt := now\<rparr>)"
    and start: "P c"
  shows "P (snd (ApplyPatch now p c))"
proof (cases "IsEmpty p")
  case False
  note step = try_cmd_inv [where P = P]
  show ?thesis
    unfolding ApplyPatch_def if_not_P [OF False] Let_def
    by (rule step, erule steps(1), rule step, erule steps(2), rule step, erule steps(3),
        rule step, erule steps(4), rule step, erule steps(5)) (simp_all add: stamp start)
qed (simp add: ApplyPatch_def start)

lemma ApplyPatch_frame:
  "ID (snd (ApplyPatch now p c)) = ID c \<and> CreatedAt (snd (ApplyPatch now p c)) = CreatedAt c"
  by (rule ApplyPatch_inv [where P = "\<lambda>x. ID x = ID c \<and> CreatedAt x = CreatedAt c"])
    (simp_all add: patch_step_frame)

lemma ApplyPatch_valid: "valid_company c \<Longrightarrow> valid_company (snd (ApplyPatch now p c))"
  by (rule ApplyPatch_inv [where P = valid_company]) (simp_all add: patch_step_valid)

lemma ApplyPatch_ok:
  assumes "patch_error p = None"
  shows "ApplyPatch now p c = (Validate (patched now p c), patched now p c)"
proof -
  have "\<not> IsEmpty p \<and> name_complaint (p_Name p) = [] \<and> description_complaint (p_Description p) = []
    \<and> amount_complaint (p_AmountOfEmployees p) = [] \<and> type_complaint (p_Type p) = []"
    using assms by (simp add: patch_error_None)
  then show ?thesis
    by (simp add: ApplyPatch_def patch_step_eqs patched_def Let_def cong: option.case_cong)
qed

lemma ApplyPatch_error:
  assumes "patch_error p = Some e"
  shows "fst (ApplyPatch now p c) = Some e"
proof -
  consider "IsEmpty p" "e = ErrEmptyPatch"
    | "\<not> IsEmpty p" "name_complaint (p_Name p) \<noteq> []"
      "e = ValidationError (name_complaint (p_Name p))"
    | "\<not> IsEmpty p" "name_complaint (p_Name p) = []" "description_complaint (p_Description p) \<noteq> []"
      "e = ValidationError (description_complaint (p_Description p))"
    | "\<not> IsEmpty p" "name_complaint (p_Name p) = []" "description_complaint (p_Description p) = []"
      "amount_complaint (p_AmountOfEmployees p) \<noteq> []"
      "e = ValidationError (amount_complaint (p_AmountOfEmployees p))"
    | "\<not> IsEmpty p" "name_complaint (p_Name p) = []" "description_complaint (p_Description p) = []"
      "amount_complaint (p_AmountOfEmployees p) = []" "type_complaint (p_Type p) \<noteq> []"
      "e = ValidationError (type_complaint (p_Type p))"
    using assms by (auto simp: patch_error_def split: if_splits)
  then show ?thesis
    by cases (simp_all add: ApplyPatch_def patch_step_eqs)
qed

lemma ApplyPatch_normalised: "normalised c \<Longrightarrow> normalised (snd (ApplyPatch now p c))"
  by (rule ApplyPatch_inv [where P = normalised])
    (simp_all add: patch_step_normalised, simp add: normalised_def)

lemma ApplyPatch_fst: "valid_company c \<Longrightarrow> fst (ApplyPatch now p c) = patch_error p"
  by (cases "patch_error p") (simp_all add: ApplyPatch_ok ApplyPatch_error valid_patched)

lemma ApplyPatch_None:
  "valid_company c \<Longrightarrow>
   ApplyPatch now p c = (None, c') \<longleftrightarrow> patch_error p = None \<and> c' = patched now p c"
  by (cases "patch_error p")
    (auto simp: ApplyPatch_ok valid_patched dest: ApplyPatch_error [of _ _ now c])

text \<open>
  Property C25: on a valid company ApplyPatch reports the first complaint about the patch, in the
  order empty patch, name, description, number of employees, type, and if there is none it
  succeeds with the supplied fields replaced (name and description trimmed), the other fields
  kept and the update time set.
\<close>

theorem ApplyPatch_applies_or_complains:
  assumes "valid_company c"
  shows "fst (ApplyPatch now p c) = patch_error p
    \<and> (patch_error p = None \<longrightarrow> snd (ApplyPatch now p c) = patched now p c)"
  using assms by (simp add: ApplyPatch_fst ApplyPatch_ok)

text \<open>
  Whatever the patch and whether or not it is accepted, ApplyPatch leaves a valid,
  trimmed company valid and trimmed (even where it fails half-way and keeps the fields it has
  already assigned), and never touches the identifier or the creation time.
\<close>

theorem ApplyPatch_preserves_invariant:
  assumes "valid_company c" and "normalised c"
  shows "valid_company (snd (ApplyPatch now p c)) \<and> normalised (snd (ApplyPatch now p c))
    \<and> ID (snd (ApplyPatch now p c)) = ID c \<and> CreatedAt (snd (ApplyPatch now p c)) = CreatedAt c"
  using assms by (simp add: ApplyPatch_valid ApplyPatch_normalised ApplyPatch_frame)

subsection \<open>A concrete company\<close>

definition acme :: company where
  "acme = \<lparr>ID = 1, Name = ''Acme'', Description = ''x'', AmountOfEmployees = 10,
     Registered = True, Type = ''Corporations'', CreatedAt = 5000, UpdatedAt = 5000\<rparr>"

definition acme_patch :: patch where
  "acme_patch = \<lparr>p_Name = Some ''Bolt'', p_Description = None, p_AmountOfEmployees = Some 0,
     p_Registered = None, p_Type = Some ''Nope''\<rparr>"

lemma ascii_eval [simp]:
  "TrimSpace ''Acme'' = ''Acme''" "TrimSpace ''Bolt'' = ''Bolt''" "TrimSpace ''x'' = ''x''"
  "RuneCountInString ''Acme'' = 4" "RuneCountInString ''Bolt'' = 4" "RuneCountInString ''x'' = 1"
  by (simp_all add: TrimSpace_id starts_with_space_def ends_with_space_def decodeLastRune_def
      IsSpace_def byte_def)

lemma acme_valid [simp]: "valid_company acme" "normalised acme"
  by (simp_all add: acme_def valid_company_def valid_name_def valid_description_def normalised_def)

theorem ApplyPatch_applies_or_complains_witness:
  "valid_company acme \<and> fst (ApplyPatch 7 acme_patch acme) = patch_error acme_patch
   \<and> patch_error acme_patch \<noteq> None \<and> patch_error acme_patch \<noteq> Some ErrEmptyPatch
   \<and> snd (ApplyPatch 7 (acme_patch\<lparr>p_Type := None\<rparr>) acme)
       = acme\<lparr>Name := ''Bolt'', AmountOfEmployees := 0, UpdatedAt := 7\<rparr>"
proof -
  have "patch_error (acme_patch\<lparr>p_Type := None\<rparr>) = None"
    by (simp add: patch_error_None acme_patch_def IsEmpty_def complaint_Nil valid_name_def)
  then have "snd (ApplyPatch 7 (acme_patch\<lparr>p_Type := None\<rparr>) acme)
      = patched 7 (acme_patch\<lparr>p_Type := None\<rparr>) acme"
    using ApplyPatch_applies_or_complains [OF acme_valid(1), of 7 "acme_patch\<lparr>p_Type := None\<rparr>"]
    by simp
  moreover have "patch_error acme_patch \<noteq> None \<and> patch_error acme_patch \<noteq> Some ErrEmptyPatch"
    by (simp add: patch_error_def acme_patch_def IsEmpty_def complaint_defs validateType_def
        IsValid_def type_defs)
  moreover have "patched 7 (acme_patch\<lparr>p_Type := None\<rparr>) acme
      = acme\<lparr>Name := ''Bolt'', AmountOfEmployees := 0, UpdatedAt := 7\<rparr>"
    by (simp add: patched_def acme_patch_def acme_def)
  ultimately show ?thesis
    using ApplyPatch_applies_or_complains [OF acme_valid(1), of 7 acme_patch] by simp
qed

theorem ApplyPatch_preserves_invariant_witness:
  "valid_company acme \<and> normalised acme
   \<and> valid_company (snd (ApplyPatch 7 acme_patch acme))
   \<and> Name (snd (ApplyPatch 7 acme_patch acme)) = ''Bolt''"
proof -
  have "Name (snd (ApplyPatch 7 acme_patch acme)) = ''Bolt''"
    by (simp add: ApplyPatch_def patch_step_eqs acme_patch_def IsEmpty_def complaint_Nil
        valid_name_def IsValid_iff)
  with ApplyPatch_preserves_invariant [OF acme_valid, of 7 acme_patch] show ?thesis by simp
qed

end
