(* ===== verification/Entities.thy ===== *)
theory Entities
  imports Domain
begin

text \<open>
  The data and the interfaces of the application package
  (\<^verbatim>\<open>internal/application/company/entities.go\<close>).

  A Go interface is a record of functions over the state \<open>'w\<close> of the world; a nil interface value
  is \<^term>\<open>None\<close> where the code tests for it.  A context carries the transaction it was made for, if
  any (the value under \<^verbatim>\<open>txContextKey{}\<close> of \<^verbatim>\<open>postgres/transaction.go\<close>); deadlines and cancellation
  reach the code only as errors of the calls that get the context.
\<close>

type_synonym tx_handle = nat

record ctx =
  txContextKey :: "tx_handle option"

definition Background :: ctx where
  "Background = \<lparr>txContextKey = None\<rparr>"

lemma txContextKey_Background [simp]: "txContextKey Background = None"
  by (simp add: Background_def)

subsection \<open>Events and inputs\<close>

record event =
  e_ID :: uuid
  e_Type :: string
  OccurredAt :: time
  CompanyID :: uuid
  Company :: "company option"

record outbox_event =
  o_ID :: uuid
  o_Event :: event
  o_Attempts :: int

record create_input =
  i_ID :: uuid
  i_Name :: string
  i_Description :: string
  i_AmountOfEmployees :: int
  i_Registered :: bool
  i_Type :: CompanyType

record patch_input =
  pi_Name :: "string option"
  pi_Description :: "string option"
  pi_AmountOfEmployees :: "int option"
  pi_Registered :: "bool option"
  pi_Type :: "CompanyType option"

definition EventCompanyCreated :: string where "EventCompanyCreated = ''company.created''"
definition EventCompanyUpdated :: string where "EventCompanyUpdated = ''company.updated''"
definition EventCompanyDeleted :: string where "EventCompanyDeleted = ''company.deleted''"

lemmas event_type_defs [go_defs] =
  EventCompanyCreated_def EventCompanyUpdated_def EventCompanyDeleted_def

lemma event_types_distinct [simp]:
  "EventCompanyCreated \<noteq> EventCompanyDeleted" "EventCompanyUpdated \<noteq> EventCompanyDeleted"
  "EventCompanyDeleted \<noteq> EventCompanyCreated" "EventCompanyDeleted \<noteq> EventCompanyUpdated"
  "EventCompanyCreated \<noteq> EventCompanyUpdated" "EventCompanyUpdated \<noteq> EventCompanyCreated"
  by (simp_all add: event_type_defs)

subsection \<open>Interfaces\<close>

record 'w Repository =
  Create :: "ctx \<Rightarrow> company \<Rightarrow> ('w, goerr) cmd"
  Update :: "ctx \<Rightarrow> company \<Rightarrow> ('w, goerr) cmd"
  Delete :: "ctx \<Rightarrow> uuid \<Rightarrow> ('w, goerr) cmd"
  GetByID :: "ctx \<Rightarrow> uuid \<Rightarrow> ('w, goerr, company) io"
  GetByName :: "ctx \<Rightarrow> string \<Rightarrow> ('w, goerr, company) io"

record 'w EventProducer =
  Publish :: "ctx \<Rightarrow> event \<Rightarrow> ('w, goerr) cmd"
  Close :: "ctx \<Rightarrow> ('w, goerr) cmd"

record 'w OutboxStore =
  Store :: "ctx \<Rightarrow> event \<Rightarrow> ('w, goerr) cmd"

text \<open>
  The function handed to \<^verbatim>\<open>WithinTransaction\<close> returns an error and may leave a result in a variable
  it captures; here it returns that result (of type \<open>'a\<close>) beside the nil error.
\<close>

record ('w, 'a) TransactionRunner =
  WithinTransaction :: "ctx \<Rightarrow> (ctx \<Rightarrow> ('w, goerr, 'a) io) \<Rightarrow> ('w, goerr, 'a) io"

subsection \<open>The runtime\<close>

text \<open>
  What the program takes from outside: the clock \<^verbatim>\<open>time.Now().UTC()\<close>, the random source \<^verbatim>\<open>uuid.New()\<close>,
  and the textual form of UUIDs (\<^verbatim>\<open>github.com/google/uuid\<close>, not part of the repository).
\<close>

record 'w runtime =
  time_Now :: "'w \<Rightarrow> time \<times> 'w"
  uuid_New :: "'w \<Rightarrow> uuid \<times> 'w"

record uuid_lib =
  uuid_String :: "uuid \<Rightarrow> string"
  uuid_Parse :: "string \<Rightarrow> goerr + uuid"

text \<open>
  The documented behaviour the code relies on: the text of a UUID is ASCII without NUL bytes, and
  parsing it gives the UUID back.
\<close>

definition uuid_lib_ok :: "uuid_lib \<Rightarrow> bool" where
  "uuid_lib_ok lib \<longleftrightarrow>
     (\<forall>u. uuid_Parse lib (uuid_String lib u) = Inr u
          \<and> (\<forall>c\<in>set (uuid_String lib u). byte c \<noteq> 0 \<and> byte c < 128))"

lemma uuid_Parse_String [simp]:
  "uuid_lib_ok lib \<Longrightarrow> uuid_Parse lib (uuid_String lib u) = Inr u"
  by (simp add: uuid_lib_ok_def)

lemma uuid_String_inject:
  "uuid_lib_ok lib \<Longrightarrow> uuid_String lib u = uuid_String lib v \<Longrightarrow> u = v"
  by (metis Inr_inject uuid_Parse_String)

end
