(* ===== verification/Json.thy ===== *)
theory Json
  imports Entities
begin

text \<open>
  JSON values and what the code uses of \<^verbatim>\<open>encoding/json\<close>: marshalling and unmarshalling of the
  application's \<^verbatim>\<open>Event\<close> struct (the payload of an outbox row).

  A JSON document is its parsed value.  \<^term>\<open>JTime t\<close> is the JSON string that \<^verbatim>\<open>time.Time.MarshalJSON\<close>
  writes for the instant \<open>t\<close> (RFC 3339 with nanoseconds), a leaf of its own so that the calendar is
  not part of the model.  Only integer numbers occur in the documents of this program; a number
  that is not an integer is \<^term>\<open>JFrac\<close>.
\<close>

datatype json =
    JNull
  | JBool bool
  | JInt int
  | JFrac string
  | JStr string
  | JTime time
  | JArr "json list"
  | JObj "(string \<times> json) list"

subsection \<open>Strings\<close>

text \<open>\<^verbatim>\<open>json.Marshal\<close> replaces every byte that is not valid UTF-8 by the replacement character U+FFFD.\<close>

function ToValidUTF8 :: "string \<Rightarrow> string" where
  "ToValidUTF8 s =
     (if s = [] then []
      else (if decodeRune s = (RuneError, 1) then [CHR 0xEF, CHR 0xBF, CHR 0xBD]
            else take (snd (decodeRune s)) s) @ ToValidUTF8 (drop (snd (decodeRune s)) s))"
  by pat_completeness auto
termination
  by (relation "measure length") (use decodeRune_width_pos in auto)

declare ToValidUTF8.simps [simp del]

lemma ToValidUTF8_Nil [simp]: "ToValidUTF8 [] = []"
  by (simp add: ToValidUTF8.simps)

lemma ToValidUTF8_id [simp]: "ValidString s \<Longrightarrow> ToValidUTF8 s = s"
proof (induction s rule: ToValidUTF8.induct)
  case (1 s)
  show ?case
  proof (cases "s = []")
    case False
    with "1.prems" have "decodeRune s \<noteq> (RuneError, 1)"
      and "ValidString (drop (snd (decodeRune s)) s)"
      by (simp_all add: ValidString.simps [of s] split: if_splits)
    with "1.IH" False show ?thesis by (simp add: ToValidUTF8.simps [of s])
  qed simp
qed

subsection \<open>Instants\<close>

text \<open>
  \<^verbatim>\<open>MarshalJSON\<close> refuses years outside 0 to 9999: from the start of year 0 to the end of year 9999,
  in nanoseconds since the epoch.
\<close>

definition json_time_ok :: "time \<Rightarrow> bool" where
  "json_time_ok t \<longleftrightarrow> - 62167219200 * 1000000000 \<le> t \<and> t < 253402300800 * 1000000000"

definition marshal_time :: "time \<Rightarrow> goerr + json" where
  "marshal_time t =
     (if json_time_ok t then Inr (JTime t)
      else Inl (OtherError ''Time.MarshalJSON: year outside of range [0,9999]''))"

subsection \<open>Marshalling an event\<close>

definition marshal_company :: "uuid_lib \<Rightarrow> company \<Rightarrow> goerr + json" where
  "marshal_company lib c =
     (case marshal_time (CreatedAt c) of
        Inl e \<Rightarrow> Inl e
      | Inr created \<Rightarrow>
          (case marshal_time (UpdatedAt c) of
             Inl e \<Rightarrow> Inl e
           | Inr updated \<Rightarrow> Inr (JObj
               [(''ID'', JStr (uuid_String lib (ID c))),
                (''Name'', JStr (ToValidUTF8 (Name c))),
                (''Description'', JStr (ToValidUTF8 (Description c))),
                (''AmountOfEmployees'', JInt (AmountOfEmployees c)),
                (''Registered'', JBool (Registered c)),
                (''Type'', JStr (ToValidUTF8 (Type c))),
                (''CreatedAt'', created),
                (''UpdatedAt'', updated)])))"

definition marshal_event :: "uuid_lib \<Rightarrow> event \<Rightarrow> goerr + json" where
  "marshal_event lib ev =
     (case marshal_time (OccurredAt ev) of
        Inl e \<Rightarrow> Inl e
      | Inr occurred \<Rightarrow>
          (case (case Company ev of None \<Rightarrow> Inr JNull | Some c \<Rightarrow> marshal_company lib c) of
             Inl e \<Rightarrow> Inl e
           | Inr company \<Rightarrow> Inr (JObj
               [(''ID'', JStr (uuid_String lib (e_ID ev))),
                (''Type'', JStr (ToValidUTF8 (e_Type ev))),
                (''OccurredAt'', occurred),
                (''CompanyID'', JStr (uuid_String lib (CompanyID ev))),
                (''Company'', company)])))"

subsection \<open>Unmarshalling\<close>

definition type_error :: goerr where
  "type_error = OtherError ''json: cannot unmarshal value into Go struct field''"

text \<open>
  How \<^verbatim>\<open>json.Unmarshal\<close> fills one field of a struct from one value: null leaves a field that is not
  a pointer alone.
\<close>

fun dec_string :: "json \<Rightarrow> string \<Rightarrow> goerr + string" where
  "dec_string JNull old = Inr old"
| "dec_string (JStr s) old = Inr s"
| "dec_string _ old = Inl type_error"

fun dec_int :: "json \<Rightarrow> int \<Rightarrow> goerr + int" where
  "dec_int JNull old = Inr old"
| "dec_int (JInt n) old = (if is_go_int n then Inr n else Inl type_error)"
| "dec_int _ old = Inl type_error"

fun dec_bool :: "json \<Rightarrow> bool \<Rightarrow> goerr + bool" where
  "dec_bool JNull old = Inr old"
| "dec_bool (JBool b) old = Inr b"
| "dec_bool _ old = Inl type_error"

fun dec_uuid :: "uuid_lib \<Rightarrow> json \<Rightarrow> uuid \<Rightarrow> goerr + uuid" where
  "dec_uuid lib JNull old = Inr old"
| "dec_uuid lib (JStr s) old = uuid_Parse lib s"
| "dec_uuid lib _ old = Inl type_error"

fun dec_time :: "json \<Rightarrow> time \<Rightarrow> goerr + time" where
  "dec_time JNull old = Inr old"
| "dec_time (JTime t) old = Inr t"
| "dec_time _ old = Inl type_error"

text \<open>
  An object fills a struct entry by entry; a key that names no field is skipped.  Keys match field
  names up to case.
\<close>

definition zero_time :: time where
  "zero_time = - 62135596800 * 1000000000"

definition zero_company :: company where
  "zero_company = \<lparr>ID = 0, Name = '''', Description = '''', AmountOfEmployees = 0,
     Registered = False, Type = '''', CreatedAt = zero_time, UpdatedAt = zero_time\<rparr>"

definition zero_event :: event where
  "zero_event = \<lparr>e_ID = 0, e_Type = '''', OccurredAt = zero_time, CompanyID = 0, Company = None\<rparr>"

definition set_company_field :: "uuid_lib \<Rightarrow> string \<times> json \<Rightarrow> company \<Rightarrow> goerr + company" where
  "set_company_field lib kv c =
     (case kv of (k, v) \<Rightarrow>
      if EqualFold k ''ID'' then map_sum id (\<lambda>x. c\<lparr>ID := x\<rparr>) (dec_uuid lib v (ID c))
      else if EqualFold k ''Name'' then map_sum id (\<lambda>x. c\<lparr>Name := x\<rparr>) (dec_string v (Name c))
      else if EqualFold k ''Description''
      then map_sum id (\<lambda>x. c\<lparr>Description := x\<rparr>) (dec_string v (Description c))
      else if EqualFold k ''AmountOfEmployees''
      then map_sum id (\<lambda>x. c\<lparr>AmountOfEmployees := x\<rparr>) (dec_int v (AmountOfEmployees c))
      else if EqualFold k ''Registered''
      then map_sum id (\<lambda>x. c\<lparr>Registered := x\<rparr>) (dec_bool v (Registered c))
      else if EqualFold k ''Type'' then map_sum id (\<lambda>x. c\<lparr>Type := x\<rparr>) (dec_string v (Type c))
      else if EqualFold k ''CreatedAt''
      then map_sum id (\<lambda>x. c\<lparr>CreatedAt := x\<rparr>) (dec_time v (CreatedAt c))
      else if EqualFold k ''UpdatedAt''
      then map_sum id (\<lambda>x. c\<lparr>UpdatedAt := x\<rparr>) (dec_time v (UpdatedAt c))
      else Inr c)"

fun fill_struct :: "(string \<times> json \<Rightarrow> 'a \<Rightarrow> goerr + 'a) \<Rightarrow> (string \<times> json) list \<Rightarrow> 'a \<Rightarrow> goerr + 'a" where
  "fill_struct setter [] x = Inr x"
| "fill_struct setter (kv # kvs) x =
     (case setter kv x of Inl e \<Rightarrow> Inl e | Inr y \<Rightarrow> fill_struct setter kvs y)"

fun dec_company_ptr :: "uuid_lib \<Rightarrow> json \<Rightarrow> company option \<Rightarrow> goerr + company option" where
  "dec_company_ptr lib JNull old = Inr None"
| "dec_company_ptr lib (JObj kvs) old =
     map_sum id Some
       (fill_struct (set_company_field lib) kvs (case old of None \<Rightarrow> zero_company | Some c \<Rightarrow> c))"
| "dec_company_ptr lib _ old = Inl type_error"

definition set_event_field :: "uuid_lib \<Rightarrow> string \<times> json \<Rightarrow> event \<Rightarrow> goerr + event" where
  "set_event_field lib kv ev =
     (case kv of (k, v) \<Rightarrow>
      if EqualFold k ''ID'' then map_sum id (\<lambda>x. ev\<lparr>e_ID := x\<rparr>) (dec_uuid lib v (e_ID ev))
      else if EqualFold k ''Type'' then map_sum id (\<lambda>x. ev\<lparr>e_Type := x\<rparr>) (dec_string v (e_Type ev))
      else if EqualFold k ''OccurredAt''
      then map_sum id (\<lambda>x. ev\<lparr>OccurredAt := x\<rparr>) (dec_time v (OccurredAt ev))
      else if EqualFold k ''CompanyID''
      then map_sum id (\<lambda>x. ev\<lparr>CompanyID := x\<rparr>) (dec_uuid lib v (CompanyID ev))
      else if EqualFold k ''Company''
      then map_sum id (\<lambda>x. ev\<lparr>Company := x\<rparr>) (dec_company_ptr lib v (Company ev))
      else Inr ev)"

fun unmarshal_event :: "uuid_lib \<Rightarrow> json \<Rightarrow> goerr + event" where
  "unmarshal_event lib (JObj kvs) = fill_struct (set_event_field lib) kvs zero_event"
| "unmarshal_event lib JNull = Inr zero_event"
| "unmarshal_event lib _ = Inl type_error"

subsection \<open>Round trip\<close>

text \<open>The keys of the two structs, told apart up to case.\<close>

lemma field_keys [simp]:
  "EqualFold ''Name'' ''ID'' = False"
  "EqualFold ''Description'' ''ID'' = False" "EqualFold ''Description'' ''Name'' = False"
  "EqualFold ''AmountOfEmployees'' ''ID'' = False" "EqualFold ''AmountOfEmployees'' ''Name'' = False"
  "EqualFold ''AmountOfEmployees'' ''Description'' = False"
  "EqualFold ''Registered'' ''ID'' = False" "EqualFold ''Registered'' ''Name'' = False"
  "EqualFold ''Registered'' ''Description'' = False"
  "EqualFold ''Registered'' ''AmountOfEmployees'' = False"
  "EqualFold ''Type'' ''ID'' = False" "EqualFold ''Type'' ''Name'' = False"
  "EqualFold ''Type'' ''Description'' = False" "EqualFold ''Type'' ''AmountOfEmployees'' = False"
  "EqualFold ''Type'' ''Registered'' = False"
  "EqualFold ''CreatedAt'' ''ID'' = False" "EqualFold ''CreatedAt'' ''Name'' = False"
  "EqualFold ''CreatedAt'' ''Description'' = False"
  "EqualFold ''CreatedAt'' ''AmountOfEmployees'' = False"
  "EqualFold ''CreatedAt'' ''Registered'' = False" "EqualFold ''CreatedAt'' ''Type'' = False"
  "EqualFold ''UpdatedAt'' ''ID'' = False" "EqualFold ''UpdatedAt'' ''Name'' = False"
  "EqualFold ''UpdatedAt'' ''Description'' = False"
  "EqualFold ''UpdatedAt'' ''AmountOfEmployees'' = False"
  "EqualFold ''UpdatedAt'' ''Registered'' = False" "EqualFold ''UpdatedAt'' ''Type'' = False"
  "EqualFold ''UpdatedAt'' ''CreatedAt'' = False"
  "EqualFold ''OccurredAt'' ''ID'' = False" "EqualFold ''OccurredAt'' ''Type'' = False"
  "EqualFold ''CompanyID'' ''ID'' = False" "EqualFold ''CompanyID'' ''Type'' = False"
  "EqualFold ''CompanyID'' ''OccurredAt'' = False"
  "EqualFold ''Company'' ''ID'' = False" "EqualFold ''Company'' ''Type'' = False"
  "EqualFold ''Company'' ''OccurredAt'' = False" "EqualFold ''Company'' ''CompanyID'' = False"
  by (simp_all add: EqualFold_def byte_def foldRune_def)

text \<open>What survives a trip through JSON: valid UTF-8, 64-bit integers, years 0 to 9999.\<close>

definition json_safe_company :: "company \<Rightarrow> bool" where
  "json_safe_company c \<longleftrightarrow> ValidString (Name c) \<and> ValidString (Description c)
     \<and> ValidString (Type c) \<and> is_go_int (AmountOfEmployees c)
     \<and> json_time_ok (CreatedAt c) \<and> json_time_ok (UpdatedAt c)"

definition json_safe_event :: "event \<Rightarrow> bool" where
  "json_safe_event ev \<longleftrightarrow> ValidString (e_Type ev) \<and> json_time_ok (OccurredAt ev)
     \<and> (case Company ev of None \<Rightarrow> True | Some c \<Rightarrow> json_safe_company c)"

lemma company_roundtrip:
  assumes "uuid_lib_ok lib" and "json_safe_company c"
  obtains j where "marshal_company lib c = Inr j" "dec_company_ptr lib j None = Inr (Some c)"
proof
  let ?j = "JObj [(''ID'', JStr (uuid_String lib (ID c))), (''Name'', JStr (Name c)),
    (''Description'', JStr (Description c)), (''AmountOfEmployees'', JInt (AmountOfEmployees c)),
    (''Registered'', JBool (Registered c)), (''Type'', JStr (Type c)),
    (''CreatedAt'', JTime (CreatedAt c)), (''UpdatedAt'', JTime (UpdatedAt c))]"
  show "marshal_company lib c = Inr ?j"
    using assms by (simp add: marshal_company_def marshal_time_def json_safe_company_def)
  show "dec_company_ptr lib ?j None = Inr (Some c)"
    using assms by (simp add: set_company_field_def json_safe_company_def zero_company_def)
qed

lemma marshal_unmarshal_event:
  assumes lib: "uuid_lib_ok lib" and safe: "json_safe_event ev"
  shows "\<exists>j. marshal_event lib ev = Inr j \<and> unmarshal_event lib j = Inr ev"
proof (cases "Company ev")
  case None
  with assms show ?thesis
    by (simp add: marshal_event_def marshal_time_def json_safe_event_def set_event_field_def
        zero_event_def)
next
  case (Some c)
  with safe have "json_safe_company c" by (simp add: json_safe_event_def)
  with lib obtain j where "marshal_company lib c = Inr j"
    "dec_company_ptr lib j None = Inr (Some c)" by (rule company_roundtrip)
  with assms Some show ?thesis
    by (simp add: marshal_event_def marshal_time_def json_safe_event_def set_event_field_def
        zero_event_def)
qed

end
