(* ===== verification/HttpResponse.thy ===== *)
theory HttpResponse
  imports Json "HOL-Library.List_Lexorder" "HOL-Library.Char_ord"
begin

text \<open>
  Requests, response writers and the writing of responses
  (\<^verbatim>\<open>internal/interfaces/http/response.go\<close>).
\<close>

subsection \<open>What net/http provides\<close>

text \<open>
  A request: the parts the code reads.  \<^verbatim>\<open>Header.Get\<close> gives the empty string for a header that is
  not there.  A body is what successive calls of a JSON decoder find in it, documents or syntax
  errors, before the end; strings are \<^term>\<open>JStr\<close> throughout.  The URL parameters are filled in by
  the router.
\<close>

record request =
  r_Method :: string
  r_Path :: string
  r_Authorization :: string
  r_Body :: "(goerr + json) list option"
  r_Params :: "(string \<times> string) list"

text \<open>
  A \<^verbatim>\<open>ResponseWriter\<close>: the content type, the status once it has been sent, the documents written.
  The first status wins.
\<close>

record writer =
  content_type :: string
  status_sent :: "nat option"
  body_sent :: "json list"

definition fresh_writer :: writer where
  "fresh_writer = \<lparr>content_type = '''', status_sent = None, body_sent = []\<rparr>"

definition WriteHeader :: "nat \<Rightarrow> writer \<Rightarrow> writer" where
  "WriteHeader status wr =
     (case status_sent wr of None \<Rightarrow> wr\<lparr>status_sent := Some status\<rparr> | Some _ \<Rightarrow> wr)"

abbreviation "StatusOK \<equiv> (200::nat)"
abbreviation "StatusCreated \<equiv> (201::nat)"
abbreviation "StatusNoContent \<equiv> (204::nat)"
abbreviation "StatusBadRequest \<equiv> (400::nat)"
abbreviation "StatusUnauthorized \<equiv> (401::nat)"
abbreviation "StatusNotFound \<equiv> (404::nat)"
abbreviation "StatusConflict \<equiv> (409::nat)"
abbreviation "StatusInternalServerError \<equiv> (500::nat)"
abbreviation "StatusServiceUnavailable \<equiv> (503::nat)"

subsection \<open>Response bodies\<close>

text \<open>
  The value handed to \<^verbatim>\<open>writeJSON\<close>: nil, or what encoding it gives, a document or an error; the
  error is dropped and nothing is written.
\<close>

definition writeJSON :: "nat \<Rightarrow> (goerr + json) option \<Rightarrow> writer \<Rightarrow> writer" where
  "writeJSON status value wr =
     (let wr = wr\<lparr>content_type := ''application/json''\<rparr>;
          wr = WriteHeader status wr
      in case value of
           None \<Rightarrow> wr
         | Some (Inl err) \<Rightarrow> wr
         | Some (Inr doc) \<Rightarrow> wr\<lparr>body_sent := body_sent wr @ [doc]\<rparr>)"

record errorResponse =
  er_Error :: string
  er_Fields :: fields

text \<open>A map is encoded with its keys sorted; \<^verbatim>\<open>omitempty\<close> drops it when it is empty.\<close>

definition encode_fields :: "fields \<Rightarrow> json" where
  "encode_fields fs = JObj (map (\<lambda>(k, v). (ToValidUTF8 k, JStr (ToValidUTF8 v))) (sort_key fst fs))"

definition encode_error :: "errorResponse \<Rightarrow> goerr + json" where
  "encode_error er =
     Inr (JObj ((''error'', JStr (ToValidUTF8 (er_Error er)))
       # (if er_Fields er = [] then [] else [(''fields'', encode_fields (er_Fields er))])))"

definition error_message :: "string \<Rightarrow> (goerr + json) option" where
  "error_message msg = Some (encode_error \<lparr>er_Error = msg, er_Fields = []\<rparr>)"

subsection \<open>Application errors\<close>

definition writeAppError :: "goerr \<Rightarrow> writer \<Rightarrow> writer" where
  "writeAppError err =
     (case errors_As_ValidationError err of
        Some fs \<Rightarrow>
          writeJSON StatusBadRequest
            (Some (encode_error \<lparr>er_Error = ''validation failed'', er_Fields = fs\<rparr>))
      | None \<Rightarrow>
          if errors_Is err ErrEmptyPatch
          then writeJSON StatusBadRequest (error_message ''empty patch body'')
          else if errors_Is err ErrNotFound
          then writeJSON StatusNotFound (error_message ''company not found'')
          else if errors_Is err ErrDuplicateID
          then writeJSON StatusConflict (error_message ''company id already exists'')
          else if errors_Is err ErrDuplicateName
          then writeJSON StatusConflict (error_message ''company name already exists'')
          else writeJSON StatusInternalServerError (error_message ''internal server error''))"

definition appErrorStatus :: "goerr \<Rightarrow> nat" where
  "appErrorStatus err =
     (if errors_As_ValidationError err \<noteq> None \<or> errors_Is err ErrEmptyPatch then StatusBadRequest
      else if errors_Is err ErrNotFound then StatusNotFound
      else if errors_Is err ErrDuplicateID \<or> errors_Is err ErrDuplicateName then StatusConflict
      else StatusInternalServerError)"

lemma status_writeJSON [simp]:
  "status_sent (writeJSON status value wr) =
     (case status_sent wr of None \<Rightarrow> Some status | Some s \<Rightarrow> Some s)"
  by (auto simp: writeJSON_def WriteHeader_def Let_def split: option.split sum.split)

lemma body_writeJSON [simp]:
  "body_sent (writeJSON status value wr) = body_sent wr @
     (case value of Some (Inr doc) \<Rightarrow> [doc] | _ \<Rightarrow> [])"
  by (auto simp: writeJSON_def WriteHeader_def Let_def split: option.split sum.split)

lemma status_writeAppError [simp]:
  "status_sent (writeAppError err wr) =
     (case status_sent wr of None \<Rightarrow> Some (appErrorStatus err) | Some s \<Rightarrow> Some s)"
  by (auto simp: writeAppError_def appErrorStatus_def split: option.split)

lemma appErrorStatus_root:
  "appErrorStatus err =
     (case root_cause err of
        ValidationError fs \<Rightarrow> StatusBadRequest | ErrEmptyPatch \<Rightarrow> StatusBadRequest
      | ErrNotFound \<Rightarrow> StatusNotFound
      | ErrDuplicateID \<Rightarrow> StatusConflict | ErrDuplicateName \<Rightarrow> StatusConflict
      | _ \<Rightarrow> StatusInternalServerError)"
proof (cases "errors_As_ValidationError err")
  case (Some fs)
  then show ?thesis by (simp add: appErrorStatus_def errors_As_ValidationError_iff)
next
  case None
  then have "root_cause err \<noteq> ValidationError fs" for fs
    using errors_As_ValidationError_iff [of err fs] by auto
  with None show ?thesis
    by (auto simp: appErrorStatus_def errors_Is_iff split: goerr.split)
qed

text \<open>
  Property C35: the status that is logged for an application error is the status that is answered,
  and it depends on the innermost error only: 400 for a validation error or an empty patch, 404 for
  not found, 409 for a duplicate id or name, 500 for everything else.  The response has exactly one
  body document, and a validation error's document carries its fields.
\<close>

theorem writeAppError_status:
  "status_sent (writeAppError err fresh_writer) = Some (appErrorStatus err)
   \<and> length (body_sent (writeAppError err fresh_writer)) = 1
   \<and> appErrorStatus err =
       (case root_cause err of
          ValidationError fs \<Rightarrow> 400 | ErrEmptyPatch \<Rightarrow> 400 | ErrNotFound \<Rightarrow> 404
        | ErrDuplicateID \<Rightarrow> 409 | ErrDuplicateName \<Rightarrow> 409 | _ \<Rightarrow> 500)
   \<and> (\<forall>fs. root_cause err = ValidationError fs \<longrightarrow>
        body_sent (writeAppError err fresh_writer) =
          [JObj ((''error'', JStr ''validation failed'')
             # (if fs = [] then [] else [(''fields'', encode_fields fs)]))])"
proof -
  have "length (body_sent (writeAppError err fresh_writer)) = 1"
    by (simp add: writeAppError_def error_message_def encode_error_def fresh_writer_def
        split: option.split)
  moreover have "body_sent (writeAppError err fresh_writer) =
      [JObj ((''error'', JStr ''validation failed'')
         # (if fs = [] then [] else [(''fields'', encode_fields fs)]))]"
    if "root_cause err = ValidationError fs" for fs
    using that errors_As_ValidationError_iff [of err fs]
    by (simp add: writeAppError_def encode_error_def fresh_writer_def byte_def)
  moreover have "status_sent fresh_writer = None" by (simp add: fresh_writer_def)
  ultimately show ?thesis using appErrorStatus_root [of err] by simp
qed

theorem writeAppError_status_witness:
  "body_sent (writeAppError (wrap ''create company'' (ValidationError [(''id'', ''is required'')]))
     fresh_writer) =
     [JObj [(''error'', JStr ''validation failed''),
        (''fields'', encode_fields [(''id'', ''is required'')])]]
   \<and> appErrorStatus (wrap ''create company'' (ValidationError [(''id'', ''is required'')])) = 400"
  using writeAppError_status [of "wrap ''create company'' (ValidationError [(''id'', ''is required'')])"]
  by simp

end
