(* ===== verification/HttpMiddleware.thy ===== *)
theory HttpMiddleware
  imports HttpResponse
begin

text \<open>
  Bearer tokens and the authentication middleware
  (\<^verbatim>\<open>internal/interfaces/http/middleware.go\<close>).
\<close>

type_synonym 'w handler = "request \<Rightarrow> writer \<Rightarrow> 'w \<Rightarrow> writer \<times> 'w"

text \<open>The claims of a valid token, an opaque value here (\<^verbatim>\<open>any\<close>): nobody looks at it.\<close>

record ('w, 'c) TokenValidator =
  tv_Validate :: "string \<Rightarrow> ('w, goerr, 'c) io"

definition bearerToken :: "string \<Rightarrow> string" where
  "bearerToken header =
     (if header = '''' then ''''
      else
        let parts = SplitN2 CHR '' '' header
        in if length parts \<noteq> 2 \<or> \<not> EqualFold (parts ! 0) ''Bearer'' then ''''
           else TrimSpace (parts ! 1))"

definition AuthMiddleware :: "('w, 'c) TokenValidator \<Rightarrow> 'w handler \<Rightarrow> 'w handler" where
  "AuthMiddleware validator next_handler r wr w =
     (let token = bearerToken (r_Authorization r)
      in if token = '''' then
           (writeJSON StatusUnauthorized (error_message ''missing bearer token'') wr, w)
         else
           (case tv_Validate validator token w of
              (Inl err, w) \<Rightarrow>
                (writeJSON StatusUnauthorized (error_message ''invalid bearer token'') wr, w)
            | (Inr claims, w) \<Rightarrow> next_handler r wr w))"

text \<open>
  The bearer token of a header is what follows the first space, trimmed, when what
  precedes it is \<open>Bearer\<close> in any case; every other header has none.
\<close>

theorem bearerToken_spec:
  "bearerToken header = token \<and> token \<noteq> '''' \<longleftrightarrow>
     (\<exists>scheme rest. header = scheme @ '' '' @ rest \<and> CHR '' '' \<notin> set scheme
        \<and> EqualFold scheme ''Bearer'' \<and> token = TrimSpace rest \<and> token \<noteq> '''')"
proof (cases "CHR '' '' \<in> set header")
  case True
  then obtain scheme rest where h: "header = scheme @ CHR '' '' # rest" "CHR '' '' \<notin> set scheme"
    by (meson split_list_first)
  have unique: "scheme' = scheme \<and> rest' = rest"
    if "header = scheme' @ CHR '' '' # rest'" "CHR '' '' \<notin> set scheme'" for scheme' rest'
    using SplitN2_sep [OF that(2), of rest'] SplitN2_sep [OF h(2), of rest] that(1) h(1) by simp
  have token: "bearerToken header = (if EqualFold scheme ''Bearer'' then TrimSpace rest else '''')"
    using SplitN2_sep [OF h(2), of rest] by (simp add: bearerToken_def h(1) Let_def)
  show ?thesis
  proof
    assume "bearerToken header = token \<and> token \<noteq> ''''"
    with token h have "header = scheme @ '' '' @ rest \<and> CHR '' '' \<notin> set scheme
        \<and> EqualFold scheme ''Bearer'' \<and> token = TrimSpace rest \<and> token \<noteq> ''''"
      by (auto split: if_splits)
    then show "\<exists>scheme rest. header = scheme @ '' '' @ rest \<and> CHR '' '' \<notin> set scheme
        \<and> EqualFold scheme ''Bearer'' \<and> token = TrimSpace rest \<and> token \<noteq> ''''" by blast
  next
    assume "\<exists>scheme rest. header = scheme @ '' '' @ rest \<and> CHR '' '' \<notin> set scheme
        \<and> EqualFold scheme ''Bearer'' \<and> token = TrimSpace rest \<and> token \<noteq> ''''"
    then obtain scheme' rest' where s: "header = scheme' @ CHR '' '' # rest'"
      "CHR '' '' \<notin> set scheme'" "EqualFold scheme' ''Bearer''" "token = TrimSpace rest'" "token \<noteq> ''''"
      by auto
    from unique [OF s(1,2)] s token show "bearerToken header = token \<and> token \<noteq> ''''" by simp
  qed
next
  case False
  then show ?thesis by (auto simp: bearerToken_def SplitN2_no_sep Let_def)
qed

lemma AuthMiddleware_refuses:
  assumes "AuthMiddleware validator next_handler r fresh_writer w = (wr', w')"
    and "bearerToken (r_Authorization r) = ''''
      \<or> (\<exists>err w1. tv_Validate validator (bearerToken (r_Authorization r)) w = (Inl err, w1))"
  shows "status_sent wr' = Some 401
    \<and> (w' = w \<or> w' = snd (tv_Validate validator (bearerToken (r_Authorization r)) w))"
  using assms by (auto simp: AuthMiddleware_def Let_def fresh_writer_def split: if_splits)

lemma AuthMiddleware_cases:
  assumes "AuthMiddleware validator next_handler r fresh_writer w = (wr', w')"
  shows "(\<exists>claims w1. bearerToken (r_Authorization r) \<noteq> ''''
            \<and> tv_Validate validator (bearerToken (r_Authorization r)) w = (Inr claims, w1)
            \<and> next_handler r fresh_writer w1 = (wr', w'))
    \<or> status_sent wr' = Some 401 \<and> length (body_sent wr') = 1
        \<and> (bearerToken (r_Authorization r) = '''' \<and> w' = w
           \<or> (\<exists>err. tv_Validate validator (bearerToken (r_Authorization r)) w = (Inl err, w')))"
  using assms
  by (auto simp: AuthMiddleware_def Let_def error_message_def encode_error_def fresh_writer_def
      split: if_splits prod.splits sum.splits)

text \<open>
  A request without a bearer token, or with one the validator rejects, is answered
  401 and goes no further: the handler behind the middleware has no say in the answer, and nothing
  but the validator has run.  With a valid token the request reaches the handler unchanged.
\<close>

theorem AuthMiddleware_guards:
  assumes "AuthMiddleware validator next_handler r fresh_writer w = (wr', w')"
  shows "(\<exists>claims w1. bearerToken (r_Authorization r) \<noteq> ''''
            \<and> tv_Validate validator (bearerToken (r_Authorization r)) w = (Inr claims, w1)
            \<and> next_handler r fresh_writer w1 = (wr', w'))
    \<or> status_sent wr' = Some 401 \<and> length (body_sent wr') = 1
        \<and> (bearerToken (r_Authorization r) = '''' \<and> w' = w
           \<or> (\<exists>err. tv_Validate validator (bearerToken (r_Authorization r)) w = (Inl err, w')))"
  using assms by (rule AuthMiddleware_cases)

theorem AuthMiddleware_guards_witness:
  "\<exists>wr'. AuthMiddleware \<lparr>tv_Validate = \<lambda>token w. (Inl (OtherError ''bad''), w)\<rparr>
      (\<lambda>r wr w. (WriteHeader 204 wr, Suc w))
      \<lparr>r_Method = ''DELETE'', r_Path = ''/companies/1'', r_Authorization = '''', r_Body = Some [],
       r_Params = []\<rparr> fresh_writer 0 = (wr', 0) \<and> status_sent wr' = Some 401"
proof -
  let ?v = "\<lparr>tv_Validate = \<lambda>token w. (Inl (OtherError ''bad''), w)\<rparr> :: (nat, unit) TokenValidator"
  let ?h = "\<lambda>r wr w. (WriteHeader 204 wr, Suc w)"
  let ?r = "\<lparr>r_Method = ''DELETE'', r_Path = ''/companies/1'', r_Authorization = '''',
    r_Body = Some [], r_Params = []\<rparr> :: request"
  obtain wr' w' where run: "AuthMiddleware ?v ?h ?r fresh_writer 0 = (wr', w')" by fastforce
  from AuthMiddleware_guards [OF run] have "status_sent wr' = Some 401" "w' = 0"
    by (auto simp: bearerToken_def)
  with run show ?thesis by (auto simp: AuthMiddleware_def bearerToken_def)
qed

end
