(* ===== verification/Tokens.thy ===== *)
theory Tokens
  imports HttpMiddleware
begin

text \<open>
  The bearer tokens (\<^verbatim>\<open>internal/infrastructure/auth/jwt.go\<close>).  The JWT library is a parameter: the
  parsing of a token, which calls back for the key, the signing of claims, and the rounding of dates.
\<close>

datatype signing_method = SigningMethodHS256 | OtherMethod string

text \<open>The registered claims, as far as the code sets or reads them.\<close>

record RegisteredClaims =
  Subject :: string
  ExpiresAt :: "time option"
  IssuedAt :: "time option"

text \<open>\<^verbatim>\<open>jwt.Claims\<close> is an interface; \<open>Claims\<close> is the struct of this package.\<close>

datatype jwt_claims = Claims RegisteredClaims | OtherClaims

record jwt_token =
  tk_Method :: signing_method
  tk_Claims :: jwt_claims
  tk_Valid :: bool

record 'w jwt_lib =
  ParseWithClaims :: "string \<Rightarrow> (jwt_token \<Rightarrow> goerr + string) \<Rightarrow> ('w, goerr, jwt_token) io"
  SignedString :: "signing_method \<Rightarrow> RegisteredClaims \<Rightarrow> string \<Rightarrow> goerr + string"
  NewNumericDate :: "time \<Rightarrow> time"

record JWTManager =
  secret :: string

definition NewJWTManager :: "string \<Rightarrow> JWTManager" where
  "NewJWTManager s = \<lparr>secret = s\<rparr>"

text \<open>The callback that gives the key.\<close>

definition keyfunc :: "JWTManager \<Rightarrow> jwt_token \<Rightarrow> goerr + string" where
  "keyfunc m token =
     (if tk_Method token \<noteq> SigningMethodHS256 then Inl (OtherError ''unexpected signing method'')
      else Inr (secret m))"

definition JWTManager_Validate ::
    "'w jwt_lib \<Rightarrow> JWTManager \<Rightarrow> string \<Rightarrow> ('w, goerr, RegisteredClaims) io" where
  "JWTManager_Validate jwt m tokenString =
     try_io (ParseWithClaims jwt tokenString (keyfunc m)) Inl
       (\<lambda>token w.
          (case tk_Claims token of
             OtherClaims \<Rightarrow> Inl (OtherError ''invalid token'')
           | Claims claims \<Rightarrow>
               if \<not> tk_Valid token then Inl (OtherError ''invalid token'')
               else if ExpiresAt claims = None then Inl (OtherError ''token expiration is required'')
               else Inr claims, w))"

definition JWTManager_Generate ::
    "'w jwt_lib \<Rightarrow> 'w runtime \<Rightarrow> JWTManager \<Rightarrow> string \<Rightarrow> int \<Rightarrow> ('w, goerr, string) io" where
  "JWTManager_Generate jwt rt m subject ttl w =
     (case time_Now rt w of
        (t1, w) \<Rightarrow>
          (case time_Now rt w of
             (t2, w) \<Rightarrow>
               (let claims = \<lparr>Subject = subject,
                      ExpiresAt = Some (NewNumericDate jwt (t1 + ttl)),
                      IssuedAt = Some (NewNumericDate jwt t2)\<rparr>
                in (SignedString jwt SigningMethodHS256 claims (secret m), w))))"

text \<open>The manager as the validator of the middleware.\<close>

definition jwt_validator :: "'w jwt_lib \<Rightarrow> JWTManager \<Rightarrow> ('w, RegisteredClaims) TokenValidator" where
  "jwt_validator jwt m = \<lparr>tv_Validate = JWTManager_Validate jwt m\<rparr>"

subsection \<open>The contract of the library\<close>

text \<open>
  A date that survives being written as a JSON number and read again: whole seconds, in the range
  where floating point is exact.
\<close>

definition numeric_date :: "time \<Rightarrow> bool" where
  "numeric_date t \<longleftrightarrow> 0 \<le> t \<and> t < 2 ^ 53 * 1000000000 \<and> t mod 1000000000 = 0"

text \<open>
  What the code relies on.  \<open>verify\<close> is the check of a signature by a method with a key, \<open>clock\<close> the
  clock the library looks at.  A token that is parsed carries claims of the type asked for and, after
  its last dot, a signature that its method verifies with the key that the callback gave for it, and
  it has not expired.  Signed
  claims are parsed again, while they have not expired and unless they were issued in the future;
  the callback sees the method and the claims of the token.  Dates are rounded down to the second.
\<close>

locale jwt_library =
  fixes jwt :: "'w jwt_lib" and clock :: "'w \<Rightarrow> time"
    and verify :: "signing_method \<Rightarrow> string \<Rightarrow> string \<Rightarrow> string \<Rightarrow> bool"
  assumes parsed: "ParseWithClaims jwt s kf w = (Inr token, w') \<Longrightarrow>
      tk_Valid token
      \<and> (\<exists>claims. tk_Claims token = Claims claims
           \<and> (\<forall>e. ExpiresAt claims = Some e \<longrightarrow> clock w < e)
           \<and> (\<forall>i. IssuedAt claims = Some i \<longrightarrow> i \<le> clock w))
      \<and> (\<exists>key input sg. kf (token\<lparr>tk_Valid := False\<rparr>) = Inr key
           \<and> s = input @ ''.'' @ sg \<and> verify (tk_Method token) key input sg)"
    and parses: "SignedString jwt m claims key = Inr s \<Longrightarrow>
      ValidString (Subject claims) \<Longrightarrow> ExpiresAt claims = Some e \<Longrightarrow> IssuedAt claims = Some i \<Longrightarrow>
      numeric_date e \<Longrightarrow> numeric_date i \<Longrightarrow> i \<le> clock w \<Longrightarrow> clock w < e \<Longrightarrow>
      kf \<lparr>tk_Method = m, tk_Claims = Claims claims, tk_Valid = False\<rparr> = Inr key \<Longrightarrow>
      \<exists>w'. ParseWithClaims jwt s kf w
        = (Inr \<lparr>tk_Method = m, tk_Claims = Claims claims, tk_Valid = True\<rparr>, w')"
    and signs: "ValidString (Subject claims) \<Longrightarrow> \<exists>s. SignedString jwt SigningMethodHS256 claims key = Inr s"
    and rounds: "NewNumericDate jwt t = t - t mod 1000000000"
begin

lemma Validate_accepts:
  assumes "JWTManager_Validate jwt m s w = (Inr claims, w')"
  shows "(\<exists>input sg. s = input @ ''.'' @ sg \<and> verify SigningMethodHS256 (secret m) input sg)
    \<and> (\<exists>e. ExpiresAt claims = Some e \<and> clock w < e)"
proof -
  from assms obtain token w1 where p: "ParseWithClaims jwt s (keyfunc m) w = (Inr token, w1)"
    and c: "tk_Claims token = Claims claims" "ExpiresAt claims \<noteq> None"
    by (auto simp: JWTManager_Validate_def split: jwt_claims.splits if_splits elim!: try_ioE)
  from parsed [OF p] obtain key input sg where key: "keyfunc m (token\<lparr>tk_Valid := False\<rparr>) = Inr key"
    "s = input @ ''.'' @ sg" "verify (tk_Method token) key input sg" by blast
  then have "tk_Method token = SigningMethodHS256" "key = secret m"
    by (auto simp: keyfunc_def split: if_splits)
  with key parsed [OF p] c show ?thesis by auto
qed

lemma Generate_signs:
  assumes "time_Now rt w = (t1, wa)" and "time_Now rt wa = (t2, w1)" and "ValidString subject"
  shows "\<exists>s. JWTManager_Generate jwt rt m subject ttl w = (Inr s, w1)"
  using assms signs [of "\<lparr>Subject = subject, ExpiresAt = Some (NewNumericDate jwt (t1 + ttl)),
    IssuedAt = Some (NewNumericDate jwt t2)\<rparr>" "secret m"]
  by (simp add: JWTManager_Generate_def Let_def)

lemma Validate_Generated:
  assumes gen: "JWTManager_Generate jwt rt m subject ttl w = (Inr s, w1)"
    and now1: "time_Now rt w = (t1, wa)" and now2: "time_Now rt wa = (t2, w1)"
    and subject: "ValidString subject"
    and dates: "0 \<le> t2" "t2 < 2 ^ 53 * 1000000000" "0 \<le> t1 + ttl" "t1 + ttl < 2 ^ 53 * 1000000000"
    and time: "t2 \<le> clock w2" "clock w2 < t1 + ttl - (t1 + ttl) mod 1000000000"
  shows "\<exists>claims w3. JWTManager_Validate jwt m s w2 = (Inr claims, w3) \<and> Subject claims = subject"
proof -
  let ?c = "\<lparr>Subject = subject, ExpiresAt = Some (NewNumericDate jwt (t1 + ttl)),
    IssuedAt = Some (NewNumericDate jwt t2)\<rparr>"
  have signed: "SignedString jwt SigningMethodHS256 ?c (secret m) = Inr s"
    using gen now1 now2 by (simp add: JWTManager_Generate_def Let_def)
  have date: "numeric_date (NewNumericDate jwt t)" if "0 \<le> t" "t < 2 ^ 53 * 1000000000" for t
  proof -
    have "t - t mod 1000000000 = t div 1000000000 * 1000000000"
      by (simp add: minus_mod_eq_div_mult)
    with that show ?thesis
      unfolding numeric_date_def rounds using pos_imp_zdiv_nonneg_iff [of 1000000000 t] by auto
  qed
  have "0 \<le> t2 mod 1000000000" by simp
  with time(1) have issued: "NewNumericDate jwt t2 \<le> clock w2" unfolding rounds by linarith
  have "\<exists>w3. ParseWithClaims jwt s (keyfunc m) w2
      = (Inr \<lparr>tk_Method = SigningMethodHS256, tk_Claims = Claims ?c, tk_Valid = True\<rparr>, w3)"
    by (rule parses [OF signed _ _ _ date [OF dates(3,4)] date [OF dates(1,2)] issued])
      (use subject time(2) in \<open>simp_all add: keyfunc_def rounds\<close>)
  then show ?thesis by (auto simp: JWTManager_Validate_def)
qed

end

text \<open>
  A token is accepted only if it ends in a signature that HS256 verifies with the
  secret of the manager, and only until it expires; a token that never expires is not accepted.
\<close>

theorem Validate_accepts_only_signed:
  assumes "jwt_library jwt clock verify"
    and "JWTManager_Validate jwt m s w = (Inr claims, w')"
  shows "(\<exists>input sg. s = input @ ''.'' @ sg \<and> verify SigningMethodHS256 (secret m) input sg)
    \<and> (\<exists>e. ExpiresAt claims = Some e \<and> clock w < e)"
  using jwt_library.Validate_accepts [OF assms] .

text \<open>
  Property C27: a token can always be generated, and it is accepted by every manager with the same
  secret, naming its subject, from the moment of its making until the second in which it expires.
\<close>

theorem Generated_tokens_are_accepted:
  assumes "jwt_library jwt clock verify"
    and "time_Now rt w = (t1, wa)" and "time_Now rt wa = (t2, w1)"
    and "ValidString subject"
    and "0 \<le> t2" and "t2 < 2 ^ 53 * 1000000000"
    and "0 \<le> t1 + ttl" and "t1 + ttl < 2 ^ 53 * 1000000000"
  shows "\<exists>s. JWTManager_Generate jwt rt (NewJWTManager key) subject ttl w = (Inr s, w1)
    \<and> (\<forall>w2. t2 \<le> clock w2 \<and> clock w2 < t1 + ttl - (t1 + ttl) mod 1000000000 \<longrightarrow>
         (\<exists>claims w3. JWTManager_Validate jwt (NewJWTManager key) s w2 = (Inr claims, w3)
            \<and> Subject claims = subject))"
proof -
  from jwt_library.Generate_signs [OF assms(1-4)] obtain s where
    "JWTManager_Generate jwt rt (NewJWTManager key) subject ttl w = (Inr s, w1)" by blast
  with jwt_library.Validate_Generated [OF assms(1) _ assms(2-8)] show ?thesis by blast
qed

end
