(* ===== verification/HttpDto.thy ===== *)
theory HttpDto
  imports HttpResponse
begin

text \<open>
  Request and response bodies (\<^verbatim>\<open>internal/interfaces/http/dto.go\<close>) and the strict decoding of a
  request body (\<^verbatim>\<open>decodeJSON\<close> of \<^verbatim>\<open>handlers.go\<close>).
\<close>

subsection \<open>Requests\<close>

record createCompanyRequest =
  cr_ID :: "string option"
  cr_Name :: "string option"
  cr_Description :: "string option"
  cr_AmountOfEmployees :: "int option"
  cr_Registered :: "bool option"
  cr_Type :: "string option"

definition require :: "string \<Rightarrow> 'a option \<Rightarrow> fields \<Rightarrow> fields" where
  "require name v fs = (if v = None then set_field name ''is required'' fs else fs)"

definition create_toInput :: "uuid_lib \<Rightarrow> createCompanyRequest \<Rightarrow> goerr + create_input" where
  "create_toInput lib r =
     (let fs = require ''type'' (cr_Type r)
                     (require ''registered'' (cr_Registered r)
                       (require ''amount_of_employees'' (cr_AmountOfEmployees r)
                         (require ''name'' (cr_Name r) (require ''id'' (cr_ID r) []))))
      in case NewValidationError fs of
           Some err \<Rightarrow> Inl err
         | None \<Rightarrow>
             (case uuid_Parse lib (the (cr_ID r)) of
                Inl _ \<Rightarrow> Inl (ValidationError [(''id'', ''must be a valid uuid'')])
              | Inr i \<Rightarrow>
                  Inr \<lparr>i_ID = i, i_Name = the (cr_Name r),
                       i_Description = (case cr_Description r of None \<Rightarrow> '''' | Some d \<Rightarrow> d),
                       i_AmountOfEmployees = the (cr_AmountOfEmployees r),
                       i_Registered = the (cr_Registered r), i_Type = the (cr_Type r)\<rparr>))"

record patchCompanyRequest =
  pr_Name :: "string option"
  pr_Description :: "string option"
  pr_AmountOfEmployees :: "int option"
  pr_Registered :: "bool option"
  pr_Type :: "string option"

definition patch_toInput :: "patchCompanyRequest \<Rightarrow> goerr + patch_input" where
  "patch_toInput r =
     Inr \<lparr>pi_Name = pr_Name r, pi_Description = pr_Description r,
          pi_AmountOfEmployees = pr_AmountOfEmployees r, pi_Registered = pr_Registered r,
          pi_Type = pr_Type r\<rparr>"

subsection \<open>Responses\<close>

record companyResponse =
  re_ID :: string
  re_Name :: string
  re_Description :: string
  re_AmountOfEmployees :: int
  re_Registered :: bool
  re_Type :: string
  re_CreatedAt :: time
  re_UpdatedAt :: time

definition toCompanyResponse :: "uuid_lib \<Rightarrow> company \<Rightarrow> companyResponse" where
  "toCompanyResponse lib c =
     \<lparr>re_ID = uuid_String lib (ID c), re_Name = Name c, re_Description = Description c,
      re_AmountOfEmployees = AmountOfEmployees c, re_Registered = Registered c, re_Type = Type c,
      re_CreatedAt = CreatedAt c, re_UpdatedAt = UpdatedAt c\<rparr>"

definition encode_company :: "companyResponse \<Rightarrow> goerr + json" where
  "encode_company re =
     (case marshal_time (re_CreatedAt re) of
        Inl e \<Rightarrow> Inl e
      | Inr created \<Rightarrow>
          (case marshal_time (re_UpdatedAt re) of
             Inl e \<Rightarrow> Inl e
           | Inr updated \<Rightarrow> Inr (JObj
               [(''id'', JStr (ToValidUTF8 (re_ID re))),
                (''name'', JStr (ToValidUTF8 (re_Name re))),
                (''description'', JStr (ToValidUTF8 (re_Description re))),
                (''amount_of_employees'', JInt (re_AmountOfEmployees re)),
                (''registered'', JBool (re_Registered re)),
                (''type'', JStr (ToValidUTF8 (re_Type re))),
                (''created_at'', created), (''updated_at'', updated)])))"

subsection \<open>Decoding\<close>

text \<open>A pointer field: null is nil, any other value must be of the type pointed to.\<close>

fun dec_ptr :: "(json \<Rightarrow> 'a \<Rightarrow> goerr + 'a) \<Rightarrow> 'a \<Rightarrow> json \<Rightarrow> goerr + 'a option" where
  "dec_ptr dec zero JNull = Inr None"
| "dec_ptr dec zero j = map_sum id Some (dec j zero)"

definition unknown_field :: "string \<Rightarrow> goerr" where
  "unknown_field k = OtherError (''json: unknown field '' @ k)"

definition set_create_field ::
    "string \<times> json \<Rightarrow> createCompanyRequest \<Rightarrow> goerr + createCompanyRequest" where
  "set_create_field kv r =
     (case kv of (k, v) \<Rightarrow>
      if EqualFold k ''id'' then map_sum id (\<lambda>x. r\<lparr>cr_ID := x\<rparr>) (dec_ptr dec_string '''' v)
      else if EqualFold k ''name'' then map_sum id (\<lambda>x. r\<lparr>cr_Name := x\<rparr>) (dec_ptr dec_string '''' v)
      else if EqualFold k ''description''
      then map_sum id (\<lambda>x. r\<lparr>cr_Description := x\<rparr>) (dec_ptr dec_string '''' v)
      else if EqualFold k ''amount_of_employees''
      then map_sum id (\<lambda>x. r\<lparr>cr_AmountOfEmployees := x\<rparr>) (dec_ptr dec_int 0 v)
      else if EqualFold k ''registered''
      then map_sum id (\<lambda>x. r\<lparr>cr_Registered := x\<rparr>) (dec_ptr dec_bool False v)
      else if EqualFold k ''type'' then map_sum id (\<lambda>x. r\<lparr>cr_Type := x\<rparr>) (dec_ptr dec_string '''' v)
      else Inl (unknown_field k))"

definition set_patch_field ::
    "string \<times> json \<Rightarrow> patchCompanyRequest \<Rightarrow> goerr + patchCompanyRequest" where
  "set_patch_field kv r =
     (case kv of (k, v) \<Rightarrow>
      if EqualFold k ''name'' then map_sum id (\<lambda>x. r\<lparr>pr_Name := x\<rparr>) (dec_ptr dec_string '''' v)
      else if EqualFold k ''description''
      then map_sum id (\<lambda>x. r\<lparr>pr_Description := x\<rparr>) (dec_ptr dec_string '''' v)
      else if EqualFold k ''amount_of_employees''
      then map_sum id (\<lambda>x. r\<lparr>pr_AmountOfEmployees := x\<rparr>) (dec_ptr dec_int 0 v)
      else if EqualFold k ''registered''
      then map_sum id (\<lambda>x. r\<lparr>pr_Registered := x\<rparr>) (dec_ptr dec_bool False v)
      else if EqualFold k ''type'' then map_sum id (\<lambda>x. r\<lparr>pr_Type := x\<rparr>) (dec_ptr dec_string '''' v)
      else Inl (unknown_field k))"

definition zero_create :: createCompanyRequest where
  "zero_create = \<lparr>cr_ID = None, cr_Name = None, cr_Description = None,
     cr_AmountOfEmployees = None, cr_Registered = None, cr_Type = None\<rparr>"

definition zero_patch :: patchCompanyRequest where
  "zero_patch = \<lparr>pr_Name = None, pr_Description = None, pr_AmountOfEmployees = None,
     pr_Registered = None, pr_Type = None\<rparr>"

text \<open>Decoding a document into a struct: null leaves it as it is.\<close>

fun decode_struct :: "(string \<times> json \<Rightarrow> 'a \<Rightarrow> goerr + 'a) \<Rightarrow> json \<Rightarrow> 'a \<Rightarrow> goerr + 'a" where
  "decode_struct setter (JObj kvs) x = fill_struct setter kvs x"
| "decode_struct setter JNull x = Inr x"
| "decode_struct setter _ x = Inl type_error"

text \<open>
  \<^verbatim>\<open>decodeJSON\<close>: one document, decoded strictly, and then the end of the body.  The second
  \<^verbatim>\<open>Decode\<close> gives \<^verbatim>\<open>io.EOF\<close> at the end and anything else otherwise, whatever it decodes.
\<close>

definition second_decode :: "(goerr + json) list \<Rightarrow> goerr option" where
  "second_decode docs =
     (case docs of
        [] \<Rightarrow> Some EOF
      | Inl e # _ \<Rightarrow> Some e
      | Inr j # _ \<Rightarrow>
          (case decode_struct (\<lambda>(k, v) u. Inl (unknown_field k)) j () of
             Inl e \<Rightarrow> Some e | Inr _ \<Rightarrow> None))"

definition decodeJSON ::
    "(string \<times> json \<Rightarrow> 'a \<Rightarrow> goerr + 'a) \<Rightarrow> request \<Rightarrow> 'a \<Rightarrow> goerr + 'a" where
  "decodeJSON setter r target =
     (case r_Body r of
        None \<Rightarrow> Inl (OtherError ''missing body'')
      | Some docs \<Rightarrow>
          (case docs of
             [] \<Rightarrow> Inl EOF
           | Inl e # _ \<Rightarrow> Inl e
           | Inr j # rest \<Rightarrow>
               (case decode_struct setter j target of
                  Inl e \<Rightarrow> Inl e
                | Inr x \<Rightarrow>
                    (case second_decode rest of
                       Some e \<Rightarrow>
                         if errors_Is e EOF then Inr x
                         else Inl (OtherError ''body must contain a single JSON object'')
                     | None \<Rightarrow> Inl (OtherError ''body must contain a single JSON object'')))))"


subsection \<open>What the conversions and the decoder do\<close>

definition missing :: "createCompanyRequest \<Rightarrow> string \<Rightarrow> bool" where
  "missing r k \<longleftrightarrow> k = ''id'' \<and> cr_ID r = None \<or> k = ''name'' \<and> cr_Name r = None
     \<or> k = ''amount_of_employees'' \<and> cr_AmountOfEmployees r = None
     \<or> k = ''registered'' \<and> cr_Registered r = None \<or> k = ''type'' \<and> cr_Type r = None"

lemma map_of_require:
  "map_of (require name v fs) k = (if v = None \<and> k = name then Some ''is required'' else map_of fs k)"
  by (simp add: require_def)

lemma require_Nil [simp]: "require name v fs = [] \<longleftrightarrow> v \<noteq> None \<and> fs = []"
  by (simp add: require_def)

lemma create_toInput_Inl: "create_toInput lib r = Inl err \<Longrightarrow> \<exists>fs. err = ValidationError fs"
  by (auto simp: create_toInput_def Let_def split: option.splits sum.splits)

text \<open>
  The conversion of a create request.  It names exactly the required fields that are
  missing (the description is not required), each with its message; with none missing the id must
  parse as a UUID; and then the input has the fields of the request.
\<close>

theorem create_toInput_outcome:
  "case create_toInput lib r of
     Inl err \<Rightarrow> \<exists>fs. err = ValidationError fs \<and> fs \<noteq> [] \<and>
       (if \<exists>k. missing r k
        then \<forall>k. map_of fs k = (if missing r k then Some ''is required'' else None)
        else fs = [(''id'', ''must be a valid uuid'')]
          \<and> (\<exists>s e. cr_ID r = Some s \<and> uuid_Parse lib s = Inl e))
   | Inr input \<Rightarrow> (\<forall>k. \<not> missing r k)
       \<and> (\<exists>s. cr_ID r = Some s \<and> uuid_Parse lib s = Inr (i_ID input))
       \<and> cr_Name r = Some (i_Name input) \<and> cr_AmountOfEmployees r = Some (i_AmountOfEmployees input)
       \<and> cr_Registered r = Some (i_Registered input) \<and> cr_Type r = Some (i_Type input)
       \<and> i_Description input = (case cr_Description r of None \<Rightarrow> '''' | Some d \<Rightarrow> d)"
proof -
  define fs where "fs = require ''type'' (cr_Type r) (require ''registered'' (cr_Registered r)
    (require ''amount_of_employees'' (cr_AmountOfEmployees r)
      (require ''name'' (cr_Name r) (require ''id'' (cr_ID r) []))))"
  have map: "map_of fs k = (if missing r k then Some ''is required'' else None)" for k
    by (simp add: fs_def map_of_require missing_def)
  have none: "fs = [] \<longleftrightarrow> (\<forall>k. \<not> missing r k)"
  proof
    assume "fs = []"
    then have "(if missing r k then Some ''is required'' else None) = None" for k
      using map [of k] by simp
    then show "\<forall>k. \<not> missing r k" by (metis option.distinct(1))
  next
    assume "\<forall>k. \<not> missing r k"
    with map have "map_of fs = Map.empty" by (auto simp: fun_eq_iff)
    then show "fs = []" by (simp add: map_of_eq_empty_iff)
  qed
  show ?thesis
  proof (cases "fs = []")
    case False
    then have "create_toInput lib r = Inl (ValidationError fs)"
      by (simp add: create_toInput_def fs_def [symmetric] NewValidationError_def)
    with False map none show ?thesis by auto
  next
    case True
    then have present: "\<forall>k. \<not> missing r k" using none by simp
    then have "\<not> missing r ''id''" "\<not> missing r ''name''" "\<not> missing r ''amount_of_employees''"
      "\<not> missing r ''registered''" "\<not> missing r ''type''" by blast+
    then obtain i n a b t where vals: "cr_ID r = Some i" "cr_Name r = Some n"
      "cr_AmountOfEmployees r = Some a" "cr_Registered r = Some b" "cr_Type r = Some t"
      by (auto simp: missing_def)
    with True present show ?thesis
      by (cases "uuid_Parse lib i") (auto simp: create_toInput_def require_def)
  qed
qed


text \<open>A decoded document is an object, or null, all of whose keys are known.\<close>

lemma fill_struct_keys:
  assumes "fill_struct setter kvs x = Inr y" and "(k, v) \<in> set kvs"
    and "\<And>v x. \<not> known k \<Longrightarrow> \<exists>e. setter (k, v) x = Inl e"
  shows "known k"
  using assms
proof (induction kvs arbitrary: x)
  case (Cons kv kvs)
  from Cons.prems(1) obtain z where z: "setter kv x = Inr z" "fill_struct setter kvs z = Inr y"
    by (auto split: sum.splits)
  show ?case
  proof (rule ccontr)
    assume unknown: "\<not> known k"
    with Cons.prems(3) [of v x] z(1) have "kv \<noteq> (k, v)" by auto
    with Cons.prems(2) have "(k, v) \<in> set kvs" by auto
    from Cons.IH [OF z(2) this Cons.prems(3)] unknown show False by blast
  qed
qed simp

definition create_key :: "string \<Rightarrow> bool" where
  "create_key k \<longleftrightarrow> EqualFold k ''id'' \<or> EqualFold k ''name'' \<or> EqualFold k ''description''
     \<or> EqualFold k ''amount_of_employees'' \<or> EqualFold k ''registered'' \<or> EqualFold k ''type''"

definition patch_key :: "string \<Rightarrow> bool" where
  "patch_key k \<longleftrightarrow> EqualFold k ''name'' \<or> EqualFold k ''description''
     \<or> EqualFold k ''amount_of_employees'' \<or> EqualFold k ''registered'' \<or> EqualFold k ''type''"

lemma decodeJSON_Inr:
  "decodeJSON setter r x = Inr y \<longleftrightarrow>
     (\<exists>j rest. r_Body r = Some (Inr j # rest) \<and> decode_struct setter j x = Inr y
        \<and> (rest = [] \<or> (\<exists>e more. rest = Inl e # more \<and> errors_Is e EOF)))"
proof -
  have no_eof: "\<not> errors_Is e EOF"
    if "decode_struct (\<lambda>(k, v) u. Inl (unknown_field k)) j () = Inl e" for j e
  proof (cases j)
    case (JObj kvs)
    with that show ?thesis
      by (cases kvs) (auto simp: unknown_field_def split: prod.splits)
  qed (use that in \<open>auto simp: type_error_def\<close>)
  show ?thesis
    by (auto simp: decodeJSON_def second_decode_def dest: no_eof
        split: option.splits list.splits sum.splits if_splits)
qed

text \<open>
  What a create request's body must be to be accepted: a single JSON document, null or
  an object whose keys all name fields, up to case; anything after it but the end of the body is
  refused.
\<close>

theorem decode_create_strict:
  assumes "decodeJSON set_create_field r zero_create = Inr req"
  shows "\<exists>j rest. r_Body r = Some (Inr j # rest)
    \<and> (rest = [] \<or> (\<exists>e more. rest = Inl e # more \<and> errors_Is e EOF))
    \<and> (j = JNull \<and> req = zero_create \<or> (\<exists>kvs. j = JObj kvs \<and> (\<forall>kv\<in>set kvs. create_key (fst kv))))"
proof -
  from assms obtain j rest where j: "r_Body r = Some (Inr j # rest)"
    "decode_struct set_create_field j zero_create = Inr req"
    "rest = [] \<or> (\<exists>e more. rest = Inl e # more \<and> errors_Is e EOF)"
    by (auto simp: decodeJSON_Inr)
  have known: "create_key k" if "fill_struct set_create_field kvs x = Inr y" "(k, v) \<in> set kvs" for kvs k v x y
    using that by (rule fill_struct_keys) (simp add: create_key_def set_create_field_def)
  have "j = JNull \<and> req = zero_create \<or> (\<exists>kvs. j = JObj kvs \<and> (\<forall>kv\<in>set kvs. create_key (fst kv)))"
    using j(2) known by (cases j) auto
  with j show ?thesis by blast
qed

definition opt_field :: "string \<Rightarrow> ('a \<Rightarrow> json) \<Rightarrow> 'a option \<Rightarrow> (string \<times> json) list" where
  "opt_field k f v = (case v of None \<Rightarrow> [] | Some x \<Rightarrow> [(k, f x)])"

definition create_document :: "createCompanyRequest \<Rightarrow> json" where
  "create_document r = JObj
     (opt_field ''id'' JStr (cr_ID r) @ opt_field ''name'' JStr (cr_Name r)
      @ opt_field ''description'' JStr (cr_Description r)
      @ opt_field ''amount_of_employees'' JInt (cr_AmountOfEmployees r)
      @ opt_field ''registered'' JBool (cr_Registered r) @ opt_field ''type'' JStr (cr_Type r))"

lemma request_keys [simp]:
  "EqualFold ''name'' ''id'' = False"
  "EqualFold ''description'' ''id'' = False" "EqualFold ''description'' ''name'' = False"
  "EqualFold ''amount_of_employees'' ''id'' = False" "EqualFold ''amount_of_employees'' ''name'' = False"
  "EqualFold ''amount_of_employees'' ''description'' = False"
  "EqualFold ''registered'' ''id'' = False" "EqualFold ''registered'' ''name'' = False"
  "EqualFold ''registered'' ''description'' = False"
  "EqualFold ''registered'' ''amount_of_employees'' = False"
  "EqualFold ''type'' ''id'' = False" "EqualFold ''type'' ''name'' = False"
  "EqualFold ''type'' ''description'' = False" "EqualFold ''type'' ''amount_of_employees'' = False"
  "EqualFold ''type'' ''registered'' = False"
  by (simp_all add: EqualFold_def byte_def foldRune_def)

lemma fill_struct_append:
  "fill_struct setter (xs @ ys) a =
     (case fill_struct setter xs a of Inl e \<Rightarrow> Inl e | Inr b \<Rightarrow> fill_struct setter ys b)"
  by (induction xs arbitrary: a) (auto split: sum.split)

lemma fill_create_fields:
  "fill_struct set_create_field (opt_field ''id'' JStr s) r
     = Inr (case s of None \<Rightarrow> r | Some x \<Rightarrow> r\<lparr>cr_ID := Some x\<rparr>)"
  "fill_struct set_create_field (opt_field ''name'' JStr s) r
     = Inr (case s of None \<Rightarrow> r | Some x \<Rightarrow> r\<lparr>cr_Name := Some x\<rparr>)"
  "fill_struct set_create_field (opt_field ''description'' JStr s) r
     = Inr (case s of None \<Rightarrow> r | Some x \<Rightarrow> r\<lparr>cr_Description := Some x\<rparr>)"
  "(\<forall>x. n = Some x \<longrightarrow> is_go_int x) \<Longrightarrow>
   fill_struct set_create_field (opt_field ''amount_of_employees'' JInt n) r
     = Inr (case n of None \<Rightarrow> r | Some x \<Rightarrow> r\<lparr>cr_AmountOfEmployees := Some x\<rparr>)"
  "fill_struct set_create_field (opt_field ''registered'' JBool b) r
     = Inr (case b of None \<Rightarrow> r | Some x \<Rightarrow> r\<lparr>cr_Registered := Some x\<rparr>)"
  "fill_struct set_create_field (opt_field ''type'' JStr s) r
     = Inr (case s of None \<Rightarrow> r | Some x \<Rightarrow> r\<lparr>cr_Type := Some x\<rparr>)"
  by (simp_all add: opt_field_def set_create_field_def split: option.split)

lemma create_document_decodes:
  assumes "\<forall>n. cr_AmountOfEmployees req = Some n \<longrightarrow> is_go_int n"
    and "r_Body r = Some [Inr (create_document req)]"
  shows "decodeJSON set_create_field r zero_create = Inr req"
proof -
  have "decode_struct set_create_field (create_document req) zero_create = Inr req"
    using assms(1) by (cases req)
      (auto simp: create_document_def fill_struct_append fill_create_fields zero_create_def
        split: option.split)
  with assms(2) show ?thesis by (auto simp: decodeJSON_Inr)
qed

text \<open>
  A create request written out as a JSON object, its missing fields left out, decodes
  to the request (numbers within the range of a Go int).
\<close>

theorem decode_create_roundtrip:
  assumes "\<forall>n. cr_AmountOfEmployees req = Some n \<longrightarrow> is_go_int n"
    and "r_Body r = Some [Inr (create_document req)]"
  shows "decodeJSON set_create_field r zero_create = Inr req"
  using assms by (rule create_document_decodes)

subsection \<open>Example requests\<close>

definition acme_request :: createCompanyRequest where
  "acme_request = \<lparr>cr_ID = Some ''x'', cr_Name = Some ''Acme'', cr_Description = None,
     cr_AmountOfEmployees = Some 10, cr_Registered = Some True, cr_Type = Some ''Corporations''\<rparr>"

definition acme_http :: request where
  "acme_http = \<lparr>r_Method = ''POST'', r_Path = ''/companies'', r_Authorization = ''Bearer x'',
     r_Body = Some [Inr (create_document acme_request)], r_Params = []\<rparr>"

lemma acme_range: "\<forall>n. cr_AmountOfEmployees acme_request = Some n \<longrightarrow> is_go_int n"
  by (simp add: acme_request_def is_go_int_def int_min_def int_max_def)

lemma acme_body: "r_Body acme_http = Some [Inr (create_document acme_request)]"
  by (simp add: acme_http_def)

theorem decode_create_roundtrip_witness:
  "decodeJSON set_create_field acme_http zero_create = Inr acme_request"
  by (rule decode_create_roundtrip [OF acme_range acme_body])

definition empty_http :: request where
  "empty_http = acme_http\<lparr>r_Body := Some [Inr JNull]\<rparr>"

theorem decode_create_strict_witness:
  "\<exists>j rest. r_Body empty_http = Some (Inr j # rest)
    \<and> (rest = [] \<or> (\<exists>e more. rest = Inl e # more \<and> errors_Is e EOF))
    \<and> (j = JNull \<and> zero_create = zero_create
       \<or> (\<exists>kvs. j = JObj kvs \<and> (\<forall>kv\<in>set kvs. create_key (fst kv))))"
  by (rule decode_create_strict) (simp add: decodeJSON_Inr empty_http_def)

end
