(* ===== verification/Sql.thy ===== *)
theory Sql
  imports Json
begin

text \<open>
  The SQL the service sends and the tables it sends it to.

  The first part is the statements, as the repositories build them with squirrel: table, columns,
  bound values, conditions.  The second part is the two tables as the migrations
  (\<^verbatim>\<open>migrations/*.up.sql\<close>) declare them.  The third part gives the statements their meaning on tables
  with these declarations: defaults, types, NOT NULL, CHECK and UNIQUE constraints, row counts,
  ORDER BY and LIMIT, for one statement at a time.
\<close>

subsection \<open>Statements\<close>

datatype sqlval =
    VNull
  | VUuid uuid
  | VText string
  | VInt int
  | VBool bool
  | VTime time
  | VJson json
      \<comment> \<open>the bytes of a marshalled JSON document\<close>

datatype sqlexpr =
    Bind sqlval
  | NowExpr
      \<comment> \<open>\<^verbatim>\<open>now()\<close>\<close>
  | NowPlusSeconds int
      \<comment> \<open>\<^verbatim>\<open>now() + interval '<n> seconds'\<close>\<close>
  | ColumnPlus string int
      \<comment> \<open>\<^verbatim>\<open><column> + <n>\<close>\<close>

datatype sqlcond =
    Eq string sqlval
      \<comment> \<open>\<^verbatim>\<open>sq.Eq{column: value}\<close>\<close>
  | IsNull string
      \<comment> \<open>\<^verbatim>\<open><column> IS NULL\<close>\<close>
  | LeNow string
      \<comment> \<open>\<^verbatim>\<open><column> <= now()\<close>\<close>

datatype stmt =
    Insert string "string list" "sqlval list"
      \<comment> \<open>table, columns, values\<close>
  | UpdateSet string "(string \<times> sqlexpr) list" "sqlcond list"
      \<comment> \<open>table, assignments, conditions\<close>
  | DeleteFrom string "sqlcond list"
  | Select "string list" string "sqlcond list" "string option" "nat option" string
      \<comment> \<open>columns, table, conditions, ORDER BY ... ASC, LIMIT, suffix\<close>

subsection \<open>Tables\<close>

datatype coltype = UuidType | TextType | IntegerType | BooleanType | TimestamptzType | JsonbType

record column =
  col_name :: string
  col_type :: coltype
  not_null :: bool
  col_default :: "sqlexpr option"

datatype check =
    CharLengthLe string nat
      \<comment> \<open>\<^verbatim>\<open>char_length(column) <= n\<close>\<close>
  | NotNegative string
      \<comment> \<open>\<^verbatim>\<open>column >= 0\<close>\<close>
  | InTexts string "string list"
      \<comment> \<open>\<^verbatim>\<open>column IN (...)\<close>\<close>

record table =
  table_name :: string
  columns :: "column list"
  unique_keys :: "(string \<times> string) list"
    \<comment> \<open>constraint name and column, in the order of creation, the primary key first\<close>
  checks :: "(string \<times> check) list"
    \<comment> \<open>constraint name and condition\<close>

definition companies_table :: table where
  "companies_table =
     \<lparr>table_name = ''companies'',
      columns =
        [\<lparr>col_name = ''id'', col_type = UuidType, not_null = True, col_default = None\<rparr>,
         \<lparr>col_name = ''name'', col_type = TextType, not_null = True, col_default = None\<rparr>,
         \<lparr>col_name = ''description'', col_type = TextType, not_null = True,
          col_default = Some (Bind (VText ''''))\<rparr>,
         \<lparr>col_name = ''amount_of_employees'', col_type = IntegerType, not_null = True,
          col_default = None\<rparr>,
         \<lparr>col_name = ''registered'', col_type = BooleanType, not_null = True, col_default = None\<rparr>,
         \<lparr>col_name = ''type'', col_type = TextType, not_null = True, col_default = None\<rparr>,
         \<lparr>col_name = ''created_at'', col_type = TimestamptzType, not_null = True,
          col_default = Some NowExpr\<rparr>,
         \<lparr>col_name = ''updated_at'', col_type = TimestamptzType, not_null = True,
          col_default = Some NowExpr\<rparr>],
      unique_keys = [(''companies_pkey'', ''id''), (''companies_name_key'', ''name'')],
      checks =
        [(''companies_name_check'', CharLengthLe ''name'' 15),
         (''companies_description_check'', CharLengthLe ''description'' 3000),
         (''companies_amount_of_employees_check'', NotNegative ''amount_of_employees''),
         (''companies_type_check'', InTexts ''type''
            [''Corporations'', ''NonProfit'', ''Cooperative'', ''Sole Proprietorship''])]\<rparr>"

definition outbox_events_table :: table where
  "outbox_events_table =
     \<lparr>table_name = ''outbox_events'',
      columns =
        [\<lparr>col_name = ''id'', col_type = UuidType, not_null = True, col_default = None\<rparr>,
         \<lparr>col_name = ''event_type'', col_type = TextType, not_null = True, col_default = None\<rparr>,
         \<lparr>col_name = ''aggregate_id'', col_type = UuidType, not_null = True, col_default = None\<rparr>,
         \<lparr>col_name = ''payload'', col_type = JsonbType, not_null = True, col_default = None\<rparr>,
         \<lparr>col_name = ''attempts'', col_type = IntegerType, not_null = True,
          col_default = Some (Bind (VInt 0))\<rparr>,
         \<lparr>col_name = ''last_error'', col_type = TextType, not_null = False, col_default = None\<rparr>,
         \<lparr>col_name = ''available_at'', col_type = TimestamptzType, not_null = True,
          col_default = Some NowExpr\<rparr>,
         \<lparr>col_name = ''published_at'', col_type = TimestamptzType, not_null = False,
          col_default = None\<rparr>,
         \<lparr>col_name = ''created_at'', col_type = TimestamptzType, not_null = True,
          col_default = Some NowExpr\<rparr>],
      unique_keys = [(''outbox_events_pkey'', ''id'')],
      checks = [(''outbox_events_attempts_check'', NotNegative ''attempts'')]\<rparr>"

type_synonym row = "(string \<times> sqlval) list"

record database =
  companies :: "row list"
  outbox_events :: "row list"

definition table_of :: "string \<Rightarrow> table option" where
  "table_of name =
     (if name = ''companies'' then Some companies_table
      else if name = ''outbox_events'' then Some outbox_events_table else None)"

definition rows_of :: "string \<Rightarrow> database \<Rightarrow> row list" where
  "rows_of name db = (if name = ''companies'' then companies db else outbox_events db)"

definition set_rows :: "string \<Rightarrow> row list \<Rightarrow> database \<Rightarrow> database" where
  "set_rows name rs db =
     (if name = ''companies'' then db\<lparr>companies := rs\<rparr> else db\<lparr>outbox_events := rs\<rparr>)"

subsection \<open>Values and columns\<close>

definition col :: "row \<Rightarrow> string \<Rightarrow> sqlval" where
  "col r c = (case map_of r c of None \<Rightarrow> VNull | Some v \<Rightarrow> v)"

text \<open>A text value the server can hold: valid UTF-8 with no NUL.\<close>

definition text_ok :: "string \<Rightarrow> bool" where
  "text_ok s \<longleftrightarrow> ValidString s \<and> CHR 0x00 \<notin> set s"

fun json_storable :: "json \<Rightarrow> bool" where
  "json_storable (JStr s) = (CHR 0x00 \<notin> set s)"
| "json_storable (JArr js) = list_all json_storable js"
| "json_storable (JObj kvs) =
     list_all (\<lambda>kv. CHR 0x00 \<notin> set (fst kv) \<and> json_storable (snd kv)) kvs"
| "json_storable _ = True"

text \<open>
  Sending a value for a column: text must be storable (error class 22), an \<^verbatim>\<open>integer\<close> column holds 32
  bits (pgx refuses a larger value before it sends anything), a \<^verbatim>\<open>timestamptz\<close> holds microseconds,
  \<^verbatim>\<open>jsonb\<close> holds no NUL.
\<close>

definition int4_ok :: "int \<Rightarrow> bool" where
  "int4_ok n \<longleftrightarrow> - (2 ^ 31) \<le> n \<and> n < 2 ^ 31"

definition micros :: "time \<Rightarrow> time" where
  "micros t = t div 1000 * 1000"

fun encode :: "coltype \<Rightarrow> sqlval \<Rightarrow> goerr + sqlval" where
  "encode ty VNull = Inr VNull"
| "encode UuidType (VUuid u) = Inr (VUuid u)"
| "encode TextType (VText s) =
     (if text_ok s then Inr (VText s)
      else Inl (PgError ''22021'' '''' ''invalid byte sequence for encoding UTF8''))"
| "encode IntegerType (VInt n) =
     (if int4_ok n then Inr (VInt n)
      else Inl (OtherError ''unable to encode value into binary format for int4''))"
| "encode BooleanType (VBool b) = Inr (VBool b)"
| "encode TimestamptzType (VTime t) = Inr (VTime (micros t))"
| "encode JsonbType (VJson j) =
     (if json_storable j then Inr (VJson j)
      else Inl (PgError ''22P05'' '''' ''unsupported Unicode escape sequence''))"
| "encode _ _ = Inl (OtherError ''cannot convert value to the type of the column'')"

fun eval_expr :: "time \<Rightarrow> row \<Rightarrow> sqlexpr \<Rightarrow> goerr + sqlval" where
  "eval_expr now r (Bind v) = Inr v"
| "eval_expr now r NowExpr = Inr (VTime now)"
| "eval_expr now r (NowPlusSeconds n) = Inr (VTime (now + n * 1000000000))"
| "eval_expr now r (ColumnPlus c n) =
     (case col r c of
        VInt m \<Rightarrow>
          if int4_ok (m + n) then Inr (VInt (m + n))
          else Inl (PgError ''22003'' '''' ''integer out of range'')
      | _ \<Rightarrow> Inr VNull)"

fun check_holds :: "row \<Rightarrow> check \<Rightarrow> bool" where
  "check_holds r (CharLengthLe c n) =
     (case col r c of VText s \<Rightarrow> RuneCountInString s \<le> n | _ \<Rightarrow> True)"
| "check_holds r (NotNegative c) = (case col r c of VInt m \<Rightarrow> 0 \<le> m | _ \<Rightarrow> True)"
| "check_holds r (InTexts c ts) = (case col r c of VText s \<Rightarrow> s \<in> set ts | _ \<Rightarrow> True)"

subsection \<open>Constraints\<close>

definition null_violation :: "table \<Rightarrow> row \<Rightarrow> goerr option" where
  "null_violation t r =
     (case filter (\<lambda>c. not_null c \<and> col r (col_name c) = VNull) (columns t) of
        [] \<Rightarrow> None
      | c # _ \<Rightarrow> Some (PgError ''23502'' '''' ''null value violates not-null constraint''))"

definition check_violation :: "table \<Rightarrow> row \<Rightarrow> goerr option" where
  "check_violation t r =
     (case filter (\<lambda>nc. \<not> check_holds r (snd nc)) (checks t) of
        [] \<Rightarrow> None
      | nc # _ \<Rightarrow> Some (PgError ''23514'' (fst nc) ''new row violates check constraint''))"

definition unique_violation :: "table \<Rightarrow> row list \<Rightarrow> row \<Rightarrow> goerr option" where
  "unique_violation t others r =
     (case filter (\<lambda>nc. list_ex (\<lambda>o'. col o' (snd nc) = col r (snd nc)) others) (unique_keys t) of
        [] \<Rightarrow> None
      | nc # _ \<Rightarrow>
          Some (PgError ''23505'' (fst nc) ''duplicate key value violates unique constraint''))"

text \<open>NOT NULL and CHECK are tested before the row enters the unique indexes.\<close>

definition row_violation :: "table \<Rightarrow> row list \<Rightarrow> row \<Rightarrow> goerr option" where
  "row_violation t others r =
     (case null_violation t r of
        Some e \<Rightarrow> Some e
      | None \<Rightarrow>
          (case check_violation t r of
             Some e \<Rightarrow> Some e
           | None \<Rightarrow> unique_violation t others r))"

subsection \<open>Executing a statement\<close>

text \<open>The row an INSERT makes: a bound value, the column's default, or NULL, column by column.\<close>

fun build_row :: "time \<Rightarrow> column list \<Rightarrow> row \<Rightarrow> goerr + row" where
  "build_row now [] given = Inr []"
| "build_row now (c # cs) given =
     (case (case map_of given (col_name c) of
              Some v \<Rightarrow> encode (col_type c) v
            | None \<Rightarrow>
                (case col_default c of
                   None \<Rightarrow> Inr VNull
                 | Some ex \<Rightarrow>
                     (case eval_expr now [] ex of Inl e \<Rightarrow> Inl e | Inr v \<Rightarrow> encode (col_type c) v))) of
        Inl e \<Rightarrow> Inl e
      | Inr v \<Rightarrow>
          (case build_row now cs given of Inl e \<Rightarrow> Inl e | Inr r \<Rightarrow> Inr ((col_name c, v) # r)))"

definition column_type :: "table \<Rightarrow> string \<Rightarrow> coltype" where
  "column_type t c =
     (case filter (\<lambda>d. col_name d = c) (columns t) of [] \<Rightarrow> TextType | d # _ \<Rightarrow> col_type d)"

fun assign :: "time \<Rightarrow> table \<Rightarrow> row \<Rightarrow> (string \<times> sqlexpr) list \<Rightarrow> row \<Rightarrow> goerr + row" where
  "assign now t old [] r = Inr r"
| "assign now t old ((c, ex) # sets) r =
     (case eval_expr now old ex of
        Inl e \<Rightarrow> Inl e
      | Inr v \<Rightarrow>
          (case encode (column_type t c) v of
             Inl e \<Rightarrow> Inl e
           | Inr v' \<Rightarrow> assign now t old sets (AList.update c v' r)))"

text \<open>The bound values of a statement are sent before any row is looked at.\<close>

fun bind_sets :: "table \<Rightarrow> (string \<times> sqlexpr) list \<Rightarrow> goerr + (string \<times> sqlexpr) list" where
  "bind_sets t [] = Inr []"
| "bind_sets t ((c, Bind v) # sets) =
     (case encode (column_type t c) v of
        Inl e \<Rightarrow> Inl e
      | Inr v' \<Rightarrow>
          (case bind_sets t sets of Inl e \<Rightarrow> Inl e | Inr sets' \<Rightarrow> Inr ((c, Bind v') # sets')))"
| "bind_sets t (cx # sets) =
     (case bind_sets t sets of Inl e \<Rightarrow> Inl e | Inr sets' \<Rightarrow> Inr (cx # sets'))"

fun bind_conds :: "table \<Rightarrow> sqlcond list \<Rightarrow> goerr + sqlcond list" where
  "bind_conds t [] = Inr []"
| "bind_conds t (Eq c v # cs) =
     (case encode (column_type t c) v of
        Inl e \<Rightarrow> Inl e
      | Inr v' \<Rightarrow> (case bind_conds t cs of Inl e \<Rightarrow> Inl e | Inr cs' \<Rightarrow> Inr (Eq c v' # cs')))"
| "bind_conds t (c # cs) =
     (case bind_conds t cs of Inl e \<Rightarrow> Inl e | Inr cs' \<Rightarrow> Inr (c # cs'))"

fun cond_holds :: "time \<Rightarrow> row \<Rightarrow> sqlcond \<Rightarrow> bool" where
  "cond_holds now r (Eq c v) = (v \<noteq> VNull \<and> col r c = v)"
| "cond_holds now r (IsNull c) = (col r c = VNull)"
| "cond_holds now r (LeNow c) = (case col r c of VTime t \<Rightarrow> t \<le> now | _ \<Rightarrow> False)"

definition matches :: "time \<Rightarrow> sqlcond list \<Rightarrow> row \<Rightarrow> bool" where
  "matches now cs r = list_all (cond_holds now r) cs"

text \<open>
  UPDATE works through the rows; a changed row must satisfy the constraints against the rows
  around it, those before it already changed.
\<close>

fun update_rows ::
    "time \<Rightarrow> table \<Rightarrow> (string \<times> sqlexpr) list \<Rightarrow> sqlcond list \<Rightarrow> row list \<Rightarrow> row list
     \<Rightarrow> goerr + row list \<times> nat" where
  "update_rows now t sets cs earlier [] = Inr (earlier, 0)"
| "update_rows now t sets cs earlier (r # rs) =
     (if matches now cs r then
        (case assign now t r sets r of
           Inl e \<Rightarrow> Inl e
         | Inr r' \<Rightarrow>
             (case row_violation t (earlier @ rs) r' of
                Some e \<Rightarrow> Inl e
              | None \<Rightarrow>
                  (case update_rows now t sets cs (earlier @ [r']) rs of
                     Inl e \<Rightarrow> Inl e | Inr (rs', n) \<Rightarrow> Inr (rs', Suc n))))
      else update_rows now t sets cs (earlier @ [r]) rs)"

definition time_key :: "string \<Rightarrow> row \<Rightarrow> time" where
  "time_key c r = (case col r c of VTime t \<Rightarrow> t | _ \<Rightarrow> 0)"

definition selected ::
    "time \<Rightarrow> sqlcond list \<Rightarrow> string option \<Rightarrow> nat option \<Rightarrow> row list \<Rightarrow> row list" where
  "selected now cs order limit rs =
     (let found = filter (matches now cs) rs;
          sorted = (case order of None \<Rightarrow> found | Some c \<Rightarrow> sort_key (time_key c) found)
      in case limit of None \<Rightarrow> sorted | Some n \<Rightarrow> take n sorted)"

text \<open>
  The outcome of a statement at time \<open>now\<close>: an error, or the rows it returns, the number of rows it
  affected and the new state of the tables.
\<close>

definition no_table :: goerr where
  "no_table = PgError ''42P01'' '''' ''relation does not exist''"

fun sql_exec :: "time \<Rightarrow> stmt \<Rightarrow> database \<Rightarrow> goerr + sqlval list list \<times> nat \<times> database" where
  "sql_exec now (Insert name cols vals) db =
     (case table_of name of
        None \<Rightarrow> Inl no_table
      | Some t \<Rightarrow>
          (case build_row now (columns t) (zip cols vals) of
             Inl e \<Rightarrow> Inl e
           | Inr r \<Rightarrow>
               (case row_violation t (rows_of name db) r of
                  Some e \<Rightarrow> Inl e
                | None \<Rightarrow> Inr ([], 1, set_rows name (rows_of name db @ [r]) db))))"
| "sql_exec now (UpdateSet name sets conds) db =
     (case table_of name of
        None \<Rightarrow> Inl no_table
      | Some t \<Rightarrow>
          (case bind_sets t sets of
             Inl e \<Rightarrow> Inl e
           | Inr sets' \<Rightarrow>
               (case bind_conds t conds of
                  Inl e \<Rightarrow> Inl e
                | Inr cs \<Rightarrow>
                    (case update_rows now t sets' cs [] (rows_of name db) of
                       Inl e \<Rightarrow> Inl e
                     | Inr (rs, n) \<Rightarrow> Inr ([], n, set_rows name rs db)))))"
| "sql_exec now (DeleteFrom name conds) db =
     (case table_of name of
        None \<Rightarrow> Inl no_table
      | Some t \<Rightarrow>
          (case bind_conds t conds of
             Inl e \<Rightarrow> Inl e
           | Inr cs \<Rightarrow>
               (let rs = rows_of name db in
                Inr ([], length (filter (matches now cs) rs),
                     set_rows name (filter (\<lambda>r. \<not> matches now cs r) rs) db))))"
| "sql_exec now (Select cols name conds order limit suffix) db =
     (case table_of name of
        None \<Rightarrow> Inl no_table
      | Some t \<Rightarrow>
          (case bind_conds t conds of
             Inl e \<Rightarrow> Inl e
           | Inr cs \<Rightarrow>
               Inr (map (\<lambda>r. map (col r) cols) (selected now cs order limit (rows_of name db)),
                    0, db)))"

end
