(* ===== verification/Postgres.thy ===== *)
theory Postgres
  imports Sql
begin

text \<open>
  The postgres package (\<^verbatim>\<open>internal/infrastructure/postgres\<close>): transactions
  (\<^verbatim>\<open>transaction.go\<close>), the company repository (\<^verbatim>\<open>company_repository.go\<close>) and the outbox repository
  (\<^verbatim>\<open>outbox_repository.go\<close>).

  The libraries below it are a parameter: a record of what squirrel (\<^verbatim>\<open>ToSql\<close>) and pgx (a pool and
  its transactions) do to the world.  The methods are translated over that record; what they make
  of a real server's answers is proved in the theory of the server.
\<close>

subsection \<open>The driver\<close>

datatype executor = PoolExecutor | TxExecutor tx_handle

text \<open>
  \<^verbatim>\<open>Query\<close> returns the rows and what \<^verbatim>\<open>rows.Err()\<close> says after the last one; \<^verbatim>\<open>QueryRow\<close> is taken
  together with the \<^verbatim>\<open>Scan\<close> of its row, which reports \<^verbatim>\<open>ErrNoRows\<close> and every late error.
\<close>

record 'w driver =
  ToSql :: "stmt \<Rightarrow> goerr option"
  Exec :: "executor \<Rightarrow> stmt \<Rightarrow> ('w, goerr, nat) io"
  Query :: "executor \<Rightarrow> stmt \<Rightarrow> ('w, goerr, sqlval list list \<times> goerr option) io"
  QueryRow :: "executor \<Rightarrow> stmt \<Rightarrow> ('w, goerr, sqlval list) io"
  Begin :: "('w, goerr, tx_handle) io"
  Commit :: "tx_handle \<Rightarrow> ('w, goerr) cmd"
  Rollback :: "tx_handle \<Rightarrow> ('w, goerr) cmd"

subsection \<open>Transactions\<close>

definition txFromContext :: "ctx \<Rightarrow> tx_handle option" where
  "txFromContext ctx = txContextKey ctx"

definition executorFromContext :: "ctx \<Rightarrow> executor" where
  "executorFromContext ctx =
     (case txFromContext ctx of Some tx \<Rightarrow> TxExecutor tx | None \<Rightarrow> PoolExecutor)"

definition TransactionManager_WithinTransaction ::
    "'w driver \<Rightarrow> ctx \<Rightarrow> (ctx \<Rightarrow> ('w, goerr, 'a) io) \<Rightarrow> ('w, goerr, 'a) io" where
  "TransactionManager_WithinTransaction pg ctx fn w =
     (if txFromContext ctx \<noteq> None then fn ctx w
      else
        try_io (Begin pg) (\<lambda>e. Inl (wrap ''begin transaction'' e))
          (\<lambda>tx w.
            case fn (ctx\<lparr>txContextKey := Some tx\<rparr>) w of
              (Inl err, w) \<Rightarrow>
                try_cmd (Rollback pg tx)
                  (\<lambda>rollbackErr.
                    Inl (Errorf ''rollback transaction after '' err ('': '' @ error_text rollbackErr)))
                  (\<lambda>w. (Inl err, w)) w
            | (Inr result, w) \<Rightarrow>
                try_cmd (Commit pg tx) (\<lambda>e. Inl (wrap ''commit transaction'' e))
                  (\<lambda>w. (Inr result, w)) w) w)"

definition NewTransactionManager :: "'w driver \<Rightarrow> ('w, 'a) TransactionRunner" where
  "NewTransactionManager pg = \<lparr>WithinTransaction = TransactionManager_WithinTransaction pg\<rparr>"

subsection \<open>The company repository\<close>

definition uniqueViolationCode :: string where
  "uniqueViolationCode = ''23505''"

definition companyPrimaryKeyConstraint :: string where
  "companyPrimaryKeyConstraint = ''companies_pkey''"

definition companyNameUniqueConstraint :: string where
  "companyNameUniqueConstraint = ''companies_name_key''"

lemmas constraint_defs [go_defs] =
  uniqueViolationCode_def companyPrimaryKeyConstraint_def companyNameUniqueConstraint_def

definition mapPostgresError :: "goerr \<Rightarrow> goerr" where
  "mapPostgresError err =
     (case errors_As_PgError err of
        Some (code, constraint) \<Rightarrow>
          if code = uniqueViolationCode then
            (if constraint = companyPrimaryKeyConstraint
             then wrap ''map postgres error'' ErrDuplicateID
             else if constraint = companyNameUniqueConstraint
             then wrap ''map postgres error'' ErrDuplicateName
             else wrap ''map postgres error'' err)
          else wrap ''map postgres error'' err
      | None \<Rightarrow> wrap ''map postgres error'' err)"

text \<open>Executing a built statement, or the error of building it.\<close>

definition with_sql :: "'w driver \<Rightarrow> stmt \<Rightarrow> (goerr \<Rightarrow> 'b) \<Rightarrow> (stmt \<Rightarrow> 'w \<Rightarrow> 'b \<times> 'w) \<Rightarrow> 'w \<Rightarrow> 'b \<times> 'w" where
  [io_simps]: "with_sql pg st h k w = (case ToSql pg st of Some e \<Rightarrow> (h e, w) | None \<Rightarrow> k st w)"

definition company_insert :: "company \<Rightarrow> stmt" where
  "company_insert c =
     Insert ''companies''
       [''id'', ''name'', ''description'', ''amount_of_employees'', ''registered'', ''type'',
        ''created_at'', ''updated_at'']
       [VUuid (ID c), VText (Name c), VText (Description c), VInt (AmountOfEmployees c),
        VBool (Registered c), VText (Type c), VTime (CreatedAt c), VTime (UpdatedAt c)]"

definition CompanyRepository_Create :: "'w driver \<Rightarrow> ctx \<Rightarrow> company \<Rightarrow> ('w, goerr) cmd" where
  "CompanyRepository_Create pg ctx c =
     with_sql pg (company_insert c) (\<lambda>e. Some (wrap ''build create company query'' e))
       (\<lambda>query. try_io (Exec pg (executorFromContext ctx) query)
          (\<lambda>e. Some (wrap ''create company'' (mapPostgresError e)))
          (\<lambda>_ w. (None, w)))"

definition company_update :: "company \<Rightarrow> stmt" where
  "company_update c =
     UpdateSet ''companies''
       [(''name'', Bind (VText (Name c))),
        (''description'', Bind (VText (Description c))),
        (''amount_of_employees'', Bind (VInt (AmountOfEmployees c))),
        (''registered'', Bind (VBool (Registered c))),
        (''type'', Bind (VText (Type c))),
        (''updated_at'', Bind (VTime (UpdatedAt c)))]
       [Eq ''id'' (VUuid (ID c))]"

definition CompanyRepository_Update :: "'w driver \<Rightarrow> ctx \<Rightarrow> company \<Rightarrow> ('w, goerr) cmd" where
  "CompanyRepository_Update pg ctx c =
     with_sql pg (company_update c) (\<lambda>e. Some (wrap ''build update company query'' e))
       (\<lambda>query. try_io (Exec pg (executorFromContext ctx) query)
          (\<lambda>e. Some (wrap ''update company'' (mapPostgresError e)))
          (\<lambda>affected w.
            if affected = 0 then (Some (wrap ''update company'' ErrNotFound), w) else (None, w)))"

definition company_delete :: "uuid \<Rightarrow> stmt" where
  "company_delete i = DeleteFrom ''companies'' [Eq ''id'' (VUuid i)]"

definition CompanyRepository_Delete :: "'w driver \<Rightarrow> ctx \<Rightarrow> uuid \<Rightarrow> ('w, goerr) cmd" where
  "CompanyRepository_Delete pg ctx i =
     with_sql pg (company_delete i) (\<lambda>e. Some (wrap ''build delete company query'' e))
       (\<lambda>query. try_io (Exec pg (executorFromContext ctx) query)
          (\<lambda>e. Some (wrap ''delete company'' (mapPostgresError e)))
          (\<lambda>affected w.
            if affected = 0 then (Some (wrap ''delete company'' ErrNotFound), w) else (None, w)))"

definition selectCompany :: "sqlcond list \<Rightarrow> stmt" where
  "selectCompany conds =
     Select
       [''id'', ''name'', ''description'', ''amount_of_employees'', ''registered'', ''type'',
        ''created_at'', ''updated_at''] ''companies'' conds None None ''''"

definition scan_error :: goerr where
  "scan_error = OtherError ''can't scan into dest''"

definition scanCompany :: "goerr + sqlval list \<Rightarrow> goerr + company" where
  "scanCompany row =
     (case row of
        Inl err \<Rightarrow>
          if errors_Is err ErrNoRows then Inl (wrap ''scan company'' ErrNotFound)
          else Inl (wrap ''scan company'' err)
      | Inr vals \<Rightarrow>
          (case vals of
             [VUuid i, VText n, VText d, VInt a, VBool r, VText t, VTime createdAt, VTime updatedAt] \<Rightarrow>
               Inr \<lparr>ID = i, Name = n, Description = d, AmountOfEmployees = a, Registered = r,
                    Type = t, CreatedAt = createdAt, UpdatedAt = updatedAt\<rparr>
           | _ \<Rightarrow> Inl (wrap ''scan company'' scan_error)))"

definition CompanyRepository_GetByID :: "'w driver \<Rightarrow> ctx \<Rightarrow> uuid \<Rightarrow> ('w, goerr, company) io" where
  "CompanyRepository_GetByID pg ctx i =
     with_sql pg (selectCompany [Eq ''id'' (VUuid i)])
       (\<lambda>e. Inl (wrap ''build get company by id query'' e))
       (\<lambda>query w.
         case QueryRow pg (executorFromContext ctx) query w of
           (row, w') \<Rightarrow>
             (case scanCompany row of
                Inl err \<Rightarrow> (Inl (wrap ''get company by id'' err), w')
              | Inr c \<Rightarrow> (Inr c, w')))"

definition CompanyRepository_GetByName :: "'w driver \<Rightarrow> ctx \<Rightarrow> string \<Rightarrow> ('w, goerr, company) io" where
  "CompanyRepository_GetByName pg ctx name =
     with_sql pg (selectCompany [Eq ''name'' (VText name)])
       (\<lambda>e. Inl (wrap ''build get company by name query'' e))
       (\<lambda>query w.
         case QueryRow pg (executorFromContext ctx) query w of
           (row, w') \<Rightarrow>
             (case scanCompany row of
                Inl err \<Rightarrow> (Inl (wrap ''get company by name'' err), w')
              | Inr c \<Rightarrow> (Inr c, w')))"

definition NewCompanyRepository :: "'w driver \<Rightarrow> 'w Repository" where
  "NewCompanyRepository pg =
     \<lparr>Create = CompanyRepository_Create pg, Update = CompanyRepository_Update pg,
      Delete = CompanyRepository_Delete pg, GetByID = CompanyRepository_GetByID pg,
      GetByName = CompanyRepository_GetByName pg\<rparr>"

subsection \<open>The outbox repository\<close>

definition outbox_insert :: "event \<Rightarrow> json \<Rightarrow> stmt" where
  "outbox_insert ev payload =
     Insert ''outbox_events''
       [''id'', ''event_type'', ''aggregate_id'', ''payload'', ''created_at'']
       [VUuid (e_ID ev), VText (e_Type ev), VUuid (CompanyID ev), VJson payload,
        VTime (OccurredAt ev)]"

definition OutboxRepository_Store :: "uuid_lib \<Rightarrow> 'w driver \<Rightarrow> ctx \<Rightarrow> event \<Rightarrow> ('w, goerr) cmd" where
  "OutboxRepository_Store lib pg ctx ev w =
     (case marshal_event lib ev of
        Inl e \<Rightarrow> (Some (wrap ''marshal outbox event'' e), w)
      | Inr payload \<Rightarrow>
          with_sql pg (outbox_insert ev payload)
            (\<lambda>e. Some (wrap ''build store outbox event query'' e))
            (\<lambda>query. try_io (Exec pg (executorFromContext ctx) query)
               (\<lambda>e. Some (wrap ''store outbox event'' e))
               (\<lambda>_ w. (None, w))) w)"

definition outbox_select :: "nat \<Rightarrow> stmt" where
  "outbox_select limit =
     Select [''id'', ''payload'', ''attempts''] ''outbox_events''
       [IsNull ''published_at'', LeNow ''available_at''] (Some ''created_at'') (Some limit)
       ''FOR UPDATE SKIP LOCKED''"

text \<open>The loop over the rows: the first row that does not scan or unmarshal ends it.\<close>

fun scan_outbox :: "uuid_lib \<Rightarrow> sqlval list list \<Rightarrow> outbox_event list \<Rightarrow> goerr + outbox_event list" where
  "scan_outbox lib [] events = Inr events"
| "scan_outbox lib (vals # rows) events =
     (case vals of
        [VUuid i, VJson payload, VInt attempts] \<Rightarrow>
          (case unmarshal_event lib payload of
             Inl e \<Rightarrow> Inl (wrap ''unmarshal outbox event payload'' e)
           | Inr ev \<Rightarrow>
               scan_outbox lib rows
                 (events @ [\<lparr>o_ID = i, o_Event = ev, o_Attempts = attempts\<rparr>]))
      | _ \<Rightarrow> Inl (wrap ''scan outbox event'' scan_error))"

definition OutboxRepository_FetchPending ::
    "uuid_lib \<Rightarrow> 'w driver \<Rightarrow> ctx \<Rightarrow> 64 word \<Rightarrow> ('w, goerr, outbox_event list) io" where
  "OutboxRepository_FetchPending lib pg ctx limit =
     with_sql pg (outbox_select (unat limit))
       (\<lambda>e. Inl (wrap ''build fetch pending outbox events query'' e))
       (\<lambda>query. try_io (Query pg (executorFromContext ctx) query)
          (\<lambda>e. Inl (wrap ''fetch pending outbox events'' e))
          (\<lambda>(rows, rowsErr) w.
            case scan_outbox lib rows [] of
              Inl e \<Rightarrow> (Inl e, w)
            | Inr events \<Rightarrow>
                (case rowsErr of
                   Some e \<Rightarrow> (Inl (wrap ''iterate outbox events'' e), w)
                 | None \<Rightarrow> (Inr events, w))))"

definition outbox_published :: "uuid \<Rightarrow> stmt" where
  "outbox_published i =
     UpdateSet ''outbox_events''
       [(''published_at'', NowExpr), (''last_error'', Bind VNull)] [Eq ''id'' (VUuid i)]"

definition OutboxRepository_MarkPublished :: "'w driver \<Rightarrow> ctx \<Rightarrow> uuid \<Rightarrow> ('w, goerr) cmd" where
  "OutboxRepository_MarkPublished pg ctx i =
     with_sql pg (outbox_published i)
       (\<lambda>e. Some (wrap ''build mark outbox event published query'' e))
       (\<lambda>query. try_io (Exec pg (executorFromContext ctx) query)
          (\<lambda>e. Some (wrap ''mark outbox event published'' e))
          (\<lambda>_ w. (None, w)))"

definition outbox_failed :: "uuid \<Rightarrow> string \<Rightarrow> stmt" where
  "outbox_failed i msg =
     UpdateSet ''outbox_events''
       [(''attempts'', ColumnPlus ''attempts'' 1), (''last_error'', Bind (VText msg)),
        (''available_at'', NowPlusSeconds 10)] [Eq ''id'' (VUuid i)]"

definition OutboxRepository_MarkFailed ::
    "'w driver \<Rightarrow> ctx \<Rightarrow> uuid \<Rightarrow> goerr \<Rightarrow> ('w, goerr) cmd" where
  "OutboxRepository_MarkFailed pg ctx i publishErr =
     with_sql pg (outbox_failed i (error_text publishErr))
       (\<lambda>e. Some (wrap ''build mark outbox event failed query'' e))
       (\<lambda>query. try_io (Exec pg (executorFromContext ctx) query)
          (\<lambda>e. Some (wrap ''mark outbox event failed'' e))
          (\<lambda>_ w. (None, w)))"

definition NewOutboxRepository_Store :: "uuid_lib \<Rightarrow> 'w driver \<Rightarrow> 'w OutboxStore" where
  "NewOutboxRepository_Store lib pg = \<lparr>Store = OutboxRepository_Store lib pg\<rparr>"

end
