(* ===== verification/Publisher.thy ===== *)
theory Publisher
  imports Postgres
begin

text \<open>
  The outbox publisher (\<^verbatim>\<open>internal/infrastructure/outbox/publisher.go\<close>): it fetches the events that
  are due, hands each to the producer and records the outcome, one batch per tick and one
  transaction per batch.  Log calls are left out.
\<close>

record 'w OutboxQueue =
  FetchPending :: "ctx \<Rightarrow> 64 word \<Rightarrow> ('w, goerr, outbox_event list) io"
  MarkPublished :: "ctx \<Rightarrow> uuid \<Rightarrow> ('w, goerr) cmd"
  MarkFailed :: "ctx \<Rightarrow> uuid \<Rightarrow> goerr \<Rightarrow> ('w, goerr) cmd"

definition NewOutboxRepository_Queue :: "uuid_lib \<Rightarrow> 'w driver \<Rightarrow> 'w OutboxQueue" where
  "NewOutboxRepository_Queue lib pg =
     \<lparr>FetchPending = OutboxRepository_FetchPending lib pg,
      MarkPublished = OutboxRepository_MarkPublished pg,
      MarkFailed = OutboxRepository_MarkFailed pg\<rparr>"

record 'w Publisher =
  pub_repo :: "'w OutboxQueue"
  pub_tx :: "('w, unit) TransactionRunner option"
  pub_producer :: "'w EventProducer"
  pub_interval :: int
  pub_batch :: "64 word"

definition NewPublisher ::
    "'w OutboxQueue \<Rightarrow> ('w, unit) TransactionRunner option \<Rightarrow> 'w EventProducer \<Rightarrow> int \<Rightarrow> int
     \<Rightarrow> 'w Publisher" where
  "NewPublisher repo tx producer interval batchSize =
     (let interval' = (if interval \<le> 0 then 2 * 1000000000 else interval);
          batchSize' = (if batchSize \<le> 0 then 10 else batchSize)
      in \<lparr>pub_repo = repo, pub_tx = tx, pub_producer = producer, pub_interval = interval',
          pub_batch = word_of_int batchSize'\<rparr>)"

text \<open>The loop over the fetched events.\<close>

fun publish_events :: "'w Publisher \<Rightarrow> ctx \<Rightarrow> outbox_event list \<Rightarrow> ('w, goerr, unit) io" where
  "publish_events p ctx [] w0 = (Inr (), w0)"
| "publish_events p ctx (ev # evs) w0 =
     (case Publish (pub_producer p) ctx (o_Event ev) w0 of
        (Some err, w) \<Rightarrow>
          try_cmd (MarkFailed (pub_repo p) ctx (o_ID ev) err)
            (\<lambda>markErr. Inl (Errorf (''mark outbox event failed after publish error ''
               @ error_text err @ '': '') markErr ''''))
            (publish_events p ctx evs) w
      | (None, w) \<Rightarrow>
          try_cmd (MarkPublished (pub_repo p) ctx (o_ID ev)) Inl (publish_events p ctx evs) w)"

definition processBatch :: "'w Publisher \<Rightarrow> ctx \<Rightarrow> ('w, goerr, unit) io" where
  "processBatch p ctx =
     try_io (FetchPending (pub_repo p) ctx (pub_batch p)) Inl (publish_events p ctx)"

definition ProcessBatch :: "'w Publisher \<Rightarrow> ctx \<Rightarrow> ('w, goerr, unit) io" where
  "ProcessBatch p ctx =
     (case pub_tx p of
        None \<Rightarrow> processBatch p ctx
      | Some tx \<Rightarrow> WithinTransaction tx ctx (processBatch p))"

text \<open>An error of a batch is logged and dropped.\<close>

definition processAndLog :: "'w Publisher \<Rightarrow> ctx \<Rightarrow> 'w \<Rightarrow> 'w" where
  "processAndLog p ctx w = snd (ProcessBatch p ctx w)"

text \<open>
  \<^verbatim>\<open>Run\<close> reacts to the ticker and to the end of its context, in the order in which they are
  received; the list is what has been received so far.
\<close>

datatype wakeup = Tick | Done

fun run_loop :: "'w Publisher \<Rightarrow> ctx \<Rightarrow> wakeup list \<Rightarrow> 'w \<Rightarrow> 'w" where
  "run_loop p ctx [] w = w"
| "run_loop p ctx (Done # rest) w = w"
| "run_loop p ctx (Tick # rest) w = run_loop p ctx rest (processAndLog p ctx w)"

definition Run :: "'w Publisher \<Rightarrow> ctx \<Rightarrow> wakeup list \<Rightarrow> 'w \<Rightarrow> 'w" where
  "Run p ctx received w = run_loop p ctx received (processAndLog p ctx w)"

end
