(* ===== verification/Tables.thy ===== *)
theory Tables
  imports Postgres
begin

text \<open>
  What the two tables mean to the application: a ledger of companies and of outbox entries.

  \<open>conc\<close> gives the rows of a ledger and \<open>abs_ledger\<close> reads a ledger off the rows; they are inverse on
  well-formed ledgers.  For every statement that the repositories send there is one lemma that says
  what executing it (\<^const>\<open>sql_exec\<close>, with the declared constraints) does to the ledger.
\<close>

subsection \<open>Ledgers\<close>

record entry =
  en_event :: event
  en_attempts :: int
  en_last_error :: "string option"
  en_available :: time
  en_published :: "time option"

record ledger =
  members :: "company list"
  outbox :: "entry list"

text \<open>What a column holds of a company: instants to the microsecond.\<close>

definition stored :: "company \<Rightarrow> company" where
  "stored c = c\<lparr>CreatedAt := micros (CreatedAt c), UpdatedAt := micros (UpdatedAt c)\<rparr>"

text \<open>The server can hold the company's texts and its number.\<close>

definition storable :: "company \<Rightarrow> bool" where
  "storable c \<longleftrightarrow> text_ok (Name c) \<and> text_ok (Description c) \<and> int4_ok (AmountOfEmployees c)"

definition row_of_company :: "company \<Rightarrow> row" where
  "row_of_company c =
     [(''id'', VUuid (ID c)), (''name'', VText (Name c)), (''description'', VText (Description c)),
      (''amount_of_employees'', VInt (AmountOfEmployees c)), (''registered'', VBool (Registered c)),
      (''type'', VText (Type c)), (''created_at'', VTime (CreatedAt c)),
      (''updated_at'', VTime (UpdatedAt c))]"

definition payload :: "uuid_lib \<Rightarrow> event \<Rightarrow> json" where
  "payload lib ev = (case marshal_event lib ev of Inr j \<Rightarrow> j | Inl _ \<Rightarrow> JNull)"

definition row_of_entry :: "uuid_lib \<Rightarrow> entry \<Rightarrow> row" where
  "row_of_entry lib en =
     [(''id'', VUuid (e_ID (en_event en))), (''event_type'', VText (e_Type (en_event en))),
      (''aggregate_id'', VUuid (CompanyID (en_event en))),
      (''payload'', VJson (payload lib (en_event en))), (''attempts'', VInt (en_attempts en)),
      (''last_error'', case en_last_error en of None \<Rightarrow> VNull | Some s \<Rightarrow> VText s),
      (''available_at'', VTime (en_available en)),
      (''published_at'', case en_published en of None \<Rightarrow> VNull | Some t \<Rightarrow> VTime t),
      (''created_at'', VTime (micros (OccurredAt (en_event en))))]"

definition conc :: "uuid_lib \<Rightarrow> ledger \<Rightarrow> database" where
  "conc lib l =
     \<lparr>companies = map row_of_company (members l), outbox_events = map (row_of_entry lib) (outbox l)\<rparr>"

fun the_uuid :: "sqlval \<Rightarrow> uuid" where "the_uuid (VUuid u) = u" | "the_uuid _ = 0"
fun the_text :: "sqlval \<Rightarrow> string" where "the_text (VText s) = s" | "the_text _ = ''''"
fun the_int :: "sqlval \<Rightarrow> int" where "the_int (VInt n) = n" | "the_int _ = 0"
fun the_bool :: "sqlval \<Rightarrow> bool" where "the_bool (VBool b) = b" | "the_bool _ = False"
fun the_time :: "sqlval \<Rightarrow> time" where "the_time (VTime t) = t" | "the_time _ = 0"

definition company_of_row :: "row \<Rightarrow> company" where
  "company_of_row r =
     \<lparr>ID = the_uuid (col r ''id''), Name = the_text (col r ''name''),
      Description = the_text (col r ''description''),
      AmountOfEmployees = the_int (col r ''amount_of_employees''),
      Registered = the_bool (col r ''registered''), Type = the_text (col r ''type''),
      CreatedAt = the_time (col r ''created_at''), UpdatedAt = the_time (col r ''updated_at'')\<rparr>"

definition entry_of_row :: "uuid_lib \<Rightarrow> row \<Rightarrow> entry" where
  "entry_of_row lib r =
     \<lparr>en_event = (case col r ''payload'' of
        VJson j \<Rightarrow> (case unmarshal_event lib j of Inr ev \<Rightarrow> ev | Inl _ \<Rightarrow> zero_event)
      | _ \<Rightarrow> zero_event),
      en_attempts = the_int (col r ''attempts''),
      en_last_error = (case col r ''last_error'' of VText s \<Rightarrow> Some s | _ \<Rightarrow> None),
      en_available = the_time (col r ''available_at''),
      en_published = (case col r ''published_at'' of VTime t \<Rightarrow> Some t | _ \<Rightarrow> None)\<rparr>"

definition abs_ledger :: "uuid_lib \<Rightarrow> database \<Rightarrow> ledger" where
  "abs_ledger lib db =
     \<lparr>members = map company_of_row (companies db),
      outbox = map (entry_of_row lib) (outbox_events db)\<rparr>"

text \<open>
  Well-formed ledgers: companies are valid, in the form the columns hold, with ids and names of
  their own; entries have ids of their own and events that survive JSON.
\<close>

definition company_ok :: "company \<Rightarrow> bool" where
  "company_ok c \<longleftrightarrow> valid_company c \<and> storable c \<and> stored c = c"

definition entry_ok :: "entry \<Rightarrow> bool" where
  "entry_ok en \<longleftrightarrow> json_safe_event (en_event en) \<and> 0 \<le> en_attempts en"

definition ledger_ok :: "ledger \<Rightarrow> bool" where
  "ledger_ok l \<longleftrightarrow>
     distinct (map ID (members l)) \<and> distinct (map Name (members l))
     \<and> (\<forall>c\<in>set (members l). company_ok c)
     \<and> distinct (map (e_ID \<circ> en_event) (outbox l)) \<and> (\<forall>en\<in>set (outbox l). entry_ok en)"

definition db_ok :: "uuid_lib \<Rightarrow> database \<Rightarrow> bool" where
  "db_ok lib db \<longleftrightarrow> ledger_ok (abs_ledger lib db) \<and> conc lib (abs_ledger lib db) = db"

subsection \<open>The two views agree\<close>

lemma company_of_row_of_company [simp]: "company_of_row (row_of_company c) = c"
  by (simp add: company_of_row_def row_of_company_def col_def)

lemma payload_eq:
  assumes "uuid_lib_ok lib" and "json_safe_event ev"
  shows "marshal_event lib ev = Inr (payload lib ev)"
    and "unmarshal_event lib (payload lib ev) = Inr ev"
  using marshal_unmarshal_event [OF assms] by (auto simp: payload_def)

lemma entry_of_row_of_entry [simp]:
  assumes "uuid_lib_ok lib" and "entry_ok en"
  shows "entry_of_row lib (row_of_entry lib en) = en"
  using assms payload_eq [of lib "en_event en"]
  by (cases en) (auto simp: entry_of_row_def row_of_entry_def col_def entry_ok_def
      split: option.split)

lemma abs_conc [simp]:
  assumes "uuid_lib_ok lib" and "ledger_ok l"
  shows "abs_ledger lib (conc lib l) = l"
proof -
  have "map (entry_of_row lib) (map (row_of_entry lib) (outbox l)) = outbox l"
    using assms by (auto simp: ledger_ok_def intro!: map_idI)
  moreover have "map company_of_row (map row_of_company (members l)) = members l"
    by (simp add: map_idI)
  ultimately show ?thesis by (simp add: abs_ledger_def conc_def)
qed

lemma db_ok_conc: "uuid_lib_ok lib \<Longrightarrow> ledger_ok l \<Longrightarrow> db_ok lib (conc lib l)"
  by (simp add: db_ok_def)

lemma db_okE:
  assumes "db_ok lib db"
  obtains l where "ledger_ok l" and "db = conc lib l" and "abs_ledger lib db = l"
  using assms by (auto simp: db_ok_def)

lemma db_ok_empty [simp]: "db_ok lib \<lparr>companies = [], outbox_events = []\<rparr>"
  by (simp add: db_ok_def abs_ledger_def conc_def ledger_ok_def)


subsection \<open>Errors from below\<close>

text \<open>
  The errors of the driver and of the server mean nothing to the application, and whatever wraps
  one is answered with status 500; only a unique violation of the companies table is turned into
  an error of the application.  \<open>internal_error\<close> is every other error from below.
\<close>

definition opaque_error :: "goerr \<Rightarrow> bool" where
  "opaque_error e \<longleftrightarrow>
     (\<exists>m. root_cause e = OtherError m) \<or> (\<exists>code con m. root_cause e = PgError code con m)"

definition internal_error :: "goerr \<Rightarrow> bool" where
  "internal_error e \<longleftrightarrow>
     (\<exists>m. root_cause e = OtherError m)
     \<or> (\<exists>code con m. root_cause e = PgError code con m \<and> code \<noteq> uniqueViolationCode)"

lemma opaque_error_wrap [simp, err_simps]:
  "opaque_error (wrap s e) = opaque_error e" "internal_error (wrap s e) = internal_error e"
  by (simp_all add: opaque_error_def internal_error_def)

lemma opaque_error_base [simp]:
  "opaque_error (OtherError m)" "opaque_error (PgError code con m)"
  "internal_error (OtherError m)"
  "internal_error (PgError code con m) \<longleftrightarrow> code \<noteq> uniqueViolationCode"
  "\<not> opaque_error ErrNotFound" "\<not> opaque_error ErrDuplicateID"
  "\<not> opaque_error ErrDuplicateName" "\<not> opaque_error ErrEmptyPatch"
  "\<not> opaque_error (ValidationError fs)" "\<not> opaque_error ErrNoRows"
  by (simp_all add: opaque_error_def internal_error_def)

lemma internal_opaque [simp]: "internal_error e \<Longrightarrow> opaque_error e"
  by (auto simp: opaque_error_def internal_error_def)

lemma opaque_error_not [simp]:
  assumes "opaque_error e"
  shows "errors_Is e ErrNotFound = False" "errors_Is e ErrDuplicateID = False"
    "errors_Is e ErrDuplicateName = False" "errors_Is e ErrEmptyPatch = False"
    "errors_Is e ErrNoRows = False" "errors_As_ValidationError e = None"
proof -
  have Is: "errors_Is e t = False" if "\<not> opaque_error t" for t
    using assms that by (auto simp: opaque_error_def errors_Is_iff)
  show "errors_Is e ErrNotFound = False" "errors_Is e ErrDuplicateID = False"
    "errors_Is e ErrDuplicateName = False" "errors_Is e ErrEmptyPatch = False"
    "errors_Is e ErrNoRows = False"
    by (rule Is, simp)+
  show "errors_As_ValidationError e = None"
    using assms by (cases "errors_As_ValidationError e")
      (auto simp: opaque_error_def errors_As_ValidationError_iff)
qed

lemma errors_As_PgError_root:
  "errors_As_PgError e =
     (case root_cause e of PgError code con m \<Rightarrow> Some (code, con) | _ \<Rightarrow> None)"
  by (induction e) auto

text \<open>\<^const>\<open>mapPostgresError\<close> on the errors there are.\<close>

lemma mapPostgresError_internal [simp]:
  "internal_error e \<Longrightarrow> mapPostgresError e = wrap ''map postgres error'' e"
  by (auto simp: internal_error_def mapPostgresError_def errors_As_PgError_root)

lemma mapPostgresError_unique [simp]:
  "mapPostgresError (PgError ''23505'' ''companies_pkey'' m) = wrap ''map postgres error'' ErrDuplicateID"
  "mapPostgresError (PgError ''23505'' ''companies_name_key'' m) = wrap ''map postgres error'' ErrDuplicateName"
  by (simp_all add: mapPostgresError_def constraint_defs)

subsection \<open>Statements on the companies\<close>

lemma micros_micros [simp]: "micros (micros t) = micros t"
  by (simp add: micros_def)

lemma stored_simps [simp]:
  "ID (stored c) = ID c" "Name (stored c) = Name c" "Description (stored c) = Description c"
  "AmountOfEmployees (stored c) = AmountOfEmployees c" "Registered (stored c) = Registered c"
  "Type (stored c) = Type c" "CreatedAt (stored c) = micros (CreatedAt c)"
  "UpdatedAt (stored c) = micros (UpdatedAt c)" "stored (stored c) = stored c"
  by (simp_all add: stored_def)

lemma valid_stored [simp]: "valid_company (stored c) = valid_company c"
  by (simp add: valid_company_def)

lemma storable_stored [simp]: "storable (stored c) = storable c"
  by (simp add: storable_def)

lemma company_ok_stored [simp]: "company_ok (stored c) \<longleftrightarrow> valid_company c \<and> storable c"
  by (simp add: company_ok_def)

lemma type_text_ok: "IsValid t \<Longrightarrow> text_ok t"
  by (auto simp: IsValid_iff type_defs text_ok_def byte_def)

definition company_values :: "company \<Rightarrow> (string \<times> sqlval) list" where
  "company_values c =
     [(''id'', VUuid (ID c)), (''name'', VText (Name c)), (''description'', VText (Description c)),
      (''amount_of_employees'', VInt (AmountOfEmployees c)), (''registered'', VBool (Registered c)),
      (''type'', VText (Type c)), (''created_at'', VTime (CreatedAt c)),
      (''updated_at'', VTime (UpdatedAt c))]"

lemma build_company_row:
  "storable c \<Longrightarrow> IsValid (Type c) \<Longrightarrow>
   build_row now (columns companies_table) (company_values c) = Inr (row_of_company (stored c))"
  "\<not> storable c \<Longrightarrow>
   \<exists>e. build_row now (columns companies_table) (company_values c) = Inl e \<and> internal_error e"
  using type_text_ok [of "Type c"]
  by (auto simp: companies_table_def company_values_def storable_def row_of_company_def
      constraint_defs)

lemma col_row_of_company [simp]:
  "col (row_of_company c) ''id'' = VUuid (ID c)" "col (row_of_company c) ''name'' = VText (Name c)"
  "col (row_of_company c) ''description'' = VText (Description c)"
  "col (row_of_company c) ''amount_of_employees'' = VInt (AmountOfEmployees c)"
  "col (row_of_company c) ''registered'' = VBool (Registered c)"
  "col (row_of_company c) ''type'' = VText (Type c)"
  "col (row_of_company c) ''created_at'' = VTime (CreatedAt c)"
  "col (row_of_company c) ''updated_at'' = VTime (UpdatedAt c)"
  by (simp_all add: row_of_company_def col_def)

lemma valid_company_checks: "valid_company c \<Longrightarrow> check_violation companies_table (row_of_company c) = None"
  by (auto simp: check_violation_def companies_table_def valid_company_def valid_name_def
      valid_description_def IsValid_iff type_defs MaxNameLength_def MaxDescriptionLength_def)

lemma valid_company_nulls [simp]: "null_violation companies_table (row_of_company c) = None"
  by (simp add: null_violation_def companies_table_def)

text \<open>The unique violation of a company among others: the primary key is tested first.\<close>

definition duplicate :: "company list \<Rightarrow> company \<Rightarrow> goerr option" where
  "duplicate cs c =
     (if ID c \<in> ID ` set cs
      then Some (PgError ''23505'' ''companies_pkey'' ''duplicate key value violates unique constraint'')
      else if Name c \<in> Name ` set cs
      then Some (PgError ''23505'' ''companies_name_key'' ''duplicate key value violates unique constraint'')
      else None)"

lemma company_row_violation:
  assumes "valid_company c"
  shows "row_violation companies_table (map row_of_company cs) (row_of_company c) = duplicate cs c"
proof -
  have "unique_violation companies_table (map row_of_company cs) (row_of_company c) = duplicate cs c"
    by (auto simp: unique_violation_def companies_table_def duplicate_def list_ex_iff image_iff
        dest: sym)
  with assms show ?thesis by (simp add: row_violation_def valid_company_checks)
qed


text \<open>INSERT\<close>

definition with_company :: "company \<Rightarrow> ledger \<Rightarrow> ledger" where
  "with_company c l = l\<lparr>members := members l @ [stored c]\<rparr>"

lemma conc_simps [simp]:
  "rows_of ''companies'' (conc lib l) = map row_of_company (members l)"
  "rows_of ''outbox_events'' (conc lib l) = map (row_of_entry lib) (outbox l)"
  "set_rows ''companies'' (map row_of_company cs) (conc lib l) = conc lib (l\<lparr>members := cs\<rparr>)"
  "set_rows ''outbox_events'' (map (row_of_entry lib) es) (conc lib l) = conc lib (l\<lparr>outbox := es\<rparr>)"
  by (simp_all add: rows_of_def set_rows_def conc_def)

lemma table_of_simps [simp]:
  "table_of ''companies'' = Some companies_table"
  "table_of ''outbox_events'' = Some outbox_events_table"
  by (simp_all add: table_of_def)

lemma exec_company_insert:
  assumes "valid_company c" and "storable c"
  shows "sql_exec now (company_insert c) (conc lib l) =
    (case duplicate (members l) c of Some e \<Rightarrow> Inl e | None \<Rightarrow> Inr ([], 1, conc lib (with_company c l)))"
proof -
  have "IsValid (Type c)" using assms by (simp add: valid_company_def IsValid_iff)
  with assms have "build_row now (columns companies_table) (company_values c)
      = Inr (row_of_company (stored c))"
    by (simp add: build_company_row)
  moreover have "row_violation companies_table (map row_of_company (members l)) (row_of_company (stored c))
      = duplicate (members l) c"
    using assms by (simp add: company_row_violation duplicate_def)
  moreover have "map row_of_company (members l) @ [row_of_company (stored c)]
      = map row_of_company (members l @ [stored c])" by simp
  ultimately show ?thesis
    by (simp add: company_insert_def company_values_def with_company_def del: map_append
        split: option.split)
qed

lemma exec_company_insert_unstorable:
  assumes "\<not> storable c"
  shows "\<exists>e. sql_exec now (company_insert c) db = Inl e \<and> internal_error e"
  using build_company_row(2) [OF assms, of now]
  by (auto simp: company_insert_def company_values_def)

lemma ledger_ok_with_company:
  assumes "ledger_ok l" and "valid_company c" and "storable c" and "duplicate (members l) c = None"
  shows "ledger_ok (with_company c l)"
  using assms by (auto simp: ledger_ok_def with_company_def duplicate_def split: if_splits)

text \<open>UPDATE of the row that a key selects\<close>

lemma update_rows_none:
  "\<forall>r\<in>set rs. \<not> matches now cs r \<Longrightarrow> update_rows now t sets cs earlier rs = Inr (earlier @ rs, 0)"
  by (induction rs arbitrary: earlier) auto

lemma update_rows_one:
  assumes "\<forall>r\<in>set xs. \<not> matches now cs r" and "\<forall>r\<in>set ys. \<not> matches now cs r"
    and "matches now cs r"
  shows "update_rows now t sets cs earlier (xs @ r # ys) =
    (case assign now t r sets r of
       Inl e \<Rightarrow> Inl e
     | Inr r' \<Rightarrow>
         (case row_violation t (earlier @ xs @ ys) r' of
            Some e \<Rightarrow> Inl e | None \<Rightarrow> Inr (earlier @ xs @ r' # ys, 1)))"
  using assms
proof (induction xs arbitrary: earlier)
  case Nil
  show ?case
  proof (cases "assign now t r sets r")
    case (Inr r')
    with Nil show ?thesis
      by (cases "row_violation t (earlier @ ys) r'") (simp_all add: update_rows_none)
  qed (use Nil in simp)
qed (simp cong: sum.case_cong option.case_cong)

lemma split_by_key:
  assumes "distinct (map f xs)" and "k \<in> f ` set xs"
  obtains ys x zs where "xs = ys @ x # zs" and "f x = k"
    and "\<forall>y\<in>set ys. f y \<noteq> k" and "\<forall>z\<in>set zs. f z \<noteq> k"
proof -
  from assms(2) obtain x where x: "x \<in> set xs" "f x = k" by auto
  from x(1) obtain ys zs where xs: "xs = ys @ x # zs" by (auto simp: in_set_conv_decomp)
  with assms(1) x(2) have "k \<notin> f ` set ys" "k \<notin> f ` set zs" by auto
  then have "\<forall>y\<in>set ys. f y \<noteq> k" "\<forall>z\<in>set zs. f z \<noteq> k" by auto
  with xs x(2) that show ?thesis by blast
qed

text \<open>Replacing the element with a given key.\<close>

definition replace_by :: "('a \<Rightarrow> 'k) \<Rightarrow> 'k \<Rightarrow> ('a \<Rightarrow> 'a) \<Rightarrow> 'a list \<Rightarrow> 'a list" where
  "replace_by f k g xs = map (\<lambda>x. if f x = k then g x else x) xs"

lemma replace_by_split:
  assumes "\<forall>y\<in>set ys. f y \<noteq> k" and "\<forall>z\<in>set zs. f z \<noteq> k" and "f x = k"
  shows "replace_by f k g (ys @ x # zs) = ys @ g x # zs"
  using assms by (auto simp: replace_by_def intro!: map_idI)

definition revised :: "company \<Rightarrow> company \<Rightarrow> company" where
  "revised c old = (stored c)\<lparr>CreatedAt := CreatedAt old\<rparr>"

definition with_revision :: "company \<Rightarrow> ledger \<Rightarrow> ledger" where
  "with_revision c l = l\<lparr>members := replace_by ID (ID c) (revised c) (members l)\<rparr>"

definition name_taken :: "ledger \<Rightarrow> uuid \<Rightarrow> string \<Rightarrow> bool" where
  "name_taken l i n \<longleftrightarrow> (\<exists>c\<in>set (members l). ID c \<noteq> i \<and> Name c = n)"


definition company_sets :: "company \<Rightarrow> (string \<times> sqlexpr) list" where
  "company_sets c =
     [(''name'', Bind (VText (Name c))), (''description'', Bind (VText (Description c))),
      (''amount_of_employees'', Bind (VInt (AmountOfEmployees c))),
      (''registered'', Bind (VBool (Registered c))), (''type'', Bind (VText (Type c))),
      (''updated_at'', Bind (VTime (UpdatedAt c)))]"

lemma column_types [simp]:
  "column_type companies_table ''id'' = UuidType"
  "column_type companies_table ''name'' = TextType"
  "column_type companies_table ''description'' = TextType"
  "column_type companies_table ''amount_of_employees'' = IntegerType"
  "column_type companies_table ''registered'' = BooleanType"
  "column_type companies_table ''type'' = TextType"
  "column_type companies_table ''updated_at'' = TimestamptzType"
  "column_type outbox_events_table ''id'' = UuidType"
  "column_type outbox_events_table ''attempts'' = IntegerType"
  "column_type outbox_events_table ''last_error'' = TextType"
  "column_type outbox_events_table ''available_at'' = TimestamptzType"
  "column_type outbox_events_table ''published_at'' = TimestamptzType"
  by (simp_all add: column_type_def companies_table_def outbox_events_table_def)

lemma bind_company_sets:
  "storable c \<Longrightarrow> IsValid (Type c) \<Longrightarrow>
   bind_sets companies_table (company_sets c) = Inr (company_sets (stored c))"
  "\<not> storable c \<Longrightarrow>
   \<exists>e. bind_sets companies_table (company_sets c) = Inl e \<and> internal_error e"
  using type_text_ok [of "Type c"]
  by (auto simp: company_sets_def storable_def constraint_defs)

lemma assign_company:
  "storable c \<Longrightarrow> IsValid (Type c) \<Longrightarrow> ID d = ID c \<Longrightarrow>
   assign now companies_table r (company_sets (stored c)) (row_of_company d)
     = Inr (row_of_company (revised c d))"
  using type_text_ok [of "Type c"]
  by (simp add: company_sets_def storable_def row_of_company_def revised_def)

lemma matches_company [simp]:
  "matches now [Eq ''id'' (VUuid i)] (row_of_company c) \<longleftrightarrow> ID c = i"
  "matches now [Eq ''name'' (VText n)] (row_of_company c) \<longleftrightarrow> Name c = n"
  by (auto simp: matches_def)

lemma company_update_eq:
  "company_update c = UpdateSet ''companies'' (company_sets c) [Eq ''id'' (VUuid (ID c))]"
  by (simp add: company_update_def company_sets_def)

lemma bind_name:
  "bind_conds companies_table [Eq ''name'' (VText n)] =
     (if text_ok n then Inr [Eq ''name'' (VText n)]
      else Inl (PgError ''22021'' '''' ''invalid byte sequence for encoding UTF8''))"
  by simp

lemma valid_revised [simp]: "valid_company (revised c d) = valid_company c"
  by (simp add: valid_company_def revised_def)

lemma revised_simps [simp]:
  "ID (revised c d) = ID c" "Name (revised c d) = Name c" "CreatedAt (revised c d) = CreatedAt d"
  "storable (revised c d) = storable c"
  by (simp_all add: revised_def storable_def)

lemma stored_iff: "stored c = c \<longleftrightarrow> micros (CreatedAt c) = CreatedAt c \<and> micros (UpdatedAt c) = UpdatedAt c"
  by (cases c) (simp add: stored_def)

lemma company_ok_revised:
  "company_ok d \<Longrightarrow> valid_company c \<Longrightarrow> storable c \<Longrightarrow> company_ok (revised c d)"
  by (simp add: company_ok_def stored_iff) (simp add: revised_def)

text \<open>UPDATE of a company: no such row, a name of another company, or the revision.\<close>

lemma exec_company_update:
  assumes "ledger_ok l" and c: "valid_company c" "storable c"
  shows "sql_exec now (company_update c) (conc lib l) =
    (if ID c \<notin> ID ` set (members l) then Inr ([], 0, conc lib l)
     else if name_taken l (ID c) (Name c)
     then Inl (PgError ''23505'' ''companies_name_key'' ''duplicate key value violates unique constraint'')
     else Inr ([], 1, conc lib (with_revision c l)))"
proof -
  let ?cs = "[Eq ''id'' (VUuid (ID c))]"
  have valid_type: "IsValid (Type c)" using c by (simp add: valid_company_def IsValid_iff)
  with c have upd: "sql_exec now (company_update c) (conc lib l) =
    (case update_rows now companies_table (company_sets (stored c)) ?cs []
        (map row_of_company (members l)) of
       Inl e \<Rightarrow> Inl e | Inr (rs, n) \<Rightarrow> Inr ([], n, set_rows ''companies'' rs (conc lib l)))"
    by (simp add: company_update_eq bind_company_sets)
  show ?thesis
  proof (cases "ID c \<in> ID ` set (members l)")
    case False
    then have "\<forall>d\<in>set (members l). ID d \<noteq> ID c" by (auto simp: image_iff)
    then have "update_rows now companies_table (company_sets (stored c)) ?cs [] (map row_of_company (members l))
        = Inr (map row_of_company (members l), 0)"
      by (subst update_rows_none) simp_all
    with False upd show ?thesis by simp
  next
    case True
    from assms have dist: "distinct (map ID (members l))" by (simp add: ledger_ok_def)
    from split_by_key [OF this True] obtain xs d ys where m: "members l = xs @ d # ys"
      and d: "ID d = ID c" and xs: "\<forall>x\<in>set xs. ID x \<noteq> ID c" and ys: "\<forall>x\<in>set ys. ID x \<noteq> ID c"
      by blast
    have taken: "name_taken l (ID c) (Name c) \<longleftrightarrow> Name c \<in> Name ` set (xs @ ys)"
      using m d xs ys by (auto simp: name_taken_def image_iff dest: sym)
    have fresh: "ID c \<notin> ID ` set (xs @ ys)" using xs ys by auto
    have viol: "row_violation companies_table (map row_of_company xs @ map row_of_company ys)
        (row_of_company (revised c d)) = duplicate (xs @ ys) c"
      using company_row_violation [of "revised c d" "xs @ ys"] c by (simp add: duplicate_def)
    have rows: "update_rows now companies_table (company_sets (stored c)) ?cs [] (map row_of_company (members l)) =
      (case duplicate (xs @ ys) c of Some e \<Rightarrow> Inl e
       | None \<Rightarrow> Inr (map row_of_company (xs @ revised c d # ys), 1))"
      using m xs ys d c valid_type viol
      by (simp add: update_rows_one assign_company split: option.split)
    have "replace_by ID (ID c) (revised c) (members l) = xs @ revised c d # ys"
      using m xs ys d by (simp add: replace_by_split)
    then have "with_revision c l = l\<lparr>members := xs @ revised c d # ys\<rparr>"
      by (simp add: with_revision_def)
    with True taken fresh upd rows show ?thesis
      by (simp add: duplicate_def del: map_append list.map)
  qed
qed

lemma exec_company_update_unstorable:
  assumes "\<not> storable c"
  shows "\<exists>e. sql_exec now (company_update c) db = Inl e \<and> internal_error e"
  using bind_company_sets(2) [OF assms] by (auto simp: company_update_eq)

lemma ledger_ok_with_revision:
  assumes "ledger_ok l" and "valid_company c" and "storable c"
    and "ID c \<in> ID ` set (members l)" and "\<not> name_taken l (ID c) (Name c)"
  shows "ledger_ok (with_revision c l)"
proof -
  from assms have dist: "distinct (map ID (members l))" by (simp add: ledger_ok_def)
  from split_by_key [OF this assms(4)] obtain xs d ys where m: "members l = xs @ d # ys"
    and d: "ID d = ID c" and xs: "\<forall>x\<in>set xs. ID x \<noteq> ID c" and ys: "\<forall>x\<in>set ys. ID x \<noteq> ID c"
    by blast
  then have rep: "members (with_revision c l) = xs @ revised c d # ys"
    by (simp add: with_revision_def replace_by_split)
  have "Name c \<notin> Name ` set (xs @ ys)"
    using assms(5) m xs ys by (auto simp: name_taken_def image_iff dest: sym)
  moreover have "outbox (with_revision c l) = outbox l" by (simp add: with_revision_def)
  ultimately show ?thesis
    using assms m d rep by (auto simp: ledger_ok_def company_ok_revised)
qed

text \<open>DELETE\<close>

definition without_company :: "uuid \<Rightarrow> ledger \<Rightarrow> ledger" where
  "without_company i l = l\<lparr>members := filter (\<lambda>c. ID c \<noteq> i) (members l)\<rparr>"

lemma exec_company_delete:
  "sql_exec now (company_delete i) (conc lib l) =
     Inr ([], length (filter (\<lambda>c. ID c = i) (members l)), conc lib (without_company i l))"
  by (simp add: company_delete_def filter_map comp_def Let_def without_company_def)

lemma ledger_ok_without_company: "ledger_ok l \<Longrightarrow> ledger_ok (without_company i l)"
  by (auto simp: ledger_ok_def without_company_def distinct_map_filter)

text \<open>SELECT by id and by name: at most one row.\<close>

definition company_fields :: "company \<Rightarrow> sqlval list" where
  "company_fields c =
     [VUuid (ID c), VText (Name c), VText (Description c), VInt (AmountOfEmployees c),
      VBool (Registered c), VText (Type c), VTime (CreatedAt c), VTime (UpdatedAt c)]"

lemma scanCompany_fields [simp]: "scanCompany (Inr (company_fields c)) = Inr c"
  by (simp add: scanCompany_def company_fields_def)

lemma scanCompany_Inl [simp]:
  "scanCompany (Inl ErrNoRows) = Inl (wrap ''scan company'' ErrNotFound)"
  "\<not> errors_Is e ErrNoRows \<Longrightarrow> scanCompany (Inl e) = Inl (wrap ''scan company'' e)"
  by (simp_all add: scanCompany_def)

lemma exec_select_company:
  "sql_exec now (selectCompany [Eq ''id'' (VUuid i)]) (conc lib l) =
     Inr (map company_fields (filter (\<lambda>c. ID c = i) (members l)), 0, conc lib l)"
  "text_ok n \<Longrightarrow>
   sql_exec now (selectCompany [Eq ''name'' (VText n)]) (conc lib l) =
     Inr (map company_fields (filter (\<lambda>c. Name c = n) (members l)), 0, conc lib l)"
  "\<not> text_ok n \<Longrightarrow>
   \<exists>e. sql_exec now (selectCompany [Eq ''name'' (VText n)]) db = Inl e \<and> internal_error e"
  by (simp_all add: selectCompany_def selected_def filter_map comp_def company_fields_def
      bind_name constraint_defs)

lemma filter_key_cases:
  assumes "distinct (map f xs)"
  shows "filter (\<lambda>x. f x = k) xs = [] \<and> k \<notin> f ` set xs
    \<or> (\<exists>x\<in>set xs. f x = k \<and> filter (\<lambda>x. f x = k) xs = [x])"
proof (cases "k \<in> f ` set xs")
  case True
  from split_by_key [OF assms this] obtain ys x zs where "xs = ys @ x # zs" "f x = k"
    "\<forall>y\<in>set ys. f y \<noteq> k" "\<forall>z\<in>set zs. f z \<noteq> k" by blast
  then show ?thesis by (auto simp: filter_empty_conv)
qed (auto simp: filter_empty_conv)

end
