(* ===== verification/OutboxTable.thy ===== *)
theory OutboxTable
  imports Tables
begin

text \<open>
  The statements on \<^verbatim>\<open>outbox_events\<close> and what they do to the entries of a ledger: storing an event,
  fetching the entries that are due, marking one as published or as failed.
\<close>

subsection \<open>Storing an event\<close>

abbreviation entry_id :: "entry \<Rightarrow> uuid" where
  "entry_id en \<equiv> e_ID (en_event en)"

definition company_texts_ok :: "company \<Rightarrow> bool" where
  "company_texts_ok c \<longleftrightarrow> text_ok (Name c) \<and> text_ok (Description c) \<and> text_ok (Type c)
     \<and> is_go_int (AmountOfEmployees c)"

definition event_texts_ok :: "event \<Rightarrow> bool" where
  "event_texts_ok ev \<longleftrightarrow> text_ok (e_Type ev)
     \<and> (case Company ev of None \<Rightarrow> True | Some c \<Rightarrow> company_texts_ok c)"

definition new_entry :: "time \<Rightarrow> event \<Rightarrow> entry" where
  "new_entry now ev =
     \<lparr>en_event = ev, en_attempts = 0, en_last_error = None, en_available = micros now,
      en_published = None\<rparr>"

definition with_event :: "time \<Rightarrow> event \<Rightarrow> ledger \<Rightarrow> ledger" where
  "with_event now ev l = l\<lparr>outbox := outbox l @ [new_entry now ev]\<rparr>"

lemma new_entry_simps [simp]:
  "en_event (new_entry now ev) = ev" "en_published (new_entry now ev) = None"
  "en_attempts (new_entry now ev) = 0"
  by (simp_all add: new_entry_def)

text \<open>An event marshals only when its instants can be written, and then it survives the trip.\<close>

lemma marshal_event_safe:
  assumes "marshal_event lib ev = Inr j" and "event_texts_ok ev"
  shows "json_safe_event ev" and "payload lib ev = j"
proof -
  show "json_safe_event ev"
    using assms by (auto simp: marshal_event_def marshal_company_def marshal_time_def
        json_safe_event_def json_safe_company_def event_texts_ok_def company_texts_ok_def text_ok_def
        split: if_splits option.splits sum.splits)
  show "payload lib ev = j" using assms by (simp add: payload_def)
qed

lemma marshal_event_Inl: "marshal_event lib ev = Inl e \<Longrightarrow> opaque_error e"
  by (auto simp: marshal_event_def marshal_company_def marshal_time_def
      split: if_splits option.splits sum.splits)

lemma uuid_String_nul: "uuid_lib_ok lib \<Longrightarrow> CHR 0x00 \<notin> set (uuid_String lib u)"
  by (force simp: uuid_lib_ok_def byte_def)

lemma payload_storable:
  assumes "uuid_lib_ok lib" and "marshal_event lib ev = Inr j" and "event_texts_ok ev"
  shows "json_storable j"
  using assms uuid_String_nul [OF assms(1)]
  by (auto simp: marshal_event_def marshal_company_def marshal_time_def event_texts_ok_def
      company_texts_ok_def text_ok_def split: if_splits option.splits sum.splits)

text \<open>The unique violation of the outbox.\<close>

definition duplicate_event :: goerr where
  "duplicate_event =
     PgError ''23505'' ''outbox_events_pkey'' ''duplicate key value violates unique constraint''"

lemma opaque_duplicate_event [simp]: "opaque_error duplicate_event"
  by (simp add: duplicate_event_def)

lemma col_row_of_entry [simp]:
  "col (row_of_entry lib en) ''id'' = VUuid (entry_id en)"
  "col (row_of_entry lib en) ''event_type'' = VText (e_Type (en_event en))"
  "col (row_of_entry lib en) ''aggregate_id'' = VUuid (CompanyID (en_event en))"
  "col (row_of_entry lib en) ''payload'' = VJson (payload lib (en_event en))"
  "col (row_of_entry lib en) ''attempts'' = VInt (en_attempts en)"
  "col (row_of_entry lib en) ''available_at'' = VTime (en_available en)"
  "col (row_of_entry lib en) ''published_at''
     = (case en_published en of None \<Rightarrow> VNull | Some t \<Rightarrow> VTime t)"
  "col (row_of_entry lib en) ''created_at'' = VTime (micros (OccurredAt (en_event en)))"
  by (simp_all add: row_of_entry_def col_def)

lemma entry_row_violation:
  assumes "0 \<le> en_attempts en"
  shows "row_violation outbox_events_table (map (row_of_entry lib) es) (row_of_entry lib en) =
    (if entry_id en \<in> entry_id ` set es then Some duplicate_event else None)"
proof -
  have "null_violation outbox_events_table (row_of_entry lib en) = None"
    by (simp add: null_violation_def outbox_events_table_def)
  moreover have "check_violation outbox_events_table (row_of_entry lib en) = None"
    using assms by (simp add: check_violation_def outbox_events_table_def)
  moreover have "unique_violation outbox_events_table (map (row_of_entry lib) es)
      (row_of_entry lib en) = (if entry_id en \<in> entry_id ` set es then Some duplicate_event else None)"
    by (auto simp: unique_violation_def outbox_events_table_def list_ex_iff duplicate_event_def
        image_iff dest: sym)
  ultimately show ?thesis by (simp add: row_violation_def)
qed

definition event_values :: "event \<Rightarrow> json \<Rightarrow> (string \<times> sqlval) list" where
  "event_values ev j =
     [(''id'', VUuid (e_ID ev)), (''event_type'', VText (e_Type ev)),
      (''aggregate_id'', VUuid (CompanyID ev)), (''payload'', VJson j),
      (''created_at'', VTime (OccurredAt ev))]"

lemma build_entry_row:
  assumes "text_ok (e_Type ev)" and "json_storable j" and "payload lib ev = j"
  shows "build_row now (columns outbox_events_table) (event_values ev j)
    = Inr (row_of_entry lib (new_entry now ev))"
  using assms
  by (simp add: outbox_events_table_def event_values_def row_of_entry_def new_entry_def int4_ok_def)

lemma exec_outbox_insert:
  assumes lib: "uuid_lib_ok lib" and j: "marshal_event lib ev = Inr j" and ev: "event_texts_ok ev"
  shows "sql_exec now (outbox_insert ev j) (conc lib l) =
    (if e_ID ev \<in> entry_id ` set (outbox l) then Inl duplicate_event
     else Inr ([], 1, conc lib (with_event now ev l)))"
proof -
  have "build_row now (columns outbox_events_table) (event_values ev j)
      = Inr (row_of_entry lib (new_entry now ev))"
    using ev payload_storable [OF assms] marshal_event_safe(2) [OF j ev]
    by (simp add: build_entry_row event_texts_ok_def)
  moreover have "map (row_of_entry lib) (outbox l) @ [row_of_entry lib (new_entry now ev)]
      = map (row_of_entry lib) (outbox l @ [new_entry now ev])" by simp
  ultimately show ?thesis
    by (simp add: outbox_insert_def event_values_def with_event_def entry_row_violation
        del: map_append)
qed

lemma ledger_ok_with_event:
  assumes "ledger_ok l" and "json_safe_event ev" and "e_ID ev \<notin> entry_id ` set (outbox l)"
  shows "ledger_ok (with_event now ev l)"
  using assms by (auto simp: ledger_ok_def with_event_def entry_ok_def comp_def)

subsection \<open>Fetching\<close>

definition due :: "time \<Rightarrow> entry \<Rightarrow> bool" where
  "due now en \<longleftrightarrow> en_published en = None \<and> en_available en \<le> now"

definition pending :: "time \<Rightarrow> nat \<Rightarrow> ledger \<Rightarrow> entry list" where
  "pending now n l =
     take n (sort_key (\<lambda>en. micros (OccurredAt (en_event en))) (filter (due now) (outbox l)))"

definition outbox_event_of :: "entry \<Rightarrow> outbox_event" where
  "outbox_event_of en = \<lparr>o_ID = entry_id en, o_Event = en_event en, o_Attempts = en_attempts en\<rparr>"

lemma insort_key_map: "insort_key k (f x) (map f xs) = map f (insort_key (k \<circ> f) x xs)"
  by (induction xs) auto

lemma sort_key_map: "sort_key k (map f xs) = map f (sort_key (k \<circ> f) xs)"
  by (induction xs) (simp_all add: insort_key_map, simp add: comp_def)

lemma exec_outbox_select:
  "sql_exec now (outbox_select n) (conc lib l) =
     Inr (map (\<lambda>en. [VUuid (entry_id en), VJson (payload lib (en_event en)), VInt (en_attempts en)])
            (pending now n l), 0, conc lib l)"
proof -
  have "matches now [IsNull ''published_at'', LeNow ''available_at''] \<circ> row_of_entry lib = due now"
    by (auto simp: fun_eq_iff matches_def due_def split: option.splits)
  moreover have "time_key ''created_at'' \<circ> row_of_entry lib
      = (\<lambda>en. micros (OccurredAt (en_event en)))"
    by (auto simp: fun_eq_iff time_key_def)
  ultimately have "selected now [IsNull ''published_at'', LeNow ''available_at'']
      (Some ''created_at'') (Some n) (map (row_of_entry lib) (outbox l))
      = map (row_of_entry lib) (pending now n l)"
    by (simp add: selected_def filter_map sort_key_map pending_def take_map Let_def)
  then show ?thesis by (simp add: outbox_select_def comp_def)
qed

lemma scan_outbox_entries:
  assumes "uuid_lib_ok lib" and "\<forall>en\<in>set es. entry_ok en"
  shows "scan_outbox lib
      (map (\<lambda>en. [VUuid (entry_id en), VJson (payload lib (en_event en)), VInt (en_attempts en)]) es) acc
    = Inr (acc @ map outbox_event_of es)"
  using assms
  by (induction es arbitrary: acc) (auto simp: payload_eq entry_ok_def outbox_event_of_def)

lemma set_pending: "set (pending now n l) \<subseteq> {en \<in> set (outbox l). due now en}"
  by (auto simp: pending_def dest: in_set_takeD)

lemma distinct_pending:
  assumes "ledger_ok l"
  shows "distinct (map entry_id (pending now n l))"
proof -
  have "inj_on entry_id (set (pending now n l))"
    using assms set_pending [of now n l]
    by (auto simp: ledger_ok_def comp_def distinct_map intro: inj_on_subset)
  moreover have "distinct (pending now n l)"
    using assms by (auto simp: ledger_ok_def pending_def distinct_map intro!: distinct_take)
  ultimately show ?thesis by (simp add: distinct_map)
qed

subsection \<open>Marking\<close>

definition marked_published :: "time \<Rightarrow> entry \<Rightarrow> entry" where
  "marked_published now en = en\<lparr>en_published := Some (micros now), en_last_error := None\<rparr>"

definition marked_failed :: "time \<Rightarrow> string \<Rightarrow> entry \<Rightarrow> entry" where
  "marked_failed now msg en =
     en\<lparr>en_attempts := en_attempts en + 1, en_last_error := Some msg,
        en_available := micros (now + 10 * 1000000000)\<rparr>"

definition with_entry :: "uuid \<Rightarrow> (entry \<Rightarrow> entry) \<Rightarrow> ledger \<Rightarrow> ledger" where
  "with_entry i g l = l\<lparr>outbox := replace_by entry_id i g (outbox l)\<rparr>"

lemma matches_entry [simp]:
  "matches now [Eq ''id'' (VUuid i)] (row_of_entry lib en) \<longleftrightarrow> entry_id en = i"
  by (auto simp: matches_def)

text \<open>One lemma for both updates: assigning to the one row with a given id.\<close>

lemma exec_entry_update:
  assumes l: "ledger_ok l"
    and sets: "bind_sets outbox_events_table sets = Inr sets'"
    and assign: "\<And>en. en \<in> set (outbox l) \<Longrightarrow> entry_id en = i \<Longrightarrow>
      assign now outbox_events_table (row_of_entry lib en) sets' (row_of_entry lib en)
        = Inr (row_of_entry lib (g en))"
    and g: "\<And>en. en \<in> set (outbox l) \<Longrightarrow> entry_id (g en) = entry_id en \<and> 0 \<le> en_attempts (g en)"
  shows "sql_exec now (UpdateSet ''outbox_events'' sets [Eq ''id'' (VUuid i)]) (conc lib l)
    = Inr ([], if i \<in> entry_id ` set (outbox l) then 1 else 0, conc lib (with_entry i g l))"
proof (cases "i \<in> entry_id ` set (outbox l)")
  case False
  then have none: "\<forall>en\<in>set (outbox l). entry_id en \<noteq> i" by (auto simp: image_iff)
  then have "update_rows now outbox_events_table sets' [Eq ''id'' (VUuid i)] []
      (map (row_of_entry lib) (outbox l)) = Inr (map (row_of_entry lib) (outbox l), 0)"
    by (subst update_rows_none) simp_all
  moreover from none have "replace_by entry_id i g (outbox l) = outbox l"
    by (auto simp: replace_by_def intro!: map_idI)
  ultimately show ?thesis using False sets by (simp add: with_entry_def)
next
  case True
  from l have "distinct (map entry_id (outbox l))" by (simp add: ledger_ok_def comp_def)
  from split_by_key [OF this True] obtain xs en ys where o: "outbox l = xs @ en # ys"
    and en: "entry_id en = i" and xs: "\<forall>x\<in>set xs. entry_id x \<noteq> i"
    and ys: "\<forall>x\<in>set ys. entry_id x \<noteq> i" by blast
  have "entry_id (g en) = i" "0 \<le> en_attempts (g en)" using g [of en] o en by auto
  moreover have "i \<notin> entry_id ` set (xs @ ys)" using xs ys by auto
  ultimately have "row_violation outbox_events_table
      (map (row_of_entry lib) xs @ map (row_of_entry lib) ys) (row_of_entry lib (g en)) = None"
    using entry_row_violation [of "g en" lib "xs @ ys"] by simp
  then have "update_rows now outbox_events_table sets' [Eq ''id'' (VUuid i)] []
      (map (row_of_entry lib) (outbox l)) = Inr (map (row_of_entry lib) (xs @ g en # ys), 1)"
    using o en xs ys assign [of en] by (simp add: update_rows_one)
  moreover have "replace_by entry_id i g (outbox l) = xs @ g en # ys"
    using o en xs ys by (simp add: replace_by_split)
  ultimately show ?thesis using True sets by (simp add: with_entry_def del: map_append list.map)
qed

lemma exec_outbox_published:
  assumes "ledger_ok l"
  shows "sql_exec now (outbox_published i) (conc lib l)
    = Inr ([], if i \<in> entry_id ` set (outbox l) then 1 else 0,
        conc lib (with_entry i (marked_published now) l))"
  unfolding outbox_published_def
proof (rule exec_entry_update [OF assms])
  show "bind_sets outbox_events_table [(''published_at'', NowExpr), (''last_error'', Bind VNull)]
    = Inr [(''published_at'', NowExpr), (''last_error'', Bind VNull)]" by simp
  show "assign now outbox_events_table (row_of_entry lib en)
      [(''published_at'', NowExpr), (''last_error'', Bind VNull)] (row_of_entry lib en)
    = Inr (row_of_entry lib (marked_published now en))" for en
    by (simp add: row_of_entry_def marked_published_def)
  show "entry_id (marked_published now en) = entry_id en \<and> 0 \<le> en_attempts (marked_published now en)"
    if "en \<in> set (outbox l)" for en
    using assms that by (simp add: marked_published_def ledger_ok_def entry_ok_def)
qed

lemma exec_outbox_failed:
  assumes l: "ledger_ok l" and msg: "text_ok msg"
    and small: "\<forall>en\<in>set (outbox l). entry_id en = i \<longrightarrow> int4_ok (en_attempts en + 1)"
  shows "sql_exec now (outbox_failed i msg) (conc lib l)
    = Inr ([], if i \<in> entry_id ` set (outbox l) then 1 else 0,
        conc lib (with_entry i (marked_failed now msg) l))"
  unfolding outbox_failed_def
proof (rule exec_entry_update [OF l])
  let ?sets = "[(''attempts'', ColumnPlus ''attempts'' 1), (''last_error'', Bind (VText msg)),
    (''available_at'', NowPlusSeconds 10)]"
  show "bind_sets outbox_events_table ?sets = Inr ?sets" using msg by simp
  show "assign now outbox_events_table (row_of_entry lib en) ?sets (row_of_entry lib en)
    = Inr (row_of_entry lib (marked_failed now msg en))"
    if "en \<in> set (outbox l)" "entry_id en = i" for en
    using small that msg by (simp add: row_of_entry_def marked_failed_def col_def)
  show "entry_id (marked_failed now msg en) = entry_id en \<and> 0 \<le> en_attempts (marked_failed now msg en)"
    if "en \<in> set (outbox l)" for en
    using l that by (simp add: marked_failed_def ledger_ok_def entry_ok_def)
qed

text \<open>The two ways in which recording a failure can fail itself.\<close>

lemma exec_outbox_failed_error:
  assumes l: "ledger_ok l"
    and bad: "\<not> text_ok msg \<or> (\<exists>en\<in>set (outbox l). entry_id en = i \<and> \<not> int4_ok (en_attempts en + 1))"
  shows "\<exists>e. sql_exec now (outbox_failed i msg) (conc lib l) = Inl e \<and> internal_error e"
proof (cases "text_ok msg")
  case False
  then show ?thesis by (simp add: outbox_failed_def constraint_defs)
next
  case True
  with bad obtain en where en: "en \<in> set (outbox l)" "entry_id en = i"
    "\<not> int4_ok (en_attempts en + 1)" by blast
  from l have dist: "distinct (map entry_id (outbox l))" by (simp add: ledger_ok_def comp_def)
  from en have "i \<in> entry_id ` set (outbox l)" by auto
  from split_by_key [OF dist this] obtain xs en' ys where o: "outbox l = xs @ en' # ys"
    and en': "entry_id en' = i" and xs: "\<forall>x\<in>set xs. entry_id x \<noteq> i"
    and ys: "\<forall>x\<in>set ys. entry_id x \<noteq> i" by blast
  from o en en' xs ys have "en' = en" by auto
  with o xs ys en True show ?thesis
    by (simp add: outbox_failed_def update_rows_one constraint_defs)
qed

lemma ledger_ok_with_entry:
  assumes "ledger_ok l"
    and g: "\<And>en. en \<in> set (outbox l) \<Longrightarrow> en_event (g en) = en_event en \<and> en_attempts en \<le> en_attempts (g en)"
  shows "ledger_ok (with_entry i g l)"
proof -
  have ids: "map entry_id (replace_by entry_id i g (outbox l)) = map entry_id (outbox l)"
    using g by (auto simp: replace_by_def)
  have "entry_ok en" if "en \<in> set (replace_by entry_id i g (outbox l))" for en
  proof -
    from that obtain en0 where en0: "en0 \<in> set (outbox l)" "en = en0 \<or> en = g en0"
      by (auto simp: replace_by_def split: if_splits)
    moreover have "entry_ok en0" using assms(1) en0 by (simp add: ledger_ok_def)
    ultimately show ?thesis using g [of en0] by (auto simp: entry_ok_def)
  qed
  with assms(1) ids show ?thesis by (simp add: ledger_ok_def with_entry_def comp_def)
qed

lemma ledger_ok_marked:
  assumes "ledger_ok l"
  shows "ledger_ok (with_entry i (marked_published now) l)"
    and "ledger_ok (with_entry i (marked_failed now msg) l)"
  using assms by (auto intro!: ledger_ok_with_entry simp: marked_published_def marked_failed_def)

end
