(* ===== verification/Server.thy ===== *)
theory Server
  imports OutboxTable
begin

text \<open>
  What the postgres package relies on: the contract of the driver and the server behind it, as the
  locale \<open>sql_server\<close>, and a reference server that satisfies it.

  The contract is the documented behaviour of PostgreSQL and pgx for transactions that run one
  after another.  A statement has the outcome that \<^const>\<open>sql_exec\<close> gives it on the tables that its
  executor sees, or it fails and then nobody relies on what the transaction has done.  What a
  transaction does stays invisible until it commits.  Every call may fail, and a call that reports
  an error may have been carried out: a commit, or a statement outside a transaction, whose answer
  is lost.  The rest of the world (\<open>outside\<close>, whatever is looked at of it) is left alone.
\<close>

subsection \<open>Answers\<close>

type_synonym outcome = "goerr + sqlval list list \<times> nat \<times> database"

definition exec_answer :: "outcome \<Rightarrow> goerr + nat \<Rightarrow> database option \<Rightarrow> bool" where
  "exec_answer out r after \<longleftrightarrow>
     (case r of
        Inr n \<Rightarrow> \<exists>rows db. out = Inr (rows, n, db) \<and> after = Some db
      | Inl e \<Rightarrow> internal_error e \<or> out = Inl e)"

definition query_answer ::
    "outcome \<Rightarrow> goerr + sqlval list list \<times> goerr option \<Rightarrow> database option \<Rightarrow> bool" where
  "query_answer out r after \<longleftrightarrow>
     (case r of
        Inr (rows, None) \<Rightarrow> \<exists>n db. out = Inr (rows, n, db) \<and> after = Some db
      | Inr (rows, Some e) \<Rightarrow> internal_error e
      | Inl e \<Rightarrow> internal_error e \<or> out = Inl e)"

definition row_answer :: "outcome \<Rightarrow> goerr + sqlval list \<Rightarrow> database option \<Rightarrow> bool" where
  "row_answer out r after \<longleftrightarrow>
     (case r of
        Inr row \<Rightarrow> \<exists>rows n db. out = Inr (row # rows, n, db) \<and> after = Some db
      | Inl e \<Rightarrow> internal_error e \<or> out = Inl e
          \<or> (e = ErrNoRows \<and> (\<exists>n db. out = Inr ([], n, db) \<and> after = Some db)))"

text \<open>What a statement may leave of the tables seen outside transactions.\<close>

definition carried_out_or_not :: "outcome \<Rightarrow> database \<Rightarrow> database option \<Rightarrow> bool" where
  "carried_out_or_not out db after \<longleftrightarrow>
     after = Some db \<or> (\<exists>rows n db'. out = Inr (rows, n, db') \<and> after = Some db')"

definition pool_frame :: "(executor \<Rightarrow> 'w \<Rightarrow> database option) \<Rightarrow> executor \<Rightarrow> outcome \<Rightarrow> 'w \<Rightarrow> 'w \<Rightarrow> bool" where
  "pool_frame tables x out w w' \<longleftrightarrow>
     (case x of
        TxExecutor t \<Rightarrow> tables PoolExecutor w' = tables PoolExecutor w
      | PoolExecutor \<Rightarrow>
          (\<forall>db. tables PoolExecutor w = Some db \<longrightarrow>
             carried_out_or_not out db (tables PoolExecutor w')))"

subsection \<open>The contract\<close>

locale sql_server =
  fixes pg :: "'w driver"
    and tables :: "executor \<Rightarrow> 'w \<Rightarrow> database option"
    and now :: "executor \<Rightarrow> 'w \<Rightarrow> time"
    and outside :: "'w \<Rightarrow> 's"
  assumes ToSql_error: "ToSql pg st = Some e \<Longrightarrow> internal_error e"
    and Exec_answer: "tables x w = Some db \<Longrightarrow> Exec pg x st w = (r1, w') \<Longrightarrow>
      exec_answer (sql_exec (now x w) st db) r1 (tables x w')
      \<and> pool_frame tables x (sql_exec (now x w) st db) w w'"
    and Query_answer: "tables x w = Some db \<Longrightarrow> Query pg x st w = (r2, w') \<Longrightarrow>
      query_answer (sql_exec (now x w) st db) r2 (tables x w')
      \<and> pool_frame tables x (sql_exec (now x w) st db) w w'"
    and QueryRow_answer: "tables x w = Some db \<Longrightarrow> QueryRow pg x st w = (r3, w') \<Longrightarrow>
      row_answer (sql_exec (now x w) st db) r3 (tables x w')
      \<and> pool_frame tables x (sql_exec (now x w) st db) w w'"
    and Begin_answer: "Begin pg w = (r4, w') \<Longrightarrow>
      tables PoolExecutor w' = tables PoolExecutor w
      \<and> (case r4 of Inr t \<Rightarrow> tables (TxExecutor t) w' = tables PoolExecutor w
                 | Inl e \<Rightarrow> internal_error e)"
    and Commit_answer: "tables (TxExecutor t) w = Some db \<Longrightarrow> Commit pg t w = (r5, w') \<Longrightarrow>
      (case r5 of None \<Rightarrow> tables PoolExecutor w' = Some db
               | Some e \<Rightarrow> internal_error e \<and>
                   (tables PoolExecutor w' = tables PoolExecutor w
                    \<or> tables PoolExecutor w' = Some db))"
    and Rollback_answer: "Rollback pg t w = (r5, w') \<Longrightarrow>
      tables PoolExecutor w' = tables PoolExecutor w"
    and statements_outside: "outside (snd (Exec pg x st w)) = outside w"
      "outside (snd (Query pg x st w)) = outside w"
      "outside (snd (QueryRow pg x st w)) = outside w"
    and transactions_outside: "outside (snd (Begin pg w)) = outside w"
      "outside (snd (Commit pg t w)) = outside w"
      "outside (snd (Rollback pg t w)) = outside w"

subsection \<open>The reference server\<close>

text \<open>
  The state of the server: the committed tables, the open transactions (their working copy, gone
  once a statement has failed, and the instant they began), the clock, and what is going to happen
  to the next calls: a call works, or is refused, or is carried out while its answer is lost.
\<close>

datatype fault = Works | Refused string | Lost string

record dbserver =
  committed :: database
  txs :: "tx_handle \<Rightarrow> (database option \<times> time) option"
  next_tx :: nat
  db_clock :: time
  faults :: "fault list"

definition next_fault :: "('z dbserver_scheme) \<Rightarrow> fault \<times> 'z dbserver_scheme" where
  "next_fault w = (case faults w of [] \<Rightarrow> (Works, w) | f # fs \<Rightarrow> (f, w\<lparr>faults := fs\<rparr>))"

definition server_tables :: "executor \<Rightarrow> 'z dbserver_scheme \<Rightarrow> database option" where
  "server_tables x w =
     (case x of
        PoolExecutor \<Rightarrow> Some (committed w)
      | TxExecutor t \<Rightarrow> (case txs w t of None \<Rightarrow> None | Some (d, s) \<Rightarrow> d))"

definition server_now :: "executor \<Rightarrow> 'z dbserver_scheme \<Rightarrow> time" where
  "server_now x w =
     (case x of
        PoolExecutor \<Rightarrow> db_clock w
      | TxExecutor t \<Rightarrow> (case txs w t of None \<Rightarrow> db_clock w | Some (d, s) \<Rightarrow> s))"

text \<open>The tables after a statement: those of the executor that ran it.\<close>

definition put_tables :: "executor \<Rightarrow> database option \<Rightarrow> 'z dbserver_scheme \<Rightarrow> 'z dbserver_scheme" where
  "put_tables x d w =
     (case x of
        PoolExecutor \<Rightarrow> (case d of None \<Rightarrow> w | Some db \<Rightarrow> w\<lparr>committed := db\<rparr>)
      | TxExecutor t \<Rightarrow> w\<lparr>txs := (txs w)(t \<mapsto> (d, server_now x w))\<rparr>)"

definition aborted :: goerr where
  "aborted = PgError ''25P02'' '''' ''current transaction is aborted''"

definition run :: "executor \<Rightarrow> stmt \<Rightarrow> ('z dbserver_scheme, goerr, sqlval list list \<times> nat) io" where
  "run x st w0 =
     (case next_fault w0 of (f, w) \<Rightarrow>
        (case server_tables x w of
           None \<Rightarrow> (Inl aborted, w)
         | Some db \<Rightarrow>
             (case f of
                Refused m \<Rightarrow> (Inl (OtherError m), put_tables x None w)
              | _ \<Rightarrow>
                  (case sql_exec (server_now x w) st db of
                     Inl e \<Rightarrow> (Inl e, put_tables x None w)
                   | Inr (rows, n, db') \<Rightarrow>
                       (case f of
                          Lost m \<Rightarrow> (Inl (OtherError m), put_tables x (Some db') w)
                        | _ \<Rightarrow> (Inr (rows, n), put_tables x (Some db') w))))))"

definition server_begin :: "('z dbserver_scheme, goerr, tx_handle) io" where
  "server_begin w0 =
     (case next_fault w0 of (f, w) \<Rightarrow>
        (case f of
           Works \<Rightarrow>
             (Inr (next_tx w),
              w\<lparr>txs := (txs w)(next_tx w \<mapsto> (Some (committed w), db_clock w)),
                next_tx := Suc (next_tx w)\<rparr>)
         | Refused m \<Rightarrow> (Inl (OtherError m), w)
         | Lost m \<Rightarrow> (Inl (OtherError m), w)))"

definition server_commit :: "tx_handle \<Rightarrow> ('z dbserver_scheme, goerr) cmd" where
  "server_commit t w0 =
     (case next_fault w0 of (f, w) \<Rightarrow>
        let w' = w\<lparr>txs := (txs w)(t := None)\<rparr> in
        (case server_tables (TxExecutor t) w of
           None \<Rightarrow> (Some (OtherError ''commit unexpectedly resulted in rollback''), w')
         | Some db \<Rightarrow>
             (case f of
                Works \<Rightarrow> (None, w'\<lparr>committed := db\<rparr>)
              | Refused m \<Rightarrow> (Some (OtherError m), w')
              | Lost m \<Rightarrow> (Some (OtherError m), w'\<lparr>committed := db\<rparr>))))"

definition server_rollback :: "tx_handle \<Rightarrow> ('z dbserver_scheme, goerr) cmd" where
  "server_rollback t w0 =
     (case next_fault w0 of (f, w) \<Rightarrow>
        let w' = w\<lparr>txs := (txs w)(t := None)\<rparr> in
        (case f of
           Works \<Rightarrow> (None, w')
         | Refused m \<Rightarrow> (Some (OtherError m), w')
         | Lost m \<Rightarrow> (Some (OtherError m), w')))"

definition map_result :: "('a \<Rightarrow> 'e + 'b) \<Rightarrow> ('w, 'e, 'a) io \<Rightarrow> ('w, 'e, 'b) io" where
  "map_result f m w = (case m w of (Inl e, w') \<Rightarrow> (Inl e, w') | (Inr a, w') \<Rightarrow> (f a, w'))"

definition reference_driver :: "('z dbserver_scheme) driver" where
  "reference_driver =
     \<lparr>ToSql = (\<lambda>st. None),
      Exec = (\<lambda>x st. map_result (\<lambda>(rows, n). Inr n) (run x st)),
      Query = (\<lambda>x st. map_result (\<lambda>(rows, n). Inr (rows, None)) (run x st)),
      QueryRow = (\<lambda>x st. map_result
        (\<lambda>(rows, n). case rows of [] \<Rightarrow> Inl ErrNoRows | r # rs \<Rightarrow> Inr r) (run x st)),
      Begin = server_begin, Commit = server_commit, Rollback = server_rollback\<rparr>"

subsection \<open>It satisfies the contract\<close>

lemma next_fault_frame:
  "next_fault w0 = (f, w) \<Longrightarrow>
   server_tables x w = server_tables x w0 \<and> server_now x w = server_now x w0
   \<and> committed w = committed w0 \<and> txs w = txs w0 \<and> next_tx w = next_tx w0
   \<and> db_clock w = db_clock w0"
  by (auto simp: next_fault_def server_tables_def server_now_def split: list.splits executor.split option.split)

lemma server_tables_put:
  "server_tables x (put_tables x (Some db) w) = Some db"
  "server_tables PoolExecutor (put_tables (TxExecutor t) d w) = server_tables PoolExecutor w"
  "server_tables PoolExecutor (put_tables PoolExecutor None w) = server_tables PoolExecutor w"
  by (simp_all add: server_tables_def put_tables_def split: executor.split)

text \<open>The one fact about \<^const>\<open>run\<close> that the laws of the three ways to call it come from.\<close>

lemma run_outcome:
  assumes "server_tables x w = Some db" and "run x st w = (r, w')"
  shows "(case r of
       Inr (rows, n) \<Rightarrow> \<exists>db'. sql_exec (server_now x w) st db = Inr (rows, n, db')
         \<and> server_tables x w' = Some db'
     | Inl e \<Rightarrow> internal_error e \<or> sql_exec (server_now x w) st db = Inl e)
     \<and> pool_frame server_tables x (sql_exec (server_now x w) st db) w w'"
proof -
  obtain f w1 where f: "next_fault w = (f, w1)" by fastforce
  note frame = next_fault_frame [OF f, of x] next_fault_frame [OF f, of PoolExecutor]
  show ?thesis
  proof (cases "sql_exec (server_now x w) st db")
    case (Inl e)
    with assms f frame show ?thesis
      by (cases f; cases x)
         (auto simp: run_def pool_frame_def carried_out_or_not_def server_tables_put)
  next
    case (Inr o')
    obtain rows n db' where "o' = (rows, n, db')" by (cases o')
    with Inr assms f frame show ?thesis
      by (cases f; cases x)
         (auto simp: run_def pool_frame_def carried_out_or_not_def server_tables_put)
  qed
qed

lemma run_exec:
  assumes "server_tables x w = Some db" and "Exec reference_driver x st w = (r, w')"
  shows "exec_answer (sql_exec (server_now x w) st db) r (server_tables x w')
    \<and> pool_frame server_tables x (sql_exec (server_now x w) st db) w w'"
proof -
  obtain r0 w1 where run: "run x st w = (r0, w1)" by fastforce
  from run_outcome [OF assms(1) run] assms(2) run show ?thesis
    by (cases r0) (auto simp: reference_driver_def map_result_def exec_answer_def)
qed

lemma run_query:
  assumes "server_tables x w = Some db" and "Query reference_driver x st w = (r, w')"
  shows "query_answer (sql_exec (server_now x w) st db) r (server_tables x w')
    \<and> pool_frame server_tables x (sql_exec (server_now x w) st db) w w'"
proof -
  obtain r0 w1 where run: "run x st w = (r0, w1)" by fastforce
  from run_outcome [OF assms(1) run] assms(2) run show ?thesis
    by (cases r0) (auto simp: reference_driver_def map_result_def query_answer_def)
qed

lemma run_query_row:
  assumes "server_tables x w = Some db" and "QueryRow reference_driver x st w = (r, w')"
  shows "row_answer (sql_exec (server_now x w) st db) r (server_tables x w')
    \<and> pool_frame server_tables x (sql_exec (server_now x w) st db) w w'"
proof -
  obtain r0 w1 where run: "run x st w = (r0, w1)" by fastforce
  from run_outcome [OF assms(1) run] assms(2) run show ?thesis
    by (cases r0) (auto simp: reference_driver_def map_result_def row_answer_def split: list.splits)
qed

lemma next_fault_more: "next_fault w0 = (f, w) \<Longrightarrow> dbserver.more w = dbserver.more w0"
  by (auto simp: next_fault_def split: list.splits)

lemma run_more: "dbserver.more (snd (run x st w)) = dbserver.more w"
proof -
  obtain f w1 where f: "next_fault w = (f, w1)" by fastforce
  have "dbserver.more (put_tables x d w1) = dbserver.more w1" for d
    by (simp add: put_tables_def split: executor.split option.split)
  with f next_fault_more [OF f] show ?thesis
    by (auto simp: run_def split: option.split fault.split sum.split)
qed

interpretation reference: sql_server reference_driver server_tables server_now "dbserver.more"
proof
  show "Begin reference_driver w = (r, w') \<Longrightarrow>
      server_tables PoolExecutor w' = server_tables PoolExecutor w
      \<and> (case r of Inr t \<Rightarrow> server_tables (TxExecutor t) w' = server_tables PoolExecutor w
                 | Inl e \<Rightarrow> internal_error e)" for w w' :: "'z dbserver_scheme" and r
    by (cases "next_fault w") (auto simp: reference_driver_def server_begin_def server_tables_def
        dest!: next_fault_frame split: fault.splits)
  show "server_tables (TxExecutor t) w = Some db \<Longrightarrow> Commit reference_driver t w = (r, w') \<Longrightarrow>
      (case r of None \<Rightarrow> server_tables PoolExecutor w' = Some db
               | Some e \<Rightarrow> internal_error e \<and>
                   (server_tables PoolExecutor w' = server_tables PoolExecutor w
                    \<or> server_tables PoolExecutor w' = Some db))"
    for t w w' r db
    by (cases "next_fault w") (auto simp: reference_driver_def server_commit_def server_tables_def
        Let_def dest!: next_fault_frame split: fault.splits option.splits)
  show "Rollback reference_driver t w = (r, w') \<Longrightarrow>
      server_tables PoolExecutor w' = server_tables PoolExecutor w" for t w w' r
    by (cases "next_fault w") (auto simp: reference_driver_def server_rollback_def server_tables_def
        Let_def dest!: next_fault_frame split: fault.splits)
  show "dbserver.more (snd (Exec reference_driver x st w)) = dbserver.more w"
    "dbserver.more (snd (Query reference_driver x st w)) = dbserver.more w"
    "dbserver.more (snd (QueryRow reference_driver x st w)) = dbserver.more w"
    for x st and w :: "'z dbserver_scheme"
    using run_more [of x st w]
    by (auto simp: reference_driver_def map_result_def split: prod.split sum.split)
  show "dbserver.more (snd (Begin reference_driver w)) = dbserver.more w"
    "dbserver.more (snd (Commit reference_driver t w)) = dbserver.more w"
    "dbserver.more (snd (Rollback reference_driver t w)) = dbserver.more w"
    for t and w :: "'z dbserver_scheme"
    using next_fault_more [of w]
    by (auto simp: reference_driver_def server_begin_def server_commit_def server_rollback_def
        Let_def split: prod.split fault.split option.split)
qed (simp_all add: run_exec run_query run_query_row, simp add: reference_driver_def)

end
