(* ===== verification/Service.thy ===== *)
theory Service
  imports Postgres
begin

text \<open>
  The application service (\<^verbatim>\<open>internal/application/company/service.go\<close>): the use cases create, patch,
  delete and get, each change in a transaction together with the event that announces it.

  A service is the record of its dependencies.  A closure run by \<^verbatim>\<open>withinTransaction\<close> leaves its
  result in a captured variable; here it returns the company it leaves there (\<^verbatim>\<open>DeleteCompany\<close> drops
  it).  The logger is never called by the service and is left out.
\<close>

record 'w Service =
  svc_repo :: "'w Repository"
  svc_events :: "'w EventProducer option"
  svc_outbox :: "'w OutboxStore option"
  svc_tx :: "('w, company) TransactionRunner option"
  svc_now :: "'w \<Rightarrow> time \<times> 'w"
  svc_newUUID :: "'w \<Rightarrow> uuid \<times> 'w"

definition NewService :: "'w runtime \<Rightarrow> 'w Repository \<Rightarrow> 'w EventProducer option \<Rightarrow> 'w Service" where
  "NewService rt repo events =
     \<lparr>svc_repo = repo, svc_events = events, svc_outbox = None, svc_tx = None,
      svc_now = time_Now rt, svc_newUUID = uuid_New rt\<rparr>"

definition NewServiceWithOutbox ::
    "'w runtime \<Rightarrow> 'w Repository \<Rightarrow> 'w OutboxStore option \<Rightarrow> ('w, company) TransactionRunner option
     \<Rightarrow> 'w Service" where
  "NewServiceWithOutbox rt repo outbox tx =
     \<lparr>svc_repo = repo, svc_events = None, svc_outbox = outbox, svc_tx = tx,
      svc_now = time_Now rt, svc_newUUID = uuid_New rt\<rparr>"

definition Service_publish :: "'w Service \<Rightarrow> ctx \<Rightarrow> string \<Rightarrow> company \<Rightarrow> ('w, goerr) cmd" where
  "Service_publish s ctx eventType c w0 =
     (case svc_newUUID s w0 of (i, w1) \<Rightarrow>
      case svc_now s w1 of (t, w2) \<Rightarrow>
        let ev = \<lparr>e_ID = i, e_Type = eventType, OccurredAt = t, CompanyID = ID c, Company = Some c\<rparr>
        in
        (case svc_outbox s of
           Some outbox \<Rightarrow>
             try_cmd (Store outbox ctx ev)
               (\<lambda>err. Some (wrap ''store company event in outbox'' err)) (\<lambda>w. (None, w)) w2
         | None \<Rightarrow>
             (case svc_events s of
                None \<Rightarrow> (Some (OtherError ''event producer is not configured''), w2)
              | Some producer \<Rightarrow>
                  try_cmd (Publish producer ctx ev)
                    (\<lambda>err. Some (wrap ''publish company event'' err)) (\<lambda>w. (None, w)) w2)))"

definition Service_withinTransaction ::
    "'w Service \<Rightarrow> ctx \<Rightarrow> (ctx \<Rightarrow> ('w, goerr, company) io) \<Rightarrow> ('w, goerr, company) io" where
  "Service_withinTransaction s ctx fn =
     (case svc_tx s of None \<Rightarrow> fn ctx | Some tx \<Rightarrow> WithinTransaction tx ctx fn)"

text \<open>The closure of \<^verbatim>\<open>CreateCompany\<close> and the function around it.\<close>

definition create_in_tx :: "'w Service \<Rightarrow> company \<Rightarrow> ctx \<Rightarrow> ('w, goerr, company) io" where
  "create_in_tx s c ctx w0 =
     (case GetByName (svc_repo s) ctx (Name c) w0 of
        (Inr _, w) \<Rightarrow> (Inl (wrap ''create company'' ErrDuplicateName), w)
      | (Inl err, w) \<Rightarrow>
          if \<not> errors_Is err ErrNotFound then (Inl (wrap ''get company by name'' err), w)
          else
            try_cmd (Create (svc_repo s) ctx c) (\<lambda>err. Inl (wrap ''create company'' err))
              (try_cmd (Service_publish s ctx EventCompanyCreated c) Inl (\<lambda>w. (Inr c, w))) w)"

definition CreateCompany :: "'w runtime \<Rightarrow> 'w Service \<Rightarrow> ctx \<Rightarrow> create_input \<Rightarrow> ('w, goerr, company) io" where
  "CreateCompany rt s ctx input w0 =
     (case time_Now rt w0 of (t, w) \<Rightarrow>
        (case NewWithID t (i_ID input) (i_Name input) (i_Description input)
               (i_AmountOfEmployees input) (i_Registered input) (i_Type input) of
           Inl err \<Rightarrow> (Inl (wrap ''create company'' err), w)
         | Inr c \<Rightarrow> Service_withinTransaction s ctx (create_in_tx s c) w))"

definition patch_of_input :: "patch_input \<Rightarrow> patch" where
  "patch_of_input input =
     \<lparr>p_Name = pi_Name input, p_Description = pi_Description input,
      p_AmountOfEmployees = pi_AmountOfEmployees input, p_Registered = pi_Registered input,
      p_Type = pi_Type input\<rparr>"

text \<open>The check of \<^verbatim>\<open>PatchCompany\<close> that no other company has the new name.\<close>

definition name_is_free :: "'w Service \<Rightarrow> ctx \<Rightarrow> uuid \<Rightarrow> string option \<Rightarrow> ('w, goerr) cmd" where
  "name_is_free s ctx i new_name w0 =
     (case new_name of
        None \<Rightarrow> (None, w0)
      | Some n \<Rightarrow>
          (case GetByName (svc_repo s) ctx (TrimSpace n) w0 of
             (Inr found, w) \<Rightarrow>
               if ID found \<noteq> i then (Some (wrap ''patch company'' ErrDuplicateName), w)
               else (None, w)
           | (Inl err, w) \<Rightarrow>
               if \<not> errors_Is err ErrNotFound then (Some (wrap ''get company by name'' err), w)
               else (None, w)))"

definition patch_in_tx ::
    "'w runtime \<Rightarrow> 'w Service \<Rightarrow> uuid \<Rightarrow> patch_input \<Rightarrow> ctx \<Rightarrow> ('w, goerr, company) io" where
  "patch_in_tx rt s i input ctx =
     try_io (GetByID (svc_repo s) ctx i) (\<lambda>err. Inl (wrap ''get company by id'' err))
       (\<lambda>existing.
          try_cmd (name_is_free s ctx i (pi_Name input)) Inl
            (\<lambda>w. case time_Now rt w of (t, w) \<Rightarrow>
               (case ApplyPatch t (patch_of_input input) existing of
                  (Some err, existing) \<Rightarrow> (Inl (wrap ''apply company patch'' err), w)
                | (None, existing) \<Rightarrow>
                    try_cmd (Update (svc_repo s) ctx existing)
                      (\<lambda>err. Inl (wrap ''update company'' err))
                      (try_cmd (Service_publish s ctx EventCompanyUpdated existing) Inl
                         (\<lambda>w. (Inr existing, w))) w)))"

definition PatchCompany ::
    "'w runtime \<Rightarrow> 'w Service \<Rightarrow> ctx \<Rightarrow> uuid \<Rightarrow> patch_input \<Rightarrow> ('w, goerr, company) io" where
  "PatchCompany rt s ctx i input w =
     (if IsEmpty (patch_of_input input) then (Inl (wrap ''patch company'' ErrEmptyPatch), w)
      else Service_withinTransaction s ctx (patch_in_tx rt s i input) w)"

definition delete_in_tx :: "'w Service \<Rightarrow> uuid \<Rightarrow> ctx \<Rightarrow> ('w, goerr, company) io" where
  "delete_in_tx s i ctx =
     try_io (GetByID (svc_repo s) ctx i) (\<lambda>err. Inl (wrap ''get company by id'' err))
       (\<lambda>c. try_cmd (Delete (svc_repo s) ctx i) (\<lambda>err. Inl (wrap ''delete company'' err))
          (try_cmd (Service_publish s ctx EventCompanyDeleted c) Inl (\<lambda>w. (Inr c, w))))"

definition DeleteCompany :: "'w Service \<Rightarrow> ctx \<Rightarrow> uuid \<Rightarrow> ('w, goerr) cmd" where
  "DeleteCompany s ctx i w0 =
     (case Service_withinTransaction s ctx (delete_in_tx s i) w0 of
        (Inl err, w) \<Rightarrow> (Some err, w)
      | (Inr _, w) \<Rightarrow> (None, w))"

definition GetCompany :: "'w Service \<Rightarrow> ctx \<Rightarrow> uuid \<Rightarrow> ('w, goerr, company) io" where
  "GetCompany s ctx i =
     try_io (GetByID (svc_repo s) ctx i) (\<lambda>err. Inl (wrap ''get company by id'' err))
       (\<lambda>c w. (Inr c, w))"

end
