(* ===== verification/Contracts.thy ===== *)
theory Contracts
  imports Service OutboxTable
begin

text \<open>
  The contracts between the service and what it is built on, and the service's lemmas under them.

  \<open>company_store\<close> is what a repository of companies promises, \<open>event_store\<close> what an outbox promises,
  \<open>transactional\<close> what a transaction runner promises; each is stated over a view \<open>led ctx w\<close>: the
  ledger that calls with context \<open>ctx\<close> see, \<^term>\<open>None\<close> when the transaction of \<open>ctx\<close> cannot be used
  any more.  \<open>company_service\<close> puts them together with a runtime whose clock and random source leave
  the ledger alone.
\<close>

subsection \<open>Changes\<close>

text \<open>What a use case does to the companies, and the event that announces it.\<close>

datatype change = Created company | Updated company | Deleted company

fun change_type :: "change \<Rightarrow> string" where
  "change_type (Created c) = EventCompanyCreated"
| "change_type (Updated c) = EventCompanyUpdated"
| "change_type (Deleted c) = EventCompanyDeleted"

fun change_company :: "change \<Rightarrow> company" where
  "change_company (Created c) = c"
| "change_company (Updated c) = c"
| "change_company (Deleted c) = c"

fun apply_change :: "change \<Rightarrow> ledger \<Rightarrow> ledger" where
  "apply_change (Created c) l = with_company c l"
| "apply_change (Updated c) l = with_revision c l"
| "apply_change (Deleted c) l = without_company (ID c) l"

text \<open>Which changes a ledger admits.\<close>

fun admissible :: "ledger \<Rightarrow> change \<Rightarrow> bool" where
  "admissible l (Created c) \<longleftrightarrow> valid_company c \<and> storable c \<and> duplicate (members l) c = None"
| "admissible l (Updated c) \<longleftrightarrow>
     valid_company c \<and> storable c \<and> \<not> name_taken l (ID c) (Name c)
     \<and> (\<exists>d\<in>set (members l). ID d = ID c \<and> CreatedAt d = CreatedAt c)"
| "admissible l (Deleted c) \<longleftrightarrow> c \<in> set (members l)"

definition announces :: "event \<Rightarrow> change \<Rightarrow> bool" where
  "announces ev ch \<longleftrightarrow> e_Type ev = change_type ch \<and> CompanyID ev = ID (change_company ch)
     \<and> Company ev = Some (change_company ch)"

text \<open>The change has happened, and one new event that announces it is in the outbox.\<close>

definition recorded :: "change \<Rightarrow> ledger \<Rightarrow> ledger \<Rightarrow> bool" where
  "recorded ch l l' \<longleftrightarrow> admissible l ch
     \<and> (\<exists>t ev. announces ev ch \<and> e_ID ev \<notin> entry_id ` set (outbox l) \<and> json_safe_event ev
          \<and> l' = with_event t ev (apply_change ch l))"

lemma outbox_apply_change [simp]: "outbox (apply_change ch l) = outbox l"
  by (cases ch) (simp_all add: with_company_def with_revision_def without_company_def)

lemma ledger_ok_apply_change:
  assumes "ledger_ok l" and "admissible l ch"
  shows "ledger_ok (apply_change ch l)"
proof (cases ch)
  case (Updated c)
  with assms(2) have "ID c \<in> ID ` set (members l)" by (auto intro: rev_image_eqI)
  with assms Updated show ?thesis by (simp add: ledger_ok_with_revision)
qed (use assms in \<open>auto simp: ledger_ok_with_company ledger_ok_without_company\<close>)

lemma ledger_ok_recorded: "ledger_ok l \<Longrightarrow> recorded ch l l' \<Longrightarrow> ledger_ok l'"
  by (auto simp: recorded_def intro!: ledger_ok_with_event ledger_ok_apply_change)

lemma company_ok_texts: "company_ok c \<Longrightarrow> company_texts_ok c"
  by (auto simp: company_ok_def storable_def company_texts_ok_def valid_company_def IsValid_iff
      type_text_ok int4_ok_def is_go_int_def int_min_def int_max_def)

lemma event_type_text_ok [simp]: "text_ok (change_type ch)"
  by (cases ch) (simp_all add: event_type_defs text_ok_def byte_def)

lemma announces_texts_ok:
  assumes "announces ev ch" and "company_ok (stored (change_company ch))"
  shows "event_texts_ok ev"
  using assms company_ok_texts [OF assms(2)]
  by (simp add: announces_def event_texts_ok_def company_texts_ok_def)

lemma admissible_company_ok:
  "ledger_ok l \<Longrightarrow> admissible l ch \<Longrightarrow> company_ok (stored (change_company ch))"
  by (cases ch) (auto simp: ledger_ok_def company_ok_def)

subsection \<open>Interfaces\<close>

locale company_store =
  fixes repo :: "'w Repository"
    and led :: "ctx \<Rightarrow> 'w \<Rightarrow> ledger option"
  assumes led_ok: "led ctx w = Some l \<Longrightarrow> ledger_ok l"
    and GetByID_law: "led ctx w = Some l \<Longrightarrow> GetByID repo ctx i w = (r, w') \<Longrightarrow>
      (case r of
         Inr c \<Rightarrow> c \<in> set (members l) \<and> ID c = i \<and> led ctx w' = Some l
       | Inl e \<Rightarrow> opaque_error e
           \<or> errors_Is e ErrNotFound \<and> i \<notin> ID ` set (members l) \<and> led ctx w' = Some l)"
    and GetByName_law: "led ctx w = Some l \<Longrightarrow> GetByName repo ctx n w = (r, w') \<Longrightarrow>
      (case r of
         Inr c \<Rightarrow> c \<in> set (members l) \<and> Name c = n \<and> led ctx w' = Some l
       | Inl e \<Rightarrow> opaque_error e
           \<or> errors_Is e ErrNotFound \<and> n \<notin> Name ` set (members l) \<and> led ctx w' = Some l)"
    and Create_law: "led ctx w = Some l \<Longrightarrow> valid_company c \<Longrightarrow> Create repo ctx c w = (r', w') \<Longrightarrow>
      (case r' of
         None \<Rightarrow> admissible l (Created c) \<and> led ctx w' = Some (with_company c l)
       | Some e \<Rightarrow> opaque_error e
           \<or> errors_Is e ErrDuplicateID \<and> ID c \<in> ID ` set (members l)
           \<or> errors_Is e ErrDuplicateName \<and> Name c \<in> Name ` set (members l))"
    and Update_law: "led ctx w = Some l \<Longrightarrow> valid_company c \<Longrightarrow> Update repo ctx c w = (r', w') \<Longrightarrow>
      (case r' of
         None \<Rightarrow> storable c \<and> ID c \<in> ID ` set (members l) \<and> \<not> name_taken l (ID c) (Name c)
           \<and> led ctx w' = Some (with_revision c l)
       | Some e \<Rightarrow> opaque_error e
           \<or> errors_Is e ErrNotFound \<and> ID c \<notin> ID ` set (members l)
           \<or> errors_Is e ErrDuplicateName \<and> name_taken l (ID c) (Name c))"
    and Delete_law: "led ctx w = Some l \<Longrightarrow> Delete repo ctx i w = (r', w') \<Longrightarrow>
      (case r' of
         None \<Rightarrow> i \<in> ID ` set (members l) \<and> led ctx w' = Some (without_company i l)
       | Some e \<Rightarrow> opaque_error e \<or> errors_Is e ErrNotFound \<and> i \<notin> ID ` set (members l))"
    and read_frame: "led ctx w = Some l \<Longrightarrow>
      led Background (snd (GetByID repo ctx i w)) = led Background w
      \<and> led Background (snd (GetByName repo ctx n w)) = led Background w"
    and write_frame: "txContextKey ctx \<noteq> None \<Longrightarrow> led ctx w = Some l \<Longrightarrow>
      led Background (snd (Create repo ctx c w)) = led Background w
      \<and> led Background (snd (Update repo ctx c w)) = led Background w
      \<and> led Background (snd (Delete repo ctx i w)) = led Background w"

locale event_store =
  fixes store :: "'w OutboxStore"
    and led :: "ctx \<Rightarrow> 'w \<Rightarrow> ledger option"
  assumes Store_law: "led ctx w = Some l \<Longrightarrow> event_texts_ok ev \<Longrightarrow> Store store ctx ev w = (r', w') \<Longrightarrow>
      (case r' of
         None \<Rightarrow> e_ID ev \<notin> entry_id ` set (outbox l) \<and> json_safe_event ev
           \<and> (\<exists>t. led ctx w' = Some (with_event t ev l))
       | Some e \<Rightarrow> opaque_error e)"
    and store_frame: "txContextKey ctx \<noteq> None \<Longrightarrow> led ctx w = Some l \<Longrightarrow>
      led Background (snd (Store store ctx ev w)) = led Background w"

text \<open>
  A transaction runner, for a function that only works in its transaction (its calls leave what is
  seen outside alone) and that leaves the transaction usable when it succeeds.  Starting and ending
  the transaction touches nothing but the database: \<open>outside\<close> is any view of the rest.
\<close>

definition tx_ctx :: "tx_handle \<Rightarrow> ctx" where
  "tx_ctx t = \<lparr>txContextKey = Some t\<rparr>"

lemma tx_ctx_key [simp]: "txContextKey (tx_ctx t) \<noteq> None"
  by (simp add: tx_ctx_def)

definition works_inside ::
    "(ctx \<Rightarrow> 'w \<Rightarrow> ledger option) \<Rightarrow> ledger \<Rightarrow> (ctx \<Rightarrow> ('w, goerr, 'a) io) \<Rightarrow> bool" where
  "works_inside led l fn \<longleftrightarrow>
     (\<forall>t w r w'. led (tx_ctx t) w = Some l \<longrightarrow> fn (tx_ctx t) w = (r, w') \<longrightarrow>
        led Background w' = led Background w
        \<and> (\<forall>a. r = Inr a \<longrightarrow> led (tx_ctx t) w' \<noteq> None))"

locale transactional =
  fixes runner :: "('w, 'a) TransactionRunner"
    and led :: "ctx \<Rightarrow> 'w \<Rightarrow> ledger option"
    and outside :: "'w \<Rightarrow> 's"
  assumes nested: "txContextKey ctx \<noteq> None \<Longrightarrow> WithinTransaction runner ctx fn w = fn ctx w"
    and transaction: "led Background w = Some l \<Longrightarrow> works_inside led l fn \<Longrightarrow>
      WithinTransaction runner Background fn w = (r, w') \<Longrightarrow>
      (\<exists>e. r = Inl e \<and> opaque_error e) \<and> led Background w' = Some l \<and> outside w' = outside w
      \<or> (\<exists>t w1 r1 w2. led (tx_ctx t) w1 = Some l \<and> outside w1 = outside w \<and>
          fn (tx_ctx t) w1 = (r1, w2) \<and> outside w' = outside w2 \<and>
          (case r1 of
             Inl e \<Rightarrow> (\<exists>e'. r = Inl e' \<and> root_cause e' = root_cause e) \<and> led Background w' = Some l
           | Inr a \<Rightarrow>
               r = Inr a \<and> led Background w' = led (tx_ctx t) w2
               \<or> (\<exists>e. r = Inl e \<and> opaque_error e)
                  \<and> (led Background w' = Some l \<or> led Background w' = led (tx_ctx t) w2)))"


subsection \<open>What the use cases may answer\<close>

text \<open>
  \<open>did\<close> says which change an operation that returns \<open>c\<close> has made, \<open>refusals\<close> the errors it may
  refuse with; every other error is opaque.
\<close>

definition inside_outcome ::
    "(ctx \<Rightarrow> 'w \<Rightarrow> ledger option) \<Rightarrow> (company \<Rightarrow> change \<Rightarrow> bool) \<Rightarrow> goerr set \<Rightarrow> ledger \<Rightarrow> ctx
     \<Rightarrow> 'w \<Rightarrow> goerr + company \<Rightarrow> 'w \<Rightarrow> bool" where
  "inside_outcome led did refusals l ctx w r w' \<longleftrightarrow>
     led Background w' = led Background w
     \<and> (case r of
          Inr c \<Rightarrow> \<exists>ch l'. did c ch \<and> recorded ch l l' \<and> led ctx w' = Some l'
        | Inl e \<Rightarrow> opaque_error e \<or> root_cause e \<in> refusals)"

definition all_or_nothing ::
    "(ctx \<Rightarrow> 'w \<Rightarrow> ledger option) \<Rightarrow> (company \<Rightarrow> change \<Rightarrow> bool) \<Rightarrow> goerr set \<Rightarrow> ledger
     \<Rightarrow> goerr + company \<Rightarrow> 'w \<Rightarrow> bool" where
  "all_or_nothing led did refusals l r w' \<longleftrightarrow>
     (case r of
        Inr c \<Rightarrow> \<exists>ch l'. did c ch \<and> recorded ch l l' \<and> led Background w' = Some l'
      | Inl e \<Rightarrow>
          led Background w' = Some l \<and> (opaque_error e \<or> root_cause e \<in> refusals)
          \<or> opaque_error e
             \<and> (\<exists>c ch l'. did c ch \<and> recorded ch l l' \<and> led Background w' = Some l'))"

definition create_refusals :: "ledger \<Rightarrow> company \<Rightarrow> goerr set" where
  "create_refusals l c =
     {e. e = ErrDuplicateID \<and> ID c \<in> ID ` set (members l)
       \<or> e = ErrDuplicateName \<and> Name c \<in> Name ` set (members l)}"

definition patch_refusals :: "ledger \<Rightarrow> uuid \<Rightarrow> patch \<Rightarrow> goerr set" where
  "patch_refusals l i p =
     {e. e = ErrNotFound \<and> i \<notin> ID ` set (members l)
       \<or> e = ErrDuplicateName \<and> (\<exists>n. p_Name p = Some n \<and> name_taken l i (TrimSpace n))
       \<or> patch_error p = Some e}"

definition delete_refusals :: "ledger \<Rightarrow> uuid \<Rightarrow> goerr set" where
  "delete_refusals l i = {e. e = ErrNotFound \<and> i \<notin> ID ` set (members l)}"

definition did_patch :: "ledger \<Rightarrow> uuid \<Rightarrow> patch \<Rightarrow> company \<Rightarrow> change \<Rightarrow> bool" where
  "did_patch l i p c ch \<longleftrightarrow> ch = Updated c \<and> patch_error p = None
     \<and> (\<exists>d\<in>set (members l). ID d = i \<and> (\<exists>t. c = patched t p d))"

definition did_delete :: "ledger \<Rightarrow> uuid \<Rightarrow> company \<Rightarrow> change \<Rightarrow> bool" where
  "did_delete l i c ch \<longleftrightarrow> ch = Deleted c \<and> c \<in> set (members l) \<and> ID c = i"

lemma patch_error_root: "patch_error p = Some e \<Longrightarrow> root_cause e = e"
  by (auto simp: patch_error_def split: if_splits)

lemma errors_Is_root: "errors_Is e t \<Longrightarrow> root_cause e = t"
  by (simp add: errors_Is_iff)

text \<open>Names of a well-formed ledger tell the companies apart.\<close>

lemma name_not_taken_by_other:
  assumes "ledger_ok l" and "d \<in> set (members l)"
  shows "\<not> name_taken l (ID d) (Name d)"
proof
  assume "name_taken l (ID d) (Name d)"
  then obtain c where c: "c \<in> set (members l)" "ID c \<noteq> ID d" "Name c = Name d"
    by (auto simp: name_taken_def)
  from assms(1) have "inj_on Name (set (members l))" by (simp add: ledger_ok_def distinct_map)
  from inj_onD [OF this c(3) c(1) assms(2)] c(2) show False by simp
qed

lemma unique_id:
  assumes "ledger_ok l" and "c \<in> set (members l)" and "d \<in> set (members l)" and "ID c = ID d"
  shows "c = d"
proof -
  from assms(1) have "inj_on ID (set (members l))" by (simp add: ledger_ok_def distinct_map)
  from inj_onD [OF this assms(4,2,3)] show ?thesis .
qed

subsection \<open>The service on a store, an outbox and a transaction runner\<close>

locale company_service =
  company_store repo led + event_store store led + transactional runner led outside
  for repo :: "'w Repository" and store :: "'w OutboxStore"
    and runner :: "('w, company) TransactionRunner" and led :: "ctx \<Rightarrow> 'w \<Rightarrow> ledger option"
    and outside :: "'w \<Rightarrow> 's" +
  fixes rt :: "'w runtime"
  assumes time_frame: "led ctx (snd (time_Now rt w)) = led ctx w"
    and uuid_frame: "led ctx (snd (uuid_New rt w)) = led ctx w"
begin

abbreviation svc :: "'w Service" where
  "svc \<equiv> NewServiceWithOutbox rt repo (Some store) (Some runner)"

lemma svc_simps:
  "svc_repo svc = repo" "svc_outbox svc = Some store" "svc_tx svc = Some runner"
  "svc_now svc = time_Now rt" "svc_newUUID svc = uuid_New rt"
  by (simp_all add: NewServiceWithOutbox_def)

text \<open>Publishing is one call of the outbox, with a new event about the company.\<close>

lemma publish_law:
  assumes "led ctx w = Some l" and "txContextKey ctx \<noteq> None"
    and "company_ok (stored (change_company ch))"
    and "Service_publish svc ctx (change_type ch) (change_company ch) w = (r, w')"
  shows "led Background w' = led Background w"
    and "case r of
        None \<Rightarrow> \<exists>t ev. announces ev ch \<and> e_ID ev \<notin> entry_id ` set (outbox l)
          \<and> json_safe_event ev \<and> led ctx w' = Some (with_event t ev l)
      | Some e \<Rightarrow> opaque_error e"
proof -
  obtain i w1 where i: "uuid_New rt w = (i, w1)" by fastforce
  obtain t w2 where t: "time_Now rt w1 = (t, w2)" by fastforce
  define ev where "ev = \<lparr>e_ID = i, e_Type = change_type ch, OccurredAt = t,
    CompanyID = ID (change_company ch), Company = Some (change_company ch)\<rparr>"
  obtain rs w3 where s: "Store store ctx ev w2 = (rs, w3)" by fastforce
  have led2: "led c w2 = led c w" for c
    using uuid_frame [of c w] time_frame [of c w1] i t by simp
  have ev: "announces ev ch" by (simp add: announces_def ev_def)
  have pub: "Service_publish svc ctx (change_type ch) (change_company ch) w
      = try_cmd (Store store ctx ev) (\<lambda>err. Some (wrap ''store company event in outbox'' err))
          (\<lambda>w. (None, w)) w2"
    using i t by (simp add: Service_publish_def svc_simps ev_def)
  from store_frame [OF assms(2), of w2 l ev] assms(1) led2 s
  have "led Background w3 = led Background w" by simp
  with pub s assms(4) show "led Background w' = led Background w"
    by (cases rs) simp_all
  from Store_law [OF _ announces_texts_ok [OF ev assms(3)] s] assms(1) led2
  have "case rs of None \<Rightarrow> e_ID ev \<notin> entry_id ` set (outbox l) \<and> json_safe_event ev
          \<and> (\<exists>t. led ctx w3 = Some (with_event t ev l))
      | Some e \<Rightarrow> opaque_error e" by simp
  with pub s assms(4) ev show "case r of
        None \<Rightarrow> \<exists>t ev. announces ev ch \<and> e_ID ev \<notin> entry_id ` set (outbox l)
          \<and> json_safe_event ev \<and> led ctx w' = Some (with_event t ev l)
      | Some e \<Rightarrow> opaque_error e"
    by (cases rs) auto
qed

text \<open>The last two steps of every closure: a change of the companies, then its event.\<close>

lemma publish_outcome:
  assumes led: "led ctx w = Some (apply_change ch l)" and tx: "txContextKey ctx \<noteq> None"
    and l: "ledger_ok l" and ch: "admissible l ch"
    and did: "did (change_company ch) ch" and base: "led Background w = led Background w0"
    and run: "try_cmd (Service_publish svc ctx (change_type ch) (change_company ch)) Inl
      (\<lambda>w. (Inr (change_company ch), w)) w = (r, w')"
  shows "inside_outcome led did refusals l ctx w0 r w'"
proof -
  obtain rp w1 where p: "Service_publish svc ctx (change_type ch) (change_company ch) w = (rp, w1)"
    by fastforce
  note pub = publish_law [OF led tx admissible_company_ok [OF l ch] p]
  show ?thesis
  proof (cases rp)
    case None
    with pub(2) obtain t ev where ev: "announces ev ch"
      "e_ID ev \<notin> entry_id ` set (outbox l)" "json_safe_event ev"
      "led ctx w1 = Some (with_event t ev (apply_change ch l))" by auto
    then have "recorded ch l (with_event t ev (apply_change ch l))"
      using ch by (auto simp: recorded_def)
    with ev None p run pub(1) did base show ?thesis by (auto simp: inside_outcome_def)
  next
    case (Some e)
    with p run pub base show ?thesis by (auto simp: inside_outcome_def)
  qed
qed

lemma create_in_tx_outcome:
  assumes led: "led ctx w = Some l" and tx: "txContextKey ctx \<noteq> None" and c: "valid_company c"
    and run: "create_in_tx svc c ctx w = (r, w')"
  shows "inside_outcome led (\<lambda>d ch. d = c \<and> ch = Created c) (create_refusals l c) l ctx w r w'"
proof -
  obtain rg w1 where g: "GetByName repo ctx (Name c) w = (rg, w1)" by fastforce
  have base1: "led Background w1 = led Background w"
    using read_frame [OF led, where n = "Name c"] g by simp
  note law1 = GetByName_law [OF led g]
  show ?thesis
  proof (cases rg)
    case (Inr d)
    with g law1 run base1 show ?thesis
      by (auto simp: create_in_tx_def svc_simps inside_outcome_def create_refusals_def
          intro: rev_image_eqI [OF _ sym])
  next
    case (Inl e)
    show ?thesis
    proof (cases "errors_Is e ErrNotFound")
      case False
      with Inl g law1 run base1 show ?thesis
        by (auto simp: create_in_tx_def svc_simps inside_outcome_def)
    next
      case True
      with Inl law1 have led1: "led ctx w1 = Some l" by auto
      obtain rc w2 where cr: "Create repo ctx c w1 = (rc, w2)" by fastforce
      have base2: "led Background w2 = led Background w"
        using write_frame [OF tx led1, where c = c] cr base1 by simp
      note law2 = Create_law [OF led1 c cr]
      show ?thesis
      proof (cases rc)
        case (Some e2)
        with True Inl g cr law2 run base2 show ?thesis
          by (auto simp: create_in_tx_def svc_simps inside_outcome_def create_refusals_def
              errors_Is_root)
      next
        case None
        with True Inl g cr run have "try_cmd (Service_publish svc ctx (change_type (Created c))
            (change_company (Created c))) Inl (\<lambda>w. (Inr (change_company (Created c)), w)) w2 = (r, w')"
          by (simp add: create_in_tx_def svc_simps)
        from publish_outcome [OF _ tx led_ok [OF led] _ _ base2 this] None law2
        show ?thesis by simp
      qed
    qed
  qed
qed

lemma name_is_free_outcome:
  assumes led: "led ctx w = Some l" and tx: "txContextKey ctx \<noteq> None"
    and run: "name_is_free svc ctx i v w = (r, w')"
  shows "led Background w' = led Background w
    \<and> (case r of
         None \<Rightarrow> led ctx w' = Some l
       | Some e \<Rightarrow> opaque_error e
           \<or> root_cause e = ErrDuplicateName \<and> (\<exists>n. v = Some n \<and> name_taken l i (TrimSpace n)))"
proof (cases v)
  case None
  with run led show ?thesis by (auto simp: name_is_free_def)
next
  case (Some n)
  obtain rg w1 where g: "GetByName repo ctx (TrimSpace n) w = (rg, w1)" by fastforce
  have base1: "led Background w1 = led Background w"
    using read_frame [OF led, where n = "TrimSpace n"] g by simp
  note law = GetByName_law [OF led g]
  show ?thesis
  proof (cases rg)
    case (Inr d)
    with Some g law run base1 show ?thesis
      by (auto simp: name_is_free_def svc_simps name_taken_def split: if_splits)
  next
    case (Inl e)
    with Some g law run base1 show ?thesis
      by (auto simp: name_is_free_def svc_simps split: if_splits)
  qed
qed

lemma patch_in_tx_outcome:
  assumes led: "led ctx w = Some l" and tx: "txContextKey ctx \<noteq> None"
    and run: "patch_in_tx rt svc i input ctx w = (r, w')"
  shows "inside_outcome led (did_patch l i (patch_of_input input))
    (patch_refusals l i (patch_of_input input)) l ctx w r w'"
proof -
  let ?p = "patch_of_input input"
  note l = led_ok [OF led]
  have name_eq: "pi_Name input = p_Name ?p" by (simp add: patch_of_input_def)
  obtain rg w1 where g: "GetByID repo ctx i w = (rg, w1)" by fastforce
  have base1: "led Background w1 = led Background w"
    using read_frame [OF led, where i = i] g by simp
  note law1 = GetByID_law [OF led g]
  show ?thesis
  proof (cases rg)
    case (Inl e)
    with g law1 run base1 show ?thesis
      by (auto simp: patch_in_tx_def svc_simps inside_outcome_def patch_refusals_def errors_Is_root)
  next
    case (Inr d)
    with law1 have d: "d \<in> set (members l)" "ID d = i" and led1: "led ctx w1 = Some l" by auto
    from l d have valid: "valid_company d" by (simp add: ledger_ok_def company_ok_def)
    obtain rf w2 where f: "name_is_free svc ctx i (pi_Name input) w1 = (rf, w2)" by fastforce
    note law2 = name_is_free_outcome [OF led1 tx f]
    show ?thesis
    proof (cases rf)
      case (Some e)
      with Inr g f law2 run base1 show ?thesis
        by (auto simp: patch_in_tx_def svc_simps inside_outcome_def patch_refusals_def name_eq)
    next
      case None
      obtain t w3 where t: "time_Now rt w2 = (t, w3)" by fastforce
      have led3: "led c w3 = led c w2" for c using time_frame [of c w2] t by simp
      show ?thesis
      proof (cases "patch_error ?p")
        case (Some e)
        with valid have "fst (ApplyPatch t ?p d) = Some e" by (simp add: ApplyPatch_fst)
        then obtain d' where "ApplyPatch t ?p d = (Some e, d')"
          by (cases "ApplyPatch t ?p d") auto
        with Some Inr None g f t law2 led3 run base1 show ?thesis
          by (auto simp: patch_in_tx_def svc_simps inside_outcome_def patch_refusals_def
              patch_error_root)
      next
        case no_error: None
        with valid have ap: "ApplyPatch t ?p d = (None, patched t ?p d)" by (simp add: ApplyPatch_None)
        from valid no_error have valid': "valid_company (patched t ?p d)" by (rule valid_patched)
        obtain ru w4 where u: "Update repo ctx (patched t ?p d) w3 = (ru, w4)" by fastforce
        from law2 None led3 have led3': "led ctx w3 = Some l" by simp
        have base4: "led Background w4 = led Background w"
          using write_frame [OF tx led3', where c = "patched t ?p d"] u law2 led3 base1 by simp
        note law4 = Update_law [OF led3' valid' u]
        show ?thesis
        proof (cases ru)
          case (Some e)
          have "\<exists>n. p_Name ?p = Some n \<and> name_taken l i (TrimSpace n)"
            if "name_taken l (ID d) (Name (patched t ?p d))"
            using that d name_not_taken_by_other [OF l d(1)]
            by (cases "p_Name ?p") (auto simp: patched_def)
          with Some law4 d have "opaque_error e \<or> root_cause e \<in> patch_refusals l i ?p"
            by (auto simp: patch_refusals_def errors_Is_root)
          with Some Inr None g f t ap u run base4 show ?thesis
            by (auto simp: patch_in_tx_def svc_simps inside_outcome_def)
        next
          case ok: None
          with law4 d valid' have adm: "admissible l (Updated (patched t ?p d))"
            by (auto intro: bexI [of _ d])
          have did: "did_patch l i ?p (change_company (Updated (patched t ?p d)))
              (Updated (patched t ?p d))"
            using d no_error by (auto simp: did_patch_def)
          from ok Inr None g f t ap u run have "try_cmd (Service_publish svc ctx
              (change_type (Updated (patched t ?p d))) (change_company (Updated (patched t ?p d)))) Inl
              (\<lambda>w. (Inr (change_company (Updated (patched t ?p d))), w)) w4 = (r, w')"
            by (simp add: patch_in_tx_def svc_simps)
          from publish_outcome [where did = "did_patch l i ?p", OF _ tx l adm did base4 this] ok law4
          show ?thesis by simp
        qed
      qed
    qed
  qed
qed

lemma delete_in_tx_outcome:
  assumes led: "led ctx w = Some l" and tx: "txContextKey ctx \<noteq> None"
    and run: "delete_in_tx svc i ctx w = (r, w')"
  shows "inside_outcome led (did_delete l i) (delete_refusals l i) l ctx w r w'"
proof -
  note l = led_ok [OF led]
  obtain rg w1 where g: "GetByID repo ctx i w = (rg, w1)" by fastforce
  have base1: "led Background w1 = led Background w"
    using read_frame [OF led, where i = i] g by simp
  note law1 = GetByID_law [OF led g]
  show ?thesis
  proof (cases rg)
    case (Inl e)
    with g law1 run base1 show ?thesis
      by (auto simp: delete_in_tx_def svc_simps inside_outcome_def delete_refusals_def errors_Is_root)
  next
    case (Inr d)
    with law1 have d: "d \<in> set (members l)" "ID d = i" and led1: "led ctx w1 = Some l" by auto
    obtain rd w2 where del: "Delete repo ctx i w1 = (rd, w2)" by fastforce
    have base2: "led Background w2 = led Background w"
      using write_frame [OF tx led1, where i = i] del base1 by simp
    note law2 = Delete_law [OF led1 del]
    show ?thesis
    proof (cases rd)
      case (Some e)
      with Inr g del law2 run base2 show ?thesis
        by (auto simp: delete_in_tx_def svc_simps inside_outcome_def delete_refusals_def errors_Is_root)
    next
      case None
      have did: "did_delete l i (change_company (Deleted d)) (Deleted d)"
        using d by (simp add: did_delete_def)
      from None Inr g del run have "try_cmd (Service_publish svc ctx (change_type (Deleted d))
          (change_company (Deleted d))) Inl (\<lambda>w. (Inr (change_company (Deleted d)), w)) w2 = (r, w')"
        by (simp add: delete_in_tx_def svc_simps)
      from publish_outcome [where did = "did_delete l i", OF _ tx l _ did base2 this] None law2 d
      show ?thesis by simp
    qed
  qed
qed

text \<open>What holds inside holds outside, all or nothing.\<close>

lemma within_transaction_outcome:
  assumes led: "led Background w = Some l"
    and inside: "\<And>t w r w'. led (tx_ctx t) w = Some l \<Longrightarrow> fn (tx_ctx t) w = (r, w') \<Longrightarrow>
      inside_outcome led did refusals l (tx_ctx t) w r w'"
    and run: "Service_withinTransaction svc Background fn w = (r, w')"
  shows "all_or_nothing led did refusals l r w'"
proof -
  have works: "works_inside led l fn"
    using inside by (fastforce simp: works_inside_def inside_outcome_def)
  from run have "WithinTransaction runner Background fn w = (r, w')"
    by (simp add: Service_withinTransaction_def svc_simps)
  from transaction [OF led works this] show ?thesis
  proof (elim disjE exE conjE)
    fix t w1 r1 w2
    assume led1: "led (tx_ctx t) w1 = Some l" and fn: "fn (tx_ctx t) w1 = (r1, w2)"
      and out: "case r1 of
             Inl e \<Rightarrow> (\<exists>e'. r = Inl e' \<and> root_cause e' = root_cause e) \<and> led Background w' = Some l
           | Inr a \<Rightarrow>
               r = Inr a \<and> led Background w' = led (tx_ctx t) w2
               \<or> (\<exists>e. r = Inl e \<and> opaque_error e)
                  \<and> (led Background w' = Some l \<or> led Background w' = led (tx_ctx t) w2)"
    note ins = inside [OF led1 fn]
    show ?thesis
    proof (cases r1)
      case (Inl e)
      with out ins show ?thesis
        by (auto simp: all_or_nothing_def inside_outcome_def opaque_error_def)
    next
      case (Inr c)
      with out ins show ?thesis
        by (force simp: all_or_nothing_def inside_outcome_def)
    qed
  qed (simp add: all_or_nothing_def)
qed

text \<open>The four use cases.\<close>

lemma CreateCompany_outcome:
  assumes led: "led Background w = Some l"
    and run: "CreateCompany rt svc Background input w = (r, w')"
  shows "\<exists>t. case NewWithID t (i_ID input) (i_Name input) (i_Description input)
        (i_AmountOfEmployees input) (i_Registered input) (i_Type input) of
      Inl e \<Rightarrow> r = Inl (wrap ''create company'' e) \<and> led Background w' = Some l
    | Inr c \<Rightarrow>
        all_or_nothing led (\<lambda>d ch. d = c \<and> ch = Created c) (create_refusals l c) l r w'"
proof -
  obtain t w1 where t: "time_Now rt w = (t, w1)" by fastforce
  have led1: "led Background w1 = Some l" using time_frame [of Background w] t led by simp
  let ?new = "NewWithID t (i_ID input) (i_Name input) (i_Description input)
        (i_AmountOfEmployees input) (i_Registered input) (i_Type input)"
  show ?thesis
  proof (intro exI [of _ t], cases ?new)
    case (Inl e)
    with run t led1 show "case ?new of
        Inl e \<Rightarrow> r = Inl (wrap ''create company'' e) \<and> led Background w' = Some l
      | Inr c \<Rightarrow>
          all_or_nothing led (\<lambda>d ch. d = c \<and> ch = Created c) (create_refusals l c) l r w'"
      by (simp add: CreateCompany_def)
  next
    case (Inr c)
    then have c: "valid_company c" by (auto simp: NewWithID_Inr)
    from Inr run t have "Service_withinTransaction svc Background (create_in_tx svc c) w1 = (r, w')"
      by (simp add: CreateCompany_def)
    then have "all_or_nothing led (\<lambda>d ch. d = c \<and> ch = Created c) (create_refusals l c) l r w'"
      by (rule within_transaction_outcome [OF led1, rotated])
        (rule create_in_tx_outcome [OF _ tx_ctx_key c])
    with Inr show "case ?new of
        Inl e \<Rightarrow> r = Inl (wrap ''create company'' e) \<and> led Background w' = Some l
      | Inr c \<Rightarrow>
          all_or_nothing led (\<lambda>d ch. d = c \<and> ch = Created c) (create_refusals l c) l r w'"
      by simp
  qed
qed

lemma PatchCompany_outcome:
  assumes led: "led Background w = Some l"
    and run: "PatchCompany rt svc Background i input w = (r, w')"
  shows "all_or_nothing led (did_patch l i (patch_of_input input))
    (patch_refusals l i (patch_of_input input)) l r w'"
proof (cases "IsEmpty (patch_of_input input)")
  case True
  with run led show ?thesis
    by (auto simp: PatchCompany_def all_or_nothing_def patch_refusals_def patch_error_def)
next
  case False
  with run have "Service_withinTransaction svc Background (patch_in_tx rt svc i input) w = (r, w')"
    by (simp add: PatchCompany_def)
  then show ?thesis
    by (rule within_transaction_outcome [OF led, rotated]) (rule patch_in_tx_outcome [OF _ tx_ctx_key])
qed

lemma DeleteCompany_outcome:
  assumes led: "led Background w = Some l" and run: "DeleteCompany svc Background i w = (r, w')"
  obtains r0 where "r = (case r0 of Inl e \<Rightarrow> Some e | Inr c \<Rightarrow> None)"
    and "all_or_nothing led (did_delete l i) (delete_refusals l i) l r0 w'"
proof -
  obtain r0 w1 where t: "Service_withinTransaction svc Background (delete_in_tx svc i) w = (r0, w1)"
    by fastforce
  from t have "all_or_nothing led (did_delete l i) (delete_refusals l i) l r0 w1"
    by (rule within_transaction_outcome [OF led, rotated])
      (rule delete_in_tx_outcome [OF _ tx_ctx_key])
  moreover from t run have "w1 = w'" "r = (case r0 of Inl e \<Rightarrow> Some e | Inr c \<Rightarrow> None)"
    by (auto simp: DeleteCompany_def split: sum.splits)
  ultimately show ?thesis using that by simp
qed

lemma GetCompany_outcome:
  assumes led: "led Background w = Some l" and run: "GetCompany svc Background i w = (r, w')"
  shows "led Background w' = Some l
    \<and> (case r of
         Inr c \<Rightarrow> c \<in> set (members l) \<and> ID c = i
       | Inl e \<Rightarrow> opaque_error e \<or> root_cause e = ErrNotFound \<and> i \<notin> ID ` set (members l))"
proof -
  obtain rg w1 where g: "GetByID repo Background i w = (rg, w1)" by fastforce
  have "led Background w1 = Some l" using read_frame [OF led, where i = i] g led by simp
  with g run GetByID_law [OF led g] show ?thesis
    by (cases rg) (auto simp: GetCompany_def svc_simps errors_Is_root)
qed

end

end
