(* ===== verification/Repositories.thy ===== *)
theory Repositories
  imports Server Contracts
begin

text \<open>
  The postgres package keeps the contracts of the service: on any server with the contract
  \<open>sql_server\<close>, the company repository is a \<open>company_store\<close>, the outbox repository an
  \<open>event_store\<close> and the transaction manager a \<open>transactional\<close> runner.
\<close>

definition ledger_view ::
    "uuid_lib \<Rightarrow> (executor \<Rightarrow> 'w \<Rightarrow> database option) \<Rightarrow> ctx \<Rightarrow> 'w \<Rightarrow> ledger option" where
  "ledger_view lib tables ctx w =
     (case tables (executorFromContext ctx) w of
        None \<Rightarrow> None
      | Some db \<Rightarrow> if db_ok lib db then Some (abs_ledger lib db) else None)"

lemma ledger_view_Some:
  assumes "uuid_lib_ok lib"
  shows "ledger_view lib tables ctx w = Some l \<longleftrightarrow>
    ledger_ok l \<and> tables (executorFromContext ctx) w = Some (conc lib l)"
proof
  assume "ledger_view lib tables ctx w = Some l"
  then obtain db where db: "tables (executorFromContext ctx) w = Some db" "db_ok lib db"
    "l = abs_ledger lib db"
    by (simp add: ledger_view_def split: option.splits if_splits)
  from db(2) obtain l' where "ledger_ok l'" "db = conc lib l'" "abs_ledger lib db = l'"
    by (rule db_okE)
  with db show "ledger_ok l \<and> tables (executorFromContext ctx) w = Some (conc lib l)" by simp
qed (use assms in \<open>simp add: ledger_view_def db_ok_conc\<close>)

lemma ledger_view_cong:
  "tables (executorFromContext ctx) w = tables' (executorFromContext ctx') w' \<Longrightarrow>
   ledger_view lib tables ctx w = ledger_view lib tables' ctx' w'"
  by (simp add: ledger_view_def)

lemma executor_simps [simp]:
  "executorFromContext Background = PoolExecutor"
  "executorFromContext (tx_ctx t) = TxExecutor t"
  by (simp_all add: executorFromContext_def txFromContext_def tx_ctx_def)

lemma executor_tx:
  assumes "txContextKey ctx \<noteq> None"
  obtains t where "executorFromContext ctx = TxExecutor t" and "ctx = tx_ctx t"
  using assms by (cases ctx) (auto simp: executorFromContext_def txFromContext_def tx_ctx_def)

locale company_database = sql_server pg tables now outside
  for pg :: "'w driver" and tables :: "executor \<Rightarrow> 'w \<Rightarrow> database option"
    and now :: "executor \<Rightarrow> 'w \<Rightarrow> time" and outside :: "'w \<Rightarrow> 's" +
  fixes lib :: uuid_lib
  assumes lib_ok: "uuid_lib_ok lib"
begin

abbreviation view :: "ctx \<Rightarrow> 'w \<Rightarrow> ledger option" where
  "view \<equiv> ledger_view lib tables"

lemmas view_Some = ledger_view_Some [OF lib_ok]

text \<open>A statement executed, or a row queried, with context \<open>ctx\<close>.\<close>

lemma exec_view:
  assumes "view ctx w = Some l" and "Exec pg (executorFromContext ctx) st w = (r, w')"
  shows "exec_answer (sql_exec (now (executorFromContext ctx) w) st (conc lib l)) r
    (tables (executorFromContext ctx) w')"
  using assms Exec_answer by (auto simp: view_Some)

lemma exec_frame:
  assumes "view ctx w = Some l" and "txContextKey ctx \<noteq> None"
  shows "view Background (snd (Exec pg (executorFromContext ctx) st w)) = view Background w"
proof -
  obtain r w' where e: "Exec pg (executorFromContext ctx) st w = (r, w')" by fastforce
  from executor_tx [OF assms(2)] obtain t where "executorFromContext ctx = TxExecutor t" by blast
  with e Exec_answer [of "executorFromContext ctx" w "conc lib l" st r w'] assms(1)
  have "tables PoolExecutor w' = tables PoolExecutor w"
    by (simp add: view_Some pool_frame_def)
  with e show ?thesis by (simp add: ledger_view_def)
qed

lemma row_view:
  assumes "view ctx w = Some l" and "QueryRow pg (executorFromContext ctx) st w = (r, w')"
  shows "row_answer (sql_exec (now (executorFromContext ctx) w) st (conc lib l)) r
    (tables (executorFromContext ctx) w')"
  using assms QueryRow_answer by (auto simp: view_Some)

lemma row_frame:
  assumes v: "view ctx w = Some l"
    and same: "\<And>now. \<forall>rows n db. sql_exec now st (conc lib l) = Inr (rows, n, db) \<longrightarrow> db = conc lib l"
  shows "view Background (snd (QueryRow pg (executorFromContext ctx) st w)) = view Background w"
proof -
  obtain r w' where e: "QueryRow pg (executorFromContext ctx) st w = (r, w')" by fastforce
  from v have t: "tables (executorFromContext ctx) w = Some (conc lib l)" by (simp add: view_Some)
  note law = QueryRow_answer [OF t e]
  have "tables PoolExecutor w' = tables PoolExecutor w"
  proof (cases "executorFromContext ctx")
    case PoolExecutor
    with law t same show ?thesis by (auto simp: pool_frame_def carried_out_or_not_def)
  next
    case (TxExecutor t')
    with law show ?thesis by (simp add: pool_frame_def)
  qed
  with e show ?thesis by (simp add: ledger_view_def)
qed

subsection \<open>The company repository\<close>

lemma create_law:
  assumes v: "view ctx w = Some l" and c: "valid_company c"
    and run: "CompanyRepository_Create pg ctx c w = (r, w')"
  shows "case r of
      None \<Rightarrow> admissible l (Created c) \<and> view ctx w' = Some (with_company c l)
    | Some e \<Rightarrow> opaque_error e
        \<or> errors_Is e ErrDuplicateID \<and> ID c \<in> ID ` set (members l)
        \<or> errors_Is e ErrDuplicateName \<and> Name c \<in> Name ` set (members l)"
proof (cases "ToSql pg (company_insert c)")
  case (Some e)
  with run ToSql_error show ?thesis by (auto simp: CompanyRepository_Create_def with_sql_def)
next
  case None
  let ?x = "executorFromContext ctx"
  obtain re w1 where e: "Exec pg ?x (company_insert c) w = (re, w1)" by fastforce
  note ans = exec_view [OF v e]
  from v have l: "ledger_ok l" by (simp add: view_Some)
  show ?thesis
  proof (cases "storable c")
    case False
    with ans have "\<exists>e. re = Inl e \<and> internal_error e"
      using exec_company_insert_unstorable [OF False, of "now ?x w" "conc lib l"]
      by (auto simp: exec_answer_def split: sum.splits)
    with e run None show ?thesis by (auto simp: CompanyRepository_Create_def with_sql_def)
  next
    case True
    note out = exec_company_insert [OF c True, of "now ?x w" lib l]
    show ?thesis
    proof (cases re)
      case (Inr n)
      with ans out have "duplicate (members l) c = None"
        and "tables ?x w1 = Some (conc lib (with_company c l))"
        by (auto simp: exec_answer_def split: option.splits)
      with Inr e run None c True l show ?thesis
        by (auto simp: CompanyRepository_Create_def with_sql_def view_Some ledger_ok_with_company)
    next
      case (Inl err)
      with ans out have "internal_error err \<or> duplicate (members l) c = Some err"
        by (auto simp: exec_answer_def split: option.splits)
      with Inl e run None show ?thesis
        by (auto simp: CompanyRepository_Create_def with_sql_def duplicate_def split: if_splits)
    qed
  qed
qed

lemma update_law:
  assumes v: "view ctx w = Some l" and c: "valid_company c"
    and run: "CompanyRepository_Update pg ctx c w = (r, w')"
  shows "case r of
      None \<Rightarrow> storable c \<and> ID c \<in> ID ` set (members l) \<and> \<not> name_taken l (ID c) (Name c)
        \<and> view ctx w' = Some (with_revision c l)
    | Some e \<Rightarrow> opaque_error e
        \<or> errors_Is e ErrNotFound \<and> ID c \<notin> ID ` set (members l)
        \<or> errors_Is e ErrDuplicateName \<and> name_taken l (ID c) (Name c)"
proof (cases "ToSql pg (company_update c)")
  case (Some e)
  with run ToSql_error show ?thesis by (auto simp: CompanyRepository_Update_def with_sql_def)
next
  case None
  let ?x = "executorFromContext ctx"
  obtain re w1 where e: "Exec pg ?x (company_update c) w = (re, w1)" by fastforce
  note ans = exec_view [OF v e]
  from v have l: "ledger_ok l" by (simp add: view_Some)
  show ?thesis
  proof (cases "storable c")
    case False
    with ans have "\<exists>e. re = Inl e \<and> internal_error e"
      using exec_company_update_unstorable [OF False, of "now ?x w" "conc lib l"]
      by (auto simp: exec_answer_def split: sum.splits)
    with e run None show ?thesis by (auto simp: CompanyRepository_Update_def with_sql_def)
  next
    case True
    note out = exec_company_update [OF l c True, of "now ?x w" lib]
    show ?thesis
    proof (cases re)
      case (Inr n)
      with ans out consider "ID c \<notin> ID ` set (members l)" "n = 0"
        | "ID c \<in> ID ` set (members l)" "\<not> name_taken l (ID c) (Name c)" "n = 1"
          "tables ?x w1 = Some (conc lib (with_revision c l))"
        by (auto simp: exec_answer_def split: if_splits)
      then show ?thesis
        using Inr e run None True l c
        by cases (auto simp: CompanyRepository_Update_def with_sql_def view_Some
            ledger_ok_with_revision)
    next
      case (Inl err)
      with ans out have "internal_error err \<or> name_taken l (ID c) (Name c) \<and> err =
          PgError ''23505'' ''companies_name_key'' ''duplicate key value violates unique constraint''"
        by (auto simp: exec_answer_def split: if_splits)
      with Inl e run None show ?thesis
        by (auto simp: CompanyRepository_Update_def with_sql_def)
    qed
  qed
qed

lemma delete_law:
  assumes v: "view ctx w = Some l" and run: "CompanyRepository_Delete pg ctx i w = (r, w')"
  shows "case r of
      None \<Rightarrow> i \<in> ID ` set (members l) \<and> view ctx w' = Some (without_company i l)
    | Some e \<Rightarrow> opaque_error e \<or> errors_Is e ErrNotFound \<and> i \<notin> ID ` set (members l)"
proof (cases "ToSql pg (company_delete i)")
  case (Some e)
  with run ToSql_error show ?thesis by (auto simp: CompanyRepository_Delete_def with_sql_def)
next
  case None
  let ?x = "executorFromContext ctx"
  obtain re w1 where e: "Exec pg ?x (company_delete i) w = (re, w1)" by fastforce
  from v have l: "ledger_ok l" by (simp add: view_Some)
  note ans = exec_view [OF v e]
  show ?thesis
  proof (cases re)
    case (Inr n)
    with ans have n: "n = length (filter (\<lambda>c. ID c = i) (members l))"
      and t: "tables ?x w1 = Some (conc lib (without_company i l))"
      by (auto simp: exec_answer_def exec_company_delete)
    from n have "n = 0 \<longleftrightarrow> i \<notin> ID ` set (members l)" by (auto simp: filter_empty_conv)
    with t Inr e run None l show ?thesis
      by (auto simp: CompanyRepository_Delete_def with_sql_def view_Some ledger_ok_without_company
          split: if_splits)
  next
    case (Inl err)
    with ans have "internal_error err" by (auto simp: exec_answer_def exec_company_delete)
    with Inl e run None show ?thesis by (auto simp: CompanyRepository_Delete_def with_sql_def)
  qed
qed

text \<open>A query for the company with a key: the row that has it, or no row.\<close>

lemma scan_law:
  assumes v: "view ctx w = Some l" and q: "QueryRow pg (executorFromContext ctx) st w = (r, w')"
    and st: "\<And>now. sql_exec now st (conc lib l)
      = Inr (map company_fields (filter (\<lambda>c. f c = k) (members l)), 0, conc lib l)"
  shows "case scanCompany r of
      Inr c \<Rightarrow> c \<in> set (members l) \<and> f c = k \<and> view ctx w' = Some l
    | Inl e \<Rightarrow> opaque_error e
        \<or> errors_Is e ErrNotFound \<and> k \<notin> f ` set (members l) \<and> view ctx w' = Some l"
proof -
  note ans = row_view [OF v q, unfolded st]
  from v have l: "ledger_ok l" by (simp add: view_Some)
  show ?thesis
  proof (cases r)
    case (Inr row)
    with ans obtain rows where rows: "map company_fields (filter (\<lambda>c. f c = k) (members l)) = row # rows"
      and t: "tables (executorFromContext ctx) w' = Some (conc lib l)"
      by (auto simp: row_answer_def)
    from rows obtain c where "row = company_fields c" "c \<in> set (filter (\<lambda>c. f c = k) (members l))"
      by (cases "filter (\<lambda>c. f c = k) (members l)") (auto dest: Cons_eq_filterD)
    with Inr t l show ?thesis by (auto simp: view_Some)
  next
    case (Inl e)
    with ans consider "internal_error e"
      | "e = ErrNoRows" "filter (\<lambda>c. f c = k) (members l) = []"
        "tables (executorFromContext ctx) w' = Some (conc lib l)"
      by (auto simp: row_answer_def)
    then show ?thesis
      using Inl l by cases (auto simp: view_Some filter_empty_conv)
  qed
qed

lemma get_by_id_law:
  assumes v: "view ctx w = Some l" and run: "CompanyRepository_GetByID pg ctx i w = (r, w')"
  shows "case r of
      Inr c \<Rightarrow> c \<in> set (members l) \<and> ID c = i \<and> view ctx w' = Some l
    | Inl e \<Rightarrow> opaque_error e
        \<or> errors_Is e ErrNotFound \<and> i \<notin> ID ` set (members l) \<and> view ctx w' = Some l"
proof (cases "ToSql pg (selectCompany [Eq ''id'' (VUuid i)])")
  case (Some e)
  with run ToSql_error show ?thesis by (auto simp: CompanyRepository_GetByID_def with_sql_def)
next
  case None
  obtain rq w1 where q: "QueryRow pg (executorFromContext ctx)
      (selectCompany [Eq ''id'' (VUuid i)]) w = (rq, w1)" by fastforce
  from scan_law [OF v q exec_select_company(1)] q run None show ?thesis
    by (auto simp: CompanyRepository_GetByID_def with_sql_def split: sum.splits)
qed

lemma get_by_name_law:
  assumes v: "view ctx w = Some l" and run: "CompanyRepository_GetByName pg ctx n w = (r, w')"
  shows "case r of
      Inr c \<Rightarrow> c \<in> set (members l) \<and> Name c = n \<and> view ctx w' = Some l
    | Inl e \<Rightarrow> opaque_error e
        \<or> errors_Is e ErrNotFound \<and> n \<notin> Name ` set (members l) \<and> view ctx w' = Some l"
proof (cases "ToSql pg (selectCompany [Eq ''name'' (VText n)])")
  case (Some e)
  with run ToSql_error show ?thesis by (auto simp: CompanyRepository_GetByName_def with_sql_def)
next
  case None
  let ?x = "executorFromContext ctx"
  obtain rq w1 where q: "QueryRow pg ?x (selectCompany [Eq ''name'' (VText n)]) w = (rq, w1)"
    by fastforce
  show ?thesis
  proof (cases "text_ok n")
    case True
    from scan_law [OF v q exec_select_company(2) [OF True]] q run None show ?thesis
      by (auto simp: CompanyRepository_GetByName_def with_sql_def split: sum.splits)
  next
    case False
    from exec_select_company(3) [OF False, of "now ?x w" "conc lib l"] row_view [OF v q]
    obtain e where "rq = Inl e" "internal_error e"
      by (auto simp: row_answer_def split: sum.splits)
    with q run None show ?thesis
      by (auto simp: CompanyRepository_GetByName_def with_sql_def)
  qed
qed

lemma reads_frame:
  assumes v: "view ctx w = Some l"
  shows "view Background (snd (CompanyRepository_GetByID pg ctx i w)) = view Background w"
    and "view Background (snd (CompanyRepository_GetByName pg ctx n w)) = view Background w"
proof -
  have frame: "view Background (snd (QueryRow pg (executorFromContext ctx) (selectCompany conds) w))
      = view Background w" for conds
    by (rule row_frame [OF v]) (auto simp: selectCompany_def split: sum.splits option.splits)
  show "view Background (snd (CompanyRepository_GetByID pg ctx i w)) = view Background w"
    using frame [of "[Eq ''id'' (VUuid i)]"]
    by (auto simp: CompanyRepository_GetByID_def with_sql_def split: option.split prod.split sum.split)
  show "view Background (snd (CompanyRepository_GetByName pg ctx n w)) = view Background w"
    using frame [of "[Eq ''name'' (VText n)]"]
    by (auto simp: CompanyRepository_GetByName_def with_sql_def split: option.split prod.split sum.split)
qed

lemma writes_frame:
  assumes v: "view ctx w = Some l" and tx: "txContextKey ctx \<noteq> None"
  shows "view Background (snd (CompanyRepository_Create pg ctx c w)) = view Background w"
    and "view Background (snd (CompanyRepository_Update pg ctx c w)) = view Background w"
    and "view Background (snd (CompanyRepository_Delete pg ctx i w)) = view Background w"
  using exec_frame [OF v tx, of "company_insert c"] exec_frame [OF v tx, of "company_update c"]
    exec_frame [OF v tx, of "company_delete i"]
  by (auto simp: CompanyRepository_Create_def CompanyRepository_Update_def
      CompanyRepository_Delete_def with_sql_def try_io_def split: option.split prod.split sum.split)

subsection \<open>The outbox repository\<close>

lemma store_law:
  assumes v: "view ctx w = Some l" and ev: "event_texts_ok ev"
    and run: "OutboxRepository_Store lib pg ctx ev w = (r, w')"
  shows "case r of
      None \<Rightarrow> e_ID ev \<notin> entry_id ` set (outbox l) \<and> json_safe_event ev
        \<and> (\<exists>t. view ctx w' = Some (with_event t ev l))
    | Some e \<Rightarrow> opaque_error e"
proof (cases "marshal_event lib ev")
  case (Inl e)
  with run marshal_event_Inl [OF Inl] show ?thesis by (auto simp: OutboxRepository_Store_def)
next
  case (Inr j)
  note safe = marshal_event_safe(1) [OF Inr ev]
  let ?x = "executorFromContext ctx"
  show ?thesis
  proof (cases "ToSql pg (outbox_insert ev j)")
    case (Some e)
    with Inr run ToSql_error show ?thesis
      by (auto simp: OutboxRepository_Store_def with_sql_def)
  next
    case None
    obtain re w1 where e: "Exec pg ?x (outbox_insert ev j) w = (re, w1)" by fastforce
    note ans = exec_view [OF v e, unfolded exec_outbox_insert [OF lib_ok Inr ev]]
    from v have l: "ledger_ok l" by (simp add: view_Some)
    show ?thesis
    proof (cases re)
      case re: (Inr n)
      with ans have fresh: "e_ID ev \<notin> entry_id ` set (outbox l)"
        and t: "tables ?x w1 = Some (conc lib (with_event (now ?x w) ev l))"
        by (auto simp: exec_answer_def split: if_splits)
      from l safe fresh have "ledger_ok (with_event (now ?x w) ev l)" by (rule ledger_ok_with_event)
      with re e run None Inr t fresh safe show ?thesis
        by (auto simp: OutboxRepository_Store_def with_sql_def view_Some)
    next
      case (Inl err)
      with ans have "opaque_error err" by (auto simp: exec_answer_def split: if_splits)
      with Inl e run None Inr show ?thesis
        by (auto simp: OutboxRepository_Store_def with_sql_def)
    qed
  qed
qed

lemma stores_frame:
  assumes v: "view ctx w = Some l" and tx: "txContextKey ctx \<noteq> None"
  shows "view Background (snd (OutboxRepository_Store lib pg ctx ev w)) = view Background w"
proof -
  have "view Background w1 = view Background w"
    if "Exec pg (executorFromContext ctx) st w = (r1, w1)" for st r1 w1
    using exec_frame [OF v tx, of st] that by simp
  then show ?thesis
    by (auto simp: OutboxRepository_Store_def with_sql_def try_io_def
        split: option.split prod.split sum.split)
qed

subsection \<open>The transaction manager\<close>

lemma tx_law:
  assumes v: "view Background w = Some l" and fn: "works_inside view l fn"
    and run: "TransactionManager_WithinTransaction pg Background fn w = (r, w')"
  shows "(\<exists>e. r = Inl e \<and> opaque_error e) \<and> view Background w' = Some l \<and> outside w' = outside w
      \<or> (\<exists>t w1 r1 w2. view (tx_ctx t) w1 = Some l \<and> outside w1 = outside w \<and>
          fn (tx_ctx t) w1 = (r1, w2) \<and> outside w' = outside w2 \<and>
          (case r1 of
             Inl e \<Rightarrow> (\<exists>e'. r = Inl e' \<and> root_cause e' = root_cause e) \<and> view Background w' = Some l
           | Inr a \<Rightarrow>
               r = Inr a \<and> view Background w' = view (tx_ctx t) w2
               \<or> (\<exists>e. r = Inl e \<and> opaque_error e)
                  \<and> (view Background w' = Some l \<or> view Background w' = view (tx_ctx t) w2)))"
proof -
  have ctx: "Background\<lparr>txContextKey := Some t\<rparr> = tx_ctx t" for t
    by (simp add: Background_def tx_ctx_def)
  obtain rb w1 where b: "Begin pg w = (rb, w1)" by fastforce
  note bl = Begin_answer [OF b]
  have out1: "outside w1 = outside w" using transactions_outside(1) [of w] b by simp
  have v1: "view Background w1 = Some l" using v bl by (simp add: ledger_view_def)
  show ?thesis
  proof (cases rb)
    case (Inl e)
    with b bl run v1 out1 show ?thesis
      by (auto simp: TransactionManager_WithinTransaction_def txFromContext_def)
  next
    case (Inr t)
    with bl v have vt: "view (tx_ctx t) w1 = Some l" by (simp add: ledger_view_def)
    obtain r1 w2 where f: "fn (tx_ctx t) w1 = (r1, w2)" by fastforce
    from fn vt f v1 have v2: "view Background w2 = Some l"
      and alive: "\<And>a. r1 = Inr a \<Longrightarrow> view (tx_ctx t) w2 \<noteq> None"
      by (auto simp: works_inside_def)
    show ?thesis
    proof (cases r1)
      case (Inl e)
      obtain rr w3 where rb': "Rollback pg t w2 = (rr, w3)" by fastforce
      from Rollback_answer [OF rb'] v2 have "view Background w3 = Some l"
        by (simp add: ledger_view_def)
      with Inl Inr b f rb' run have "(\<exists>e'. r = Inl e' \<and> root_cause e' = root_cause e)
          \<and> view Background w' = Some l \<and> w' = w3"
        by (cases rr) (auto simp: TransactionManager_WithinTransaction_def txFromContext_def ctx)
      moreover have "outside w3 = outside w2" using transactions_outside(3) [of t w2] rb' by simp
      ultimately show ?thesis using Inl vt f out1
        by (intro disjI2 exI [of _ t] exI [of _ w1] exI [of _ r1] exI [of _ w2]) auto
    next
      case a: (Inr a)
      from alive [OF a] obtain l2 where l2: "view (tx_ctx t) w2 = Some l2" by auto
      then have t2: "tables (TxExecutor t) w2 = Some (conc lib l2)" by (simp add: view_Some)
      obtain rc w3 where c: "Commit pg t w2 = (rc, w3)" by fastforce
      note cl = Commit_answer [OF t2 c]
      from a Inr b f c run have w': "w' = w3"
        and r: "r = (case rc of None \<Rightarrow> Inr a | Some e \<Rightarrow> Inl (wrap ''commit transaction'' e))"
        by (auto simp: TransactionManager_WithinTransaction_def txFromContext_def ctx try_cmd_def
            split: option.splits)
      have same: "view Background w3 = view (tx_ctx t) w2"
        if "tables PoolExecutor w3 = Some (conc lib l2)"
        using that t2 by (simp add: ledger_view_def)
      have kept: "view Background w3 = Some l" if "tables PoolExecutor w3 = tables PoolExecutor w2"
        using that v2 by (simp add: ledger_view_def)
      from cl r w' same kept a have "r = Inr a \<and> view Background w' = view (tx_ctx t) w2
          \<or> (\<exists>e. r = Inl e \<and> opaque_error e)
             \<and> (view Background w' = Some l \<or> view Background w' = view (tx_ctx t) w2)"
        by (cases rc) auto
      moreover have "outside w' = outside w2" using transactions_outside(2) [of t w2] c w' by simp
      ultimately show ?thesis using a vt f out1
        by (intro disjI2 exI [of _ t] exI [of _ w1] exI [of _ r1] exI [of _ w2]) simp
    qed
  qed
qed

end


subsection \<open>The contracts are kept\<close>

sublocale company_database \<subseteq> repository: company_store "NewCompanyRepository pg" "ledger_view lib tables"
proof
  show "view ctx w = Some l \<Longrightarrow> ledger_ok l" for ctx w l
    by (simp add: view_Some)
qed (simp_all add: NewCompanyRepository_def get_by_id_law get_by_name_law create_law update_law
    delete_law reads_frame writes_frame)

sublocale company_database \<subseteq> outbox_table: event_store "NewOutboxRepository_Store lib pg" "ledger_view lib tables"
  by unfold_locales (simp_all add: NewOutboxRepository_Store_def store_law stores_frame)

lemma nested_transaction:
  "txContextKey ctx \<noteq> None \<Longrightarrow> TransactionManager_WithinTransaction pg ctx fn w = fn ctx w"
  by (simp add: TransactionManager_WithinTransaction_def txFromContext_def)

sublocale company_database \<subseteq> manager: transactional "NewTransactionManager pg" "ledger_view lib tables"
    outside
proof unfold_locales
  fix w l w' and fn :: "ctx \<Rightarrow> ('w, goerr, 'b) io" and r
  assume v: "view Background w = Some l" "works_inside view l fn"
    and run: "WithinTransaction (NewTransactionManager pg) Background fn w = (r, w')"
  from run have "TransactionManager_WithinTransaction pg Background fn w = (r, w')"
    by (simp add: NewTransactionManager_def)
  with v show "(\<exists>e. r = Inl e \<and> opaque_error e) \<and> view Background w' = Some l \<and> outside w' = outside w
      \<or> (\<exists>t w1 r1 w2. view (tx_ctx t) w1 = Some l \<and> outside w1 = outside w \<and>
          fn (tx_ctx t) w1 = (r1, w2) \<and> outside w' = outside w2 \<and>
          (case r1 of
             Inl e \<Rightarrow> (\<exists>e'. r = Inl e' \<and> root_cause e' = root_cause e) \<and> view Background w' = Some l
           | Inr a \<Rightarrow>
               r = Inr a \<and> view Background w' = view (tx_ctx t) w2
               \<or> (\<exists>e. r = Inl e \<and> opaque_error e)
                  \<and> (view Background w' = Some l \<or> view Background w' = view (tx_ctx t) w2)))"
    by (rule tx_law)
qed (simp add: NewTransactionManager_def nested_transaction)

locale service_database = company_database pg tables now outside lib
  for pg :: "'w driver" and tables :: "executor \<Rightarrow> 'w \<Rightarrow> database option"
    and now :: "executor \<Rightarrow> 'w \<Rightarrow> time" and outside :: "'w \<Rightarrow> 's" and lib :: uuid_lib +
  fixes rt :: "'w runtime"
  assumes time_leaves: "tables x (snd (time_Now rt w)) = tables x w"
    and uuid_leaves: "tables x (snd (uuid_New rt w)) = tables x w"

sublocale service_database \<subseteq> service: company_service "NewCompanyRepository pg"
    "NewOutboxRepository_Store lib pg" "NewTransactionManager pg" "ledger_view lib tables" outside rt
  by unfold_locales (simp_all add: ledger_view_def time_leaves uuid_leaves)

end
