(* ===== verification/Delivery.thy ===== *)
theory Delivery
  imports Publisher Repositories
begin

text \<open>
  What the publisher achieves: the contracts of its queue and of the broker, at-least-once delivery
  under them, and the proof that the outbox repository keeps the queue's contract.
\<close>

subsection \<open>Marks\<close>

text \<open>What a batch writes to an entry.\<close>

datatype mark = MarkedPublished time | MarkedFailed time string

fun mark_entry :: "mark \<Rightarrow> entry \<Rightarrow> entry" where
  "mark_entry (MarkedPublished t) en = marked_published t en"
| "mark_entry (MarkedFailed t msg) en = marked_failed t msg en"

definition apply_mark :: "uuid \<times> mark \<Rightarrow> ledger \<Rightarrow> ledger" where
  "apply_mark im l = with_entry (fst im) (mark_entry (snd im)) l"

definition apply_marks :: "(uuid \<times> mark) list \<Rightarrow> ledger \<Rightarrow> ledger" where
  "apply_marks marks l = fold apply_mark marks l"

lemma apply_marks_simps [simp]:
  "apply_marks [] l = l" "apply_marks (im # marks) l = apply_marks marks (apply_mark im l)"
  by (simp_all add: apply_marks_def)

lemma mark_entry_frame [simp]:
  "en_event (mark_entry m en) = en_event en" "en_attempts en \<le> en_attempts (mark_entry m en)"
  by (cases m; simp add: marked_published_def marked_failed_def)+

lemma apply_mark_frame [simp]:
  "members (apply_mark im l) = members l"
  "map en_event (outbox (apply_mark im l)) = map en_event (outbox l)"
  by (simp_all add: apply_mark_def with_entry_def replace_by_def)

lemma apply_marks_frame [simp]:
  "members (apply_marks marks l) = members l"
  "map en_event (outbox (apply_marks marks l)) = map en_event (outbox l)"
  by (induction marks arbitrary: l) simp_all

lemma ledger_ok_apply_mark: "ledger_ok l \<Longrightarrow> ledger_ok (apply_mark im l)"
  by (auto simp: apply_mark_def intro: ledger_ok_with_entry)

lemma ledger_ok_apply_marks: "ledger_ok l \<Longrightarrow> ledger_ok (apply_marks marks l)"
  by (induction marks arbitrary: l) (auto simp: ledger_ok_apply_mark)

text \<open>Marks with ids of their own act entry by entry.\<close>

lemma outbox_apply_marks:
  assumes "distinct (map fst marks)"
  shows "outbox (apply_marks marks l) =
    map (\<lambda>en. case map_of marks (entry_id en) of None \<Rightarrow> en | Some m \<Rightarrow> mark_entry m en) (outbox l)"
  using assms
proof (induction marks arbitrary: l)
  case (Cons im marks)
  obtain i m where im: "im = (i, m)" by (cases im)
  with Cons.prems have i: "map_of marks i = None" by (auto simp: map_of_eq_None_iff)
  have "outbox (apply_mark im l) = map (\<lambda>en. if entry_id en = i then mark_entry m en else en) (outbox l)"
    by (simp add: apply_mark_def with_entry_def replace_by_def im)
  with Cons im i show ?case by (auto simp: comp_def)
qed simp

text \<open>
  Every entry that counts as published has reached the broker; \<open>message\<close> is what a producer makes
  of an event.
\<close>

definition delivered :: "(event \<Rightarrow> 'm) \<Rightarrow> ledger \<Rightarrow> 'm list \<Rightarrow> bool" where
  "delivered message l sent \<longleftrightarrow>
     (\<forall>en\<in>set (outbox l). en_published en \<noteq> None \<longrightarrow> message (en_event en) \<in> set sent)"

lemma delivered_more: "delivered msg l s \<Longrightarrow> delivered msg l (s @ t)"
  by (auto simp: delivered_def)

definition honest_mark :: "(event \<Rightarrow> 'm) \<Rightarrow> ledger \<Rightarrow> 'm list \<Rightarrow> uuid \<times> mark \<Rightarrow> bool" where
  "honest_mark message l sent im \<longleftrightarrow>
     (\<forall>en\<in>set (outbox l). \<forall>t. entry_id en = fst im \<and> snd im = MarkedPublished t
        \<longrightarrow> message (en_event en) \<in> set sent)"

text \<open>
  What went out for the events \<open>evs\<close>, in their order, with at most \<open>n\<close> copies of each: one call of
  Publish may leave several copies of its event, because the client of a broker repeats what was not
  acknowledged in time.  \<open>leaves_at_most\<close> says how many one call can leave.
\<close>

fun in_order :: "nat \<Rightarrow> (event \<Rightarrow> 'm) \<Rightarrow> event list \<Rightarrow> 'm list \<Rightarrow> bool" where
  "in_order n message [] acc \<longleftrightarrow> acc = []"
| "in_order n message (ev # evs) acc \<longleftrightarrow>
     (\<exists>k\<le>n. \<exists>rest. acc = replicate k (message ev) @ rest \<and> in_order n message evs rest)"

definition leaves_at_most :: "nat \<Rightarrow> 'w EventProducer \<Rightarrow> ('w \<Rightarrow> 'm list) \<Rightarrow> bool" where
  "leaves_at_most n producer sent \<longleftrightarrow>
     (\<forall>ctx ev w. length (sent (snd (Publish producer ctx ev w))) \<le> length (sent w) + n)"

lemma leaves_at_mostD:
  "leaves_at_most n producer sent \<Longrightarrow> Publish producer ctx ev w = (r, w')
    \<Longrightarrow> length (sent w') \<le> length (sent w) + n"
  by (metis leaves_at_most_def snd_conv)

lemma in_order_none [simp]: "in_order n msg evs []"
  by (induction evs) auto

lemma in_order_one: "k \<le> n \<Longrightarrow> in_order n msg (ev # evs) (replicate k (msg ev))"
  by (auto intro: exI [of _ k])

lemma in_order_Cons:
  "in_order n msg evs acc \<Longrightarrow> k \<le> n \<Longrightarrow> in_order n msg (ev # evs) (replicate k (msg ev) @ acc)"
  by auto

lemma delivered_apply_marks:
  assumes "delivered msg l s" and "distinct (map fst marks)" and "\<forall>im\<in>set marks. honest_mark msg l s im"
  shows "delivered msg (apply_marks marks l) s"
  unfolding delivered_def
proof (intro ballI impI)
  fix en assume en: "en \<in> set (outbox (apply_marks marks l))" "en_published en \<noteq> None"
  then obtain en0 where en0: "en0 \<in> set (outbox l)"
    "en = (case map_of marks (entry_id en0) of None \<Rightarrow> en0 | Some m \<Rightarrow> mark_entry m en0)"
    by (auto simp: outbox_apply_marks [OF assms(2)])
  show "msg (en_event en) \<in> set s"
  proof (cases "map_of marks (entry_id en0)")
    case None
    with en0 en assms(1) show ?thesis by (simp add: delivered_def)
  next
    case (Some m)
    then have "honest_mark msg l s (entry_id en0, m)" using assms(3) map_of_SomeD by fastforce
    with Some en0 en assms(1) show ?thesis
      by (cases m) (auto simp: honest_mark_def delivered_def marked_failed_def marked_published_def)
  qed
qed

subsection \<open>Interfaces\<close>

locale outbox_queue =
  fixes queue :: "'w OutboxQueue"
    and led :: "ctx \<Rightarrow> 'w \<Rightarrow> ledger option"
    and sent :: "'w \<Rightarrow> 'm list"
    and clock :: "ctx \<Rightarrow> 'w \<Rightarrow> time"
  assumes Fetch_law: "led ctx w = Some l \<Longrightarrow> FetchPending queue ctx n w = (r, w') \<Longrightarrow>
      sent w' = sent w \<and> (txContextKey ctx \<noteq> None \<longrightarrow> led Background w' = led Background w)
      \<and> (\<forall>evs. r = Inr evs \<longrightarrow>
           evs = map outbox_event_of (pending (clock ctx w) (unat n) l) \<and> led ctx w' = Some l)"
    and MarkPublished_law: "led ctx w = Some l \<Longrightarrow> MarkPublished queue ctx i w = (r', w') \<Longrightarrow>
      sent w' = sent w \<and> (txContextKey ctx \<noteq> None \<longrightarrow> led Background w' = led Background w)
      \<and> (r' = None \<longrightarrow> (\<exists>t. led ctx w' = Some (apply_mark (i, MarkedPublished t) l)))"
    and MarkFailed_law: "led ctx w = Some l \<Longrightarrow> MarkFailed queue ctx i e w = (r', w') \<Longrightarrow>
      sent w' = sent w \<and> (txContextKey ctx \<noteq> None \<longrightarrow> led Background w' = led Background w)
      \<and> (r' = None \<longrightarrow> (\<exists>t. led ctx w' = Some (apply_mark (i, MarkedFailed t (error_text e)) l)))"

text \<open>
  A broker that has accepted an event, as the message the producer makes of it, when it says so, and
  perhaps when it reports an error; perhaps more than once.
\<close>

locale event_broker =
  fixes message :: "event \<Rightarrow> 'm"
    and producer :: "'w EventProducer"
    and led :: "ctx \<Rightarrow> 'w \<Rightarrow> ledger option"
    and sent :: "'w \<Rightarrow> 'm list"
  assumes Publish_law: "Publish producer ctx ev w = (r', w') \<Longrightarrow>
      \<exists>k. sent w' = sent w @ replicate k (message ev) \<and> (r' = None \<longrightarrow> 0 < k)"
    and Publish_frame: "led c (snd (Publish producer ctx ev w)) = led c w"

locale publishing =
  outbox_queue queue led sent clock + event_broker message producer led sent + transactional runner led sent
  for queue :: "'w OutboxQueue" and message :: "event \<Rightarrow> 'm" and producer :: "'w EventProducer"
    and runner :: "('w, unit) TransactionRunner" and led :: "ctx \<Rightarrow> 'w \<Rightarrow> ledger option"
    and sent :: "'w \<Rightarrow> 'm list" and clock :: "ctx \<Rightarrow> 'w \<Rightarrow> time" +
  fixes p :: "'w Publisher"
  assumes p: "pub_repo p = queue" "pub_producer p = producer" "pub_tx p = Some runner"
begin

text \<open>
  The loop over the fetched events: what is sent is a part of them, in their order, and when it
  comes to its end every event has got its mark, \<open>published\<close> only if it was accepted.
\<close>

lemma publish_events_outcome:
  assumes "led ctx w = Some l" and "txContextKey ctx \<noteq> None"
    and "publish_events p ctx evs w = (r, w')"
  shows "led Background w' = led Background w
    \<and> (\<exists>acc. sent w' = sent w @ acc
        \<and> (leaves_at_most n producer sent \<longrightarrow> in_order n message (map o_Event evs) acc)
        \<and> (r = Inr () \<longrightarrow> (\<exists>marks. map fst marks = map o_ID evs
              \<and> led ctx w' = Some (apply_marks marks l)
              \<and> (\<forall>k<length evs. \<forall>t. snd (marks ! k) = MarkedPublished t
                    \<longrightarrow> message (o_Event (evs ! k)) \<in> set acc))))"
  using assms
proof (induction evs arbitrary: w l)
  case Nil
  then show ?case by (auto intro: exI [of _ "[]"])
next
  case (Cons ev evs)
  obtain rp w1 where pub: "Publish producer ctx (o_Event ev) w = (rp, w1)" by fastforce
  have led1: "led c w1 = led c w" for c
    using Publish_frame [of c ctx "o_Event ev" w] pub by simp
  then have ctx1: "led ctx w1 = Some l" using Cons.prems(1) by simp
  from Publish_law [OF pub] obtain k where acc0: "sent w1 = sent w @ replicate k (message (o_Event ev))"
    "rp = None \<longrightarrow> 0 < k" by auto
  let ?acc0 = "replicate k (message (o_Event ev))"
  have copies: "k \<le> n" if "leaves_at_most n producer sent"
    using leaves_at_mostD [OF that pub] acc0(1) by simp
  obtain rm w2 where mark: "(case rp of Some err \<Rightarrow> MarkFailed queue ctx (o_ID ev) err w1
      | None \<Rightarrow> MarkPublished queue ctx (o_ID ev) w1) = (rm, w2)" by fastforce
  have frame2: "sent w2 = sent w1" "led Background w2 = led Background w1"
    and marked: "rm = None \<Longrightarrow> \<exists>m. led ctx w2 = Some (apply_mark (o_ID ev, m) l)
      \<and> (rp \<noteq> None \<longrightarrow> (\<forall>t. m \<noteq> MarkedPublished t))"
    using mark MarkFailed_law [OF ctx1] MarkPublished_law [OF ctx1] Cons.prems(2)
    by (cases rp; fastforce)+
  show ?case
  proof (cases rm)
    case (Some e)
    with pub mark Cons.prems(3) p have "w' = w2" "r \<noteq> Inr ()"
      by (auto split: option.splits)
    with frame2 led1 acc0 copies in_order_one [of k n message "o_Event ev" "map o_Event evs"] show ?thesis
      by (intro conjI exI [of _ ?acc0]) simp_all
  next
    case None
    with marked obtain m where m: "led ctx w2 = Some (apply_mark (o_ID ev, m) l)"
      "rp \<noteq> None \<longrightarrow> (\<forall>t. m \<noteq> MarkedPublished t)" by auto
    from None pub mark Cons.prems(3) p have "publish_events p ctx evs w2 = (r, w')"
      by (auto split: option.splits)
    from Cons.IH [OF m(1) Cons.prems(2) this] obtain acc where acc:
      "led Background w' = led Background w2" "sent w' = sent w2 @ acc"
      "leaves_at_most n producer sent \<longrightarrow> in_order n message (map o_Event evs) acc"
      and marks: "r = Inr () \<longrightarrow> (\<exists>marks. map fst marks = map o_ID evs
              \<and> led ctx w' = Some (apply_marks marks (apply_mark (o_ID ev, m) l))
              \<and> (\<forall>k<length evs. \<forall>t. snd (marks ! k) = MarkedPublished t
                    \<longrightarrow> message (o_Event (evs ! k)) \<in> set acc))" by auto
    have "leaves_at_most n producer sent \<longrightarrow> in_order n message (map o_Event (ev # evs)) (?acc0 @ acc)"
      using acc(3) copies in_order_Cons [of n message "map o_Event evs" acc k "o_Event ev"] by simp
    moreover have "\<exists>marks. map fst marks = map o_ID (ev # evs) \<and> led ctx w' = Some (apply_marks marks l)
        \<and> (\<forall>k<length (ev # evs). \<forall>t. snd (marks ! k) = MarkedPublished t
             \<longrightarrow> message (o_Event ((ev # evs) ! k)) \<in> set (?acc0 @ acc))" if "r = Inr ()"
    proof -
      from marks that obtain marks where ms: "map fst marks = map o_ID evs"
        "led ctx w' = Some (apply_marks marks (apply_mark (o_ID ev, m) l))"
        "\<forall>k<length evs. \<forall>t. snd (marks ! k) = MarkedPublished t \<longrightarrow> message (o_Event (evs ! k)) \<in> set acc"
        by auto
      show ?thesis
      proof (intro exI [of _ "(o_ID ev, m) # marks"] conjI allI impI)
        fix k t assume "k < length (ev # evs)" "snd (((o_ID ev, m) # marks) ! k) = MarkedPublished t"
        with ms(3) m(2) acc0(2) show "message (o_Event ((ev # evs) ! k)) \<in> set (?acc0 @ acc)"
          by (cases k) auto
      qed (use ms in simp_all)
    qed
    ultimately show ?thesis
      using acc acc0(1) frame2 led1 by (intro conjI exI [of _ "?acc0 @ acc"]) auto
  qed
qed

text \<open>The outcome of a batch for the ledger \<open>l\<close> it started from.\<close>

definition batch_done :: "time \<Rightarrow> ledger \<Rightarrow> 'm list \<Rightarrow> ledger \<Rightarrow> bool" where
  "batch_done t l acc l' \<longleftrightarrow>
     (\<exists>marks. map fst marks = map entry_id (pending t (unat (pub_batch p)) l)
        \<and> l' = apply_marks marks l
        \<and> (\<forall>i u. (i, MarkedPublished u) \<in> set marks \<longrightarrow>
             (\<exists>en\<in>set (pending t (unat (pub_batch p)) l). entry_id en = i \<and> message (en_event en) \<in> set acc)))"

lemma processBatch_outcome:
  assumes led: "led ctx w = Some l" and tx: "txContextKey ctx \<noteq> None"
    and run: "processBatch p ctx w = (r, w')"
  shows "led Background w' = led Background w
    \<and> (\<exists>t acc. sent w' = sent w @ acc
        \<and> (leaves_at_most n producer sent
             \<longrightarrow> in_order n message (map en_event (pending t (unat (pub_batch p)) l)) acc)
        \<and> (r = Inr () \<longrightarrow> (\<exists>l'. led ctx w' = Some l' \<and> batch_done t l acc l')))"
proof -
  obtain rf w1 where f: "FetchPending queue ctx (pub_batch p) w = (rf, w1)" by fastforce
  note fl = Fetch_law [OF led f]
  show ?thesis
  proof (cases rf)
    case (Inl e)
    with f run fl tx p show ?thesis
      by (auto simp: processBatch_def intro!: exI [of _ "[]"])
  next
    case (Inr evs)
    let ?pend = "pending (clock ctx w) (unat (pub_batch p)) l"
    from Inr fl have evs: "evs = map outbox_event_of ?pend" and led1: "led ctx w1 = Some l" by auto
    from Inr f run p have "publish_events p ctx evs w1 = (r, w')"
      by (simp add: processBatch_def)
    note out = publish_events_outcome [OF led1 tx this]
    then obtain acc where acc: "sent w' = sent w1 @ acc"
      "leaves_at_most n producer sent \<longrightarrow> in_order n message (map o_Event evs) acc"
      "led Background w' = led Background w1"
      and marks: "r = Inr () \<longrightarrow> (\<exists>marks. map fst marks = map o_ID evs
              \<and> led ctx w' = Some (apply_marks marks l)
              \<and> (\<forall>k<length evs. \<forall>t. snd (marks ! k) = MarkedPublished t
                    \<longrightarrow> message (o_Event (evs ! k)) \<in> set acc))" by blast
    have maps: "map o_Event evs = map en_event ?pend" "map o_ID evs = map entry_id ?pend"
      by (simp_all add: evs outbox_event_of_def)
    have "\<exists>l'. led ctx w' = Some l' \<and> batch_done (clock ctx w) l acc l'" if "r = Inr ()"
    proof -
      from marks that obtain marks where ms: "map fst marks = map entry_id ?pend"
        "led ctx w' = Some (apply_marks marks l)"
        "\<forall>k<length evs. \<forall>t. snd (marks ! k) = MarkedPublished t \<longrightarrow> message (o_Event (evs ! k)) \<in> set acc"
        using maps by auto
      have "\<exists>en\<in>set ?pend. entry_id en = i \<and> message (en_event en) \<in> set acc"
        if "(i, MarkedPublished u) \<in> set marks" for i u
      proof -
        from that obtain k where k: "k < length marks" "marks ! k = (i, MarkedPublished u)"
          by (auto simp: in_set_conv_nth)
        have len: "length marks = length ?pend" using ms(1) by (metis length_map)
        with k ms(3) evs have "message (en_event (?pend ! k)) \<in> set acc"
          by (auto simp: outbox_event_of_def)
        moreover have "entry_id (?pend ! k) = i"
          using ms(1) k len by (metis fst_conv nth_map)
        ultimately show ?thesis using k len by (auto intro: bexI [of _ "?pend ! k"])
      qed
      with ms show ?thesis by (auto simp: batch_done_def)
    qed
    with acc maps fl tx show ?thesis by auto
  qed
qed

lemma batch_done_delivered:
  assumes "batch_done t l acc l'" and "delivered message l s" and "ledger_ok l"
  shows "delivered message l' (s @ acc)"
proof -
  from assms(1) obtain marks where ms: "map fst marks = map entry_id (pending t (unat (pub_batch p)) l)"
    "l' = apply_marks marks l"
    "\<forall>i u. (i, MarkedPublished u) \<in> set marks \<longrightarrow>
       (\<exists>en\<in>set (pending t (unat (pub_batch p)) l). entry_id en = i \<and> message (en_event en) \<in> set acc)"
    by (auto simp: batch_done_def)
  have "distinct (map fst marks)" using ms(1) distinct_pending [OF assms(3)] by simp
  moreover have "honest_mark message l (s @ acc) im" if "im \<in> set marks" for im
    unfolding honest_mark_def
  proof (intro ballI allI impI)
    fix en u assume en: "en \<in> set (outbox l)" "entry_id en = fst im \<and> snd im = MarkedPublished u"
    then have "(entry_id en, MarkedPublished u) \<in> set marks" using that by (metis prod.collapse)
    with ms(3) obtain en' where en': "en' \<in> set (pending t (unat (pub_batch p)) l)"
      "entry_id en' = entry_id en" "message (en_event en') \<in> set acc" by blast
    have "inj_on entry_id (set (outbox l))"
      using assms(3) by (simp add: ledger_ok_def distinct_map comp_def)
    moreover have "en' \<in> set (outbox l)" using en'(1) set_pending by blast
    ultimately have "en' = en" using en en' by (metis inj_onD)
    with en' show "message (en_event en) \<in> set (s @ acc)" by simp
  qed
  ultimately show ?thesis
    using ms(2) delivered_apply_marks [OF delivered_more [OF assms(2)]] by blast
qed

text \<open>
  A batch in its transaction: all its marks are kept or none, what was sent is sent, and
  at-least-once delivery goes on to hold.
\<close>

lemma ProcessBatch_outcome:
  assumes led: "led Background w = Some l" and ok: "ledger_ok l" and del: "delivered message l (sent w)"
    and run: "ProcessBatch p Background w = (r, w')"
  shows "\<exists>t acc l'. sent w' = sent w @ acc
      \<and> (leaves_at_most n producer sent
           \<longrightarrow> in_order n message (map en_event (pending t (unat (pub_batch p)) l)) acc)
      \<and> led Background w' = Some l' \<and> (l' = l \<or> batch_done t l acc l')
      \<and> (r = Inr () \<longrightarrow> batch_done t l acc l') \<and> delivered message l' (sent w')"
proof -
  have works: "works_inside led l (processBatch p)"
    using processBatch_outcome by (fastforce simp: works_inside_def)
  from run have "WithinTransaction runner Background (processBatch p) w = (r, w')"
    by (simp add: ProcessBatch_def p)
  from transaction [OF led works this] show ?thesis
  proof (elim disjE exE conjE)
    fix e assume "r = Inl e" "led Background w' = Some l" "sent w' = sent w"
    with del show ?thesis by (auto intro!: exI [of _ "[]"])
  next
    fix t w1 r1 w2
    assume led1: "led (tx_ctx t) w1 = Some l" and sent1: "sent w1 = sent w"
      and fn: "processBatch p (tx_ctx t) w1 = (r1, w2)" and sent2: "sent w' = sent w2"
      and out: "case r1 of
             Inl e \<Rightarrow> (\<exists>e'. r = Inl e' \<and> root_cause e' = root_cause e) \<and> led Background w' = Some l
           | Inr a \<Rightarrow>
               r = Inr a \<and> led Background w' = led (tx_ctx t) w2
               \<or> (\<exists>e. r = Inl e \<and> opaque_error e)
                  \<and> (led Background w' = Some l \<or> led Background w' = led (tx_ctx t) w2)"
    from processBatch_outcome [OF led1 tx_ctx_key fn] obtain u acc where
      acc: "sent w2 = sent w1 @ acc"
        "leaves_at_most n producer sent
           \<longrightarrow> in_order n message (map en_event (pending u (unat (pub_batch p)) l)) acc"
      and marks: "r1 = Inr () \<longrightarrow> (\<exists>l'. led (tx_ctx t) w2 = Some l' \<and> batch_done u l acc l')"
      by blast
    have sent': "sent w' = sent w @ acc" using acc sent1 sent2 by simp
    show ?thesis
    proof (cases r1)
      case (Inl e)
      with out acc sent' delivered_more [OF del] show ?thesis by auto
    next
      case (Inr a)
      with marks obtain l' where l': "led (tx_ctx t) w2 = Some l'" "batch_done u l acc l'" by auto
      note del' = batch_done_delivered [OF l'(2) del ok]
      from out Inr l'(1) consider "r = Inr ()" "led Background w' = Some l'"
        | "r \<noteq> Inr ()" "led Background w' = Some l" | "r \<noteq> Inr ()" "led Background w' = Some l'"
        by auto
      then show ?thesis
      proof cases
        case 1
        with acc sent' l' del' show ?thesis by (intro exI [of _ u] exI [of _ acc] exI [of _ l']) simp
      next
        case 2
        with acc sent' delivered_more [OF del] show ?thesis
          by (intro exI [of _ u] exI [of _ acc] exI [of _ l]) simp
      next
        case 3
        with acc sent' l' del' show ?thesis by (intro exI [of _ u] exI [of _ acc] exI [of _ l']) simp
      qed
    qed
  qed
qed

end


subsection \<open>The outbox repository is such a queue\<close>

context company_database
begin

lemma exec_outside: "outside (snd (Exec pg x st w)) = outside w"
  by (rule statements_outside)

lemma fetch_law:
  assumes v: "view ctx w = Some l" and run: "OutboxRepository_FetchPending lib pg ctx n w = (r, w')"
  shows "outside w' = outside w \<and> (txContextKey ctx \<noteq> None \<longrightarrow> view Background w' = view Background w)
    \<and> (\<forall>evs. r = Inr evs \<longrightarrow>
         evs = map outbox_event_of (pending (now (executorFromContext ctx) w) (unat n) l)
         \<and> view ctx w' = Some l)"
proof (cases "ToSql pg (outbox_select (unat n))")
  case (Some e)
  with run show ?thesis by (auto simp: OutboxRepository_FetchPending_def with_sql_def)
next
  case None
  let ?x = "executorFromContext ctx"
  obtain rq w1 where q: "Query pg ?x (outbox_select (unat n)) w = (rq, w1)" by fastforce
  from None q run have w': "w' = w1"
    by (auto simp: OutboxRepository_FetchPending_def with_sql_def try_io_def
        split: sum.splits option.splits)
  from v have t: "tables ?x w = Some (conc lib l)" and l: "ledger_ok l" by (simp_all add: view_Some)
  note law = Query_answer [OF t q, unfolded exec_outbox_select]
  have "outside w1 = outside w" using statements_outside(2) [of ?x "outbox_select (unat n)" w] q by simp
  moreover have "view Background w1 = view Background w" if tx: "txContextKey ctx \<noteq> None"
  proof -
    from executor_tx [OF tx] obtain u where "?x = TxExecutor u" by blast
    with law have "tables PoolExecutor w1 = tables PoolExecutor w" by (simp add: pool_frame_def)
    then show ?thesis by (simp add: ledger_view_def)
  qed
  moreover have "evs = map outbox_event_of (pending (now ?x w) (unat n) l) \<and> view ctx w' = Some l"
    if r: "r = Inr evs" for evs
  proof -
    from r None q run obtain rows where rows: "rq = Inr (rows, None)" "scan_outbox lib rows [] = Inr evs"
      by (auto simp: OutboxRepository_FetchPending_def with_sql_def try_io_def
          split: sum.splits option.splits)
    with law have "rows = map (\<lambda>en. [VUuid (entry_id en), VJson (payload lib (en_event en)),
        VInt (en_attempts en)]) (pending (now ?x w) (unat n) l)"
      and "tables ?x w1 = Some (conc lib l)"
      by (auto simp: query_answer_def)
    moreover have "\<forall>en\<in>set (pending (now ?x w) (unat n) l). entry_ok en"
      using l set_pending by (fastforce simp: ledger_ok_def)
    ultimately show ?thesis
      using rows(2) scan_outbox_entries [OF lib_ok] l w' by (auto simp: view_Some)
  qed
  ultimately show ?thesis using w' by blast
qed

lemma mark_frame:
  assumes v: "view ctx w = Some l" and e: "Exec pg (executorFromContext ctx) st w = (re, w1)"
  shows "outside w1 = outside w \<and> (txContextKey ctx \<noteq> None \<longrightarrow> view Background w1 = view Background w)"
  using exec_frame [OF v, of st] exec_outside [of "executorFromContext ctx" st w] e by simp

lemma mark_published_law:
  assumes v: "view ctx w = Some l" and run: "OutboxRepository_MarkPublished pg ctx i w = (r, w')"
  shows "outside w' = outside w \<and> (txContextKey ctx \<noteq> None \<longrightarrow> view Background w' = view Background w)
    \<and> (r = None \<longrightarrow> (\<exists>t. view ctx w' = Some (apply_mark (i, MarkedPublished t) l)))"
proof (cases "ToSql pg (outbox_published i)")
  case (Some e)
  with run show ?thesis by (auto simp: OutboxRepository_MarkPublished_def with_sql_def)
next
  case None
  let ?x = "executorFromContext ctx"
  obtain re w1 where e: "Exec pg ?x (outbox_published i) w = (re, w1)" by fastforce
  from None e run have w': "w' = w1" and r: "r = None \<longleftrightarrow> (\<exists>n. re = Inr n)"
    by (cases re; auto simp: OutboxRepository_MarkPublished_def with_sql_def)+
  from v have l: "ledger_ok l" by (simp add: view_Some)
  have "\<exists>t. view ctx w' = Some (apply_mark (i, MarkedPublished t) l)" if "r = None"
  proof -
    from that r obtain n where "re = Inr n" by auto
    with exec_view [OF v e] exec_outbox_published [OF l, of "now ?x w" i lib]
    have "tables ?x w1 = Some (conc lib (with_entry i (marked_published (now ?x w)) l))"
      by (auto simp: exec_answer_def)
    moreover have "mark_entry (MarkedPublished t) = marked_published t" for t
      by (rule ext) simp
    ultimately show ?thesis
      using l w' by (auto simp: view_Some apply_mark_def ledger_ok_marked)
  qed
  with mark_frame [OF v e] w' show ?thesis by simp
qed

lemma mark_failed_law:
  assumes v: "view ctx w = Some l" and run: "OutboxRepository_MarkFailed pg ctx i err w = (r, w')"
  shows "outside w' = outside w \<and> (txContextKey ctx \<noteq> None \<longrightarrow> view Background w' = view Background w)
    \<and> (r = None \<longrightarrow> (\<exists>t. view ctx w' = Some (apply_mark (i, MarkedFailed t (error_text err)) l)))"
proof (cases "ToSql pg (outbox_failed i (error_text err))")
  case (Some e)
  with run show ?thesis by (auto simp: OutboxRepository_MarkFailed_def with_sql_def)
next
  case None
  let ?x = "executorFromContext ctx" and ?msg = "error_text err"
  obtain re w1 where e: "Exec pg ?x (outbox_failed i ?msg) w = (re, w1)" by fastforce
  from None e run have w': "w' = w1" and r: "r = None \<longleftrightarrow> (\<exists>n. re = Inr n)"
    by (cases re; auto simp: OutboxRepository_MarkFailed_def with_sql_def)+
  from v have l: "ledger_ok l" by (simp add: view_Some)
  have "\<exists>t. view ctx w' = Some (apply_mark (i, MarkedFailed t ?msg) l)" if "r = None"
  proof -
    from that r obtain n where re: "re = Inr n" by auto
    have "text_ok ?msg \<and> (\<forall>en\<in>set (outbox l). entry_id en = i \<longrightarrow> int4_ok (en_attempts en + 1))"
    proof (rule ccontr)
      assume "\<not> ?thesis"
      then have "\<not> text_ok ?msg
          \<or> (\<exists>en\<in>set (outbox l). entry_id en = i \<and> \<not> int4_ok (en_attempts en + 1))" by blast
      from exec_outbox_failed_error [OF l this, of "now ?x w" lib] re exec_view [OF v e]
      show False by (auto simp: exec_answer_def)
    qed
    with re exec_view [OF v e] exec_outbox_failed [OF l, of ?msg i "now ?x w" lib]
    have "tables ?x w1 = Some (conc lib (with_entry i (marked_failed (now ?x w) ?msg) l))"
      by (auto simp: exec_answer_def)
    moreover have "mark_entry (MarkedFailed t m) = marked_failed t m" for t m
      by (rule ext) simp
    ultimately show ?thesis
      using l w' by (auto simp: view_Some apply_mark_def ledger_ok_marked)
  qed
  with mark_frame [OF v e] w' show ?thesis by simp
qed

end

text \<open>The publisher of \<^verbatim>\<open>main.go\<close>: on the outbox repository, in transactions of the manager.\<close>

definition outbox_publisher ::
    "uuid_lib \<Rightarrow> 'w driver \<Rightarrow> 'w EventProducer \<Rightarrow> int \<Rightarrow> int \<Rightarrow> 'w Publisher" where
  "outbox_publisher lib pg producer interval batchSize =
     NewPublisher (NewOutboxRepository_Queue lib pg) (Some (NewTransactionManager pg)) producer
       interval batchSize"

locale publisher_database = company_database pg tables now sent lib
  for pg :: "'w driver" and tables :: "executor \<Rightarrow> 'w \<Rightarrow> database option"
    and now :: "executor \<Rightarrow> 'w \<Rightarrow> time" and sent :: "'w \<Rightarrow> 'm list" and lib :: uuid_lib +
  fixes message :: "event \<Rightarrow> 'm" and producer :: "'w EventProducer" and interval :: int and batchSize :: int
  assumes Publish_answer: "Publish producer ctx ev w = (r, w') \<Longrightarrow>
      \<exists>k. sent w' = sent w @ replicate k (message ev) \<and> (r = None \<longrightarrow> 0 < k)"
    and Publish_leaves: "tables x (snd (Publish producer ctx ev w)) = tables x w"

sublocale publisher_database \<subseteq> publisher: publishing "NewOutboxRepository_Queue lib pg" message producer
    "NewTransactionManager pg" "ledger_view lib tables" sent
    "\<lambda>ctx w. now (executorFromContext ctx) w" "outbox_publisher lib pg producer interval batchSize"
proof unfold_locales
  show "Publish producer ctx ev w = (r, w') \<Longrightarrow>
      \<exists>k. sent w' = sent w @ replicate k (message ev) \<and> (r = None \<longrightarrow> 0 < k)"
    for ctx ev w r w' by (rule Publish_answer)
  show "ledger_view lib tables c (snd (Publish producer ctx ev w)) = ledger_view lib tables c w"
    for c ctx ev w by (rule ledger_view_cong) (rule Publish_leaves)
  let ?q = "NewOutboxRepository_Queue lib pg"
  show "sent w' = sent w \<and> (txContextKey ctx \<noteq> None \<longrightarrow> view Background w' = view Background w)
      \<and> (\<forall>evs. r = Inr evs \<longrightarrow>
           evs = map outbox_event_of (pending (now (executorFromContext ctx) w) (unat n) l)
           \<and> view ctx w' = Some l)"
    if "view ctx w = Some l" "FetchPending ?q ctx n w = (r, w')" for ctx w l n r w'
    by (rule fetch_law [OF that(1)]) (use that(2) in \<open>simp add: NewOutboxRepository_Queue_def\<close>)
  show "sent w' = sent w \<and> (txContextKey ctx \<noteq> None \<longrightarrow> view Background w' = view Background w)
      \<and> (r = None \<longrightarrow> (\<exists>t. view ctx w' = Some (apply_mark (i, MarkedPublished t) l)))"
    if "view ctx w = Some l" "MarkPublished ?q ctx i w = (r, w')" for ctx w l i r w'
    by (rule mark_published_law [OF that(1)])
      (use that(2) in \<open>simp add: NewOutboxRepository_Queue_def\<close>)
  show "sent w' = sent w \<and> (txContextKey ctx \<noteq> None \<longrightarrow> view Background w' = view Background w)
      \<and> (r = None \<longrightarrow> (\<exists>t. view ctx w' = Some (apply_mark (i, MarkedFailed t (error_text e)) l)))"
    if "view ctx w = Some l" "MarkFailed ?q ctx i e w = (r, w')" for ctx w l i e r w'
    by (rule mark_failed_law [OF that(1)])
      (use that(2) in \<open>simp add: NewOutboxRepository_Queue_def\<close>)
qed (simp_all add: outbox_publisher_def NewPublisher_def)

end
