(* ===== verification/Config.thy ===== *)
theory Config
  imports GoErrors "HOL-Library.Word"
begin

text \<open>
  The configuration of the service (\<^verbatim>\<open>internal/config/config.go\<close>): read from the environment, every
  variable with a default but the two that are required.  The environment is a function, as
  \<^verbatim>\<open>os.Getenv\<close> sees it: an unset variable reads as the empty string.  A \<^verbatim>\<open>time.Duration\<close> is its number
  of nanoseconds.
\<close>

type_synonym environment = "string \<Rightarrow> string"

subsection \<open>Durations\<close>

text \<open>
  \<^verbatim>\<open>time.ParseDuration\<close>, as the standard library has it: a sign, then numbers with units.  The sums
  are those of \<^verbatim>\<open>uint64\<close>, compared with 2 to the 63 where the library does it.
\<close>

definition two63 :: nat where "two63 = 9223372036854775808"
definition two64 :: nat where "two64 = 18446744073709551616"

fun leadingInt :: "nat \<Rightarrow> string \<Rightarrow> (nat \<times> string) option" where
  "leadingInt x [] = Some (x, [])"
| "leadingInt x (c # s) =
     (if \<not> is_digit c then Some (x, c # s)
      else if x > two63 div 10 then None
      else let x = x * 10 + (byte c - 48) in if x > two63 then None else leadingInt x s)"

text \<open>The digits after the point; those that do not fit any more are skipped.\<close>

fun leadingFraction :: "nat \<Rightarrow> nat \<Rightarrow> bool \<Rightarrow> string \<Rightarrow> nat \<times> nat \<times> string" where
  "leadingFraction x scale overflow [] = (x, scale, [])"
| "leadingFraction x scale overflow (c # s) =
     (if \<not> is_digit c then (x, scale, c # s)
      else if overflow then leadingFraction x scale True s
      else if x > (two63 - 1) div 10 then leadingFraction x scale True s
      else let y = x * 10 + (byte c - 48)
           in if y > two63 then leadingFraction x scale True s
              else leadingFraction y (scale * 10) False s)"

definition unit_table :: "(string \<times> nat) list" where
  "unit_table =
     [(''ns'', 1), (''us'', 1000), ([CHR 0xC2, CHR 0xB5, CHR ''s''], 1000),
      ([CHR 0xCE, CHR 0xBC, CHR ''s''], 1000), (''ms'', 1000000), (''s'', 1000000000),
      (''m'', 60000000000), (''h'', 3600000000000)]"

definition unitMap :: "string \<Rightarrow> nat option" where
  "unitMap = map_of unit_table"

definition number_char :: "char \<Rightarrow> bool" where
  "number_char c \<longleftrightarrow> c = CHR ''.'' \<or> is_digit c"

text \<open>
  One number with its unit, and the rest.  The nanoseconds of the part after the point, which Go
  computes in \<^verbatim>\<open>float64\<close>, are a parameter: \<open>fl f unit scale\<close> is \<open>f * (unit / scale)\<close>, cut off.
\<close>

definition parse_component ::
    "(nat \<Rightarrow> nat \<Rightarrow> nat \<Rightarrow> nat) \<Rightarrow> string \<Rightarrow> (nat \<times> string) option" where
  "parse_component fl s =
     (if s = [] \<or> \<not> number_char (hd s) then None
      else
        (case leadingInt 0 s of
           None \<Rightarrow> None
         | Some (v, s1) \<Rightarrow>
             let pre = (length s \<noteq> length s1);
                 point = (s1 \<noteq> [] \<and> hd s1 = CHR ''.'');
                 (f, scale, s2) = (if point then leadingFraction 0 1 False (tl s1) else (0, 1, s1));
                 post = (point \<and> length (tl s1) \<noteq> length s2);
                 u = takeWhile (\<lambda>c. \<not> number_char c) s2;
                 rest = dropWhile (\<lambda>c. \<not> number_char c) s2
             in if \<not> pre \<and> \<not> post then None
                else if u = [] then None
                else
                  (case unitMap u of
                     None \<Rightarrow> None
                   | Some unit \<Rightarrow>
                       if v > two63 div unit then None
                       else let v = (v * unit + (if f > 0 then fl f unit scale else 0)) mod two64
                            in if v > two63 then None else Some (v, rest))))"

lemma leadingInt_length: "leadingInt x s = Some (v, r) \<Longrightarrow> length r \<le> length s"
  by (induction x s rule: leadingInt.induct)
    (auto simp: Let_def split: if_splits intro: le_SucI)

lemma leadingFraction_length:
  "leadingFraction x sc ov s = (f, sc', r) \<Longrightarrow> length r \<le> length s"
  by (induction x sc ov s rule: leadingFraction.induct)
    (auto simp: Let_def split: if_splits intro: le_SucI)

lemma parse_component_shorter:
  assumes "parse_component fl s = Some (v, rest)"
  shows "length rest < length s"
proof -
  from assms obtain v0 s1 where "leadingInt 0 s = Some (v0, s1)"
    by (auto simp: parse_component_def split: if_splits option.splits)
  then have s1: "length s1 \<le> length s" by (rule leadingInt_length)
  define s2 where "s2 = snd (snd (if s1 \<noteq> [] \<and> hd s1 = CHR ''.''
    then leadingFraction 0 1 False (tl s1) else (0, 1, s1)))"
  have "length s2 \<le> length s1"
    using leadingFraction_length [of 0 1 False "tl s1"]
    by (cases "leadingFraction 0 1 False (tl s1)") (auto simp: s2_def intro: le_trans)
  moreover have "takeWhile (\<lambda>c. \<not> number_char c) s2 \<noteq> []"
    "rest = dropWhile (\<lambda>c. \<not> number_char c) s2"
    using assms \<open>leadingInt 0 s = Some (v0, s1)\<close>
    by (auto simp: parse_component_def s2_def Let_def split: if_splits option.splits prod.splits)
  moreover have "length s2 = length (takeWhile (\<lambda>c. \<not> number_char c) s2)
      + length (dropWhile (\<lambda>c. \<not> number_char c) s2)"
    by (metis length_append takeWhile_dropWhile_id)
  ultimately show ?thesis using s1 by (cases "takeWhile (\<lambda>c. \<not> number_char c) s2") auto
qed

function parse_components ::
    "(nat \<Rightarrow> nat \<Rightarrow> nat \<Rightarrow> nat) \<Rightarrow> nat \<Rightarrow> string \<Rightarrow> nat option" where
  "parse_components fl d s =
     (if s = [] then Some d
      else
        (case parse_component fl s of
           None \<Rightarrow> None
         | Some (v, rest) \<Rightarrow>
             let d = (d + v) mod two64
             in if d > two63 then None else parse_components fl d rest))"
  by pat_completeness auto
termination
  by (relation "measure (\<lambda>(fl, d, s). length s)") (auto dest: parse_component_shorter)

declare parse_components.simps [simp del]

definition ParseDuration :: "(nat \<Rightarrow> nat \<Rightarrow> nat \<Rightarrow> nat) \<Rightarrow> string \<Rightarrow> int option" where
  "ParseDuration fl s =
     (let signed = (s \<noteq> [] \<and> (hd s = CHR ''-'' \<or> hd s = CHR ''+''));
          neg = (s \<noteq> [] \<and> hd s = CHR ''-'');
          s = (if signed then tl s else s)
      in if s = ''0'' then Some 0
         else if s = [] then None
         else
           (case parse_components fl 0 s of
              None \<Rightarrow> None
            | Some d \<Rightarrow>
                if neg then Some (- int d) else if d > two63 - 1 then None else Some (int d)))"

subsection \<open>The settings\<close>

record HTTPConfig =
  Addr :: string
  ReadTimeout :: int
  WriteTimeout :: int
  IdleTimeout :: int
  ShutdownTimeout :: int

record DatabaseConfig =
  URL :: string
  MaxConns :: "32 word"
  MinConns :: "32 word"
  MaxConnLifetime :: int
  MaxConnIdleTime :: int

record AuthConfig =
  JWTSecret :: string

record EventsConfig =
  Producer :: string
  KafkaBrokers :: "string list"
  KafkaTopic :: string
  OutboxPollInterval :: int
  OutboxBatchSize :: int

record Config =
  HTTP :: HTTPConfig
  Database :: DatabaseConfig
  Auth :: AuthConfig
  Events :: EventsConfig

definition getEnv :: "environment \<Rightarrow> string \<Rightarrow> string \<Rightarrow> string" where
  "getEnv env key fallback = (let v = env key in if v \<noteq> '''' then v else fallback)"

definition getInt :: "environment \<Rightarrow> string \<Rightarrow> int \<Rightarrow> int" where
  "getInt env key fallback =
     (let v = env key in
      if v = '''' then fallback
      else (case Atoi v of None \<Rightarrow> fallback | Some n \<Rightarrow> n))"

definition getDuration ::
    "(nat \<Rightarrow> nat \<Rightarrow> nat \<Rightarrow> nat) \<Rightarrow> environment \<Rightarrow> string \<Rightarrow> int \<Rightarrow> int" where
  "getDuration fl env key fallback =
     (let v = env key in
      if v = '''' then fallback
      else (case ParseDuration fl v of None \<Rightarrow> fallback | Some d \<Rightarrow> d))"

text \<open>The loop over the parts: trimmed, and kept unless nothing is left.\<close>

fun trimmed_parts :: "string list \<Rightarrow> string list" where
  "trimmed_parts [] = []"
| "trimmed_parts (p # ps) =
     (let p = TrimSpace p in if p \<noteq> '''' then p # trimmed_parts ps else trimmed_parts ps)"

definition getCSV :: "environment \<Rightarrow> string \<Rightarrow> string list \<Rightarrow> string list" where
  "getCSV env key fallback =
     (let v = env key in
      if v = '''' then fallback
      else let result = trimmed_parts (Split CHR '','' v)
           in if length result = 0 then fallback else result)"

definition Millisecond :: int where "Millisecond = 1000000"
definition Second :: int where "Second = 1000 * Millisecond"
definition Minute :: int where "Minute = 60 * Second"
definition Hour :: int where "Hour = 60 * Minute"

lemmas duration_units = Millisecond_def Second_def Minute_def Hour_def

definition Load :: "(nat \<Rightarrow> nat \<Rightarrow> nat \<Rightarrow> nat) \<Rightarrow> environment \<Rightarrow> goerr + Config" where
  "Load fl env =
     (let cfg = \<lparr>
        HTTP = \<lparr>Addr = getEnv env ''HTTP_ADDR'' '':8080'',
          ReadTimeout = getDuration fl env ''HTTP_READ_TIMEOUT'' (5 * Second),
          WriteTimeout = getDuration fl env ''HTTP_WRITE_TIMEOUT'' (10 * Second),
          IdleTimeout = getDuration fl env ''HTTP_IDLE_TIMEOUT'' (60 * Second),
          ShutdownTimeout = getDuration fl env ''HTTP_SHUTDOWN_TIMEOUT'' (10 * Second)\<rparr>,
        Database = \<lparr>URL = env ''DATABASE_URL'',
          MaxConns = word_of_int (getInt env ''DB_MAX_CONNS'' 10),
          MinConns = word_of_int (getInt env ''DB_MIN_CONNS'' 1),
          MaxConnLifetime = getDuration fl env ''DB_MAX_CONN_LIFETIME'' Hour,
          MaxConnIdleTime = getDuration fl env ''DB_MAX_CONN_IDLE_TIME'' (30 * Minute)\<rparr>,
        Auth = \<lparr>JWTSecret = env ''JWT_SECRET''\<rparr>,
        Events = \<lparr>Producer = getEnv env ''EVENT_PRODUCER'' ''log'',
          KafkaBrokers = getCSV env ''KAFKA_BROKERS'' [''localhost:9092''],
          KafkaTopic = getEnv env ''KAFKA_TOPIC'' ''company.events'',
          OutboxPollInterval = getDuration fl env ''OUTBOX_POLL_INTERVAL'' (2 * Second),
          OutboxBatchSize = getInt env ''OUTBOX_BATCH_SIZE'' 10\<rparr>\<rparr>
      in if URL (Database cfg) = '''' then Inl (OtherError ''DATABASE_URL is required'')
         else if JWTSecret (Auth cfg) = '''' then Inl (OtherError ''JWT_SECRET is required'')
         else Inr cfg)"

subsection \<open>What a setting can be\<close>

text \<open>A duration is a 64-bit number of nanoseconds.\<close>

lemma parse_components_bound:
  "parse_components fl d s = Some r \<Longrightarrow> d \<le> two63 \<Longrightarrow> r \<le> two63"
proof (induction fl d s rule: parse_components.induct)
  case (1 fl d s)
  show ?case
  proof (cases "s = []")
    case False
    with 1 show ?thesis
      by (auto simp: parse_components.simps [of fl d s] Let_def split: option.splits if_splits)
  qed (use 1 in \<open>simp add: parse_components.simps [of fl d "[]"]\<close>)
qed

lemma ParseDuration_range: "ParseDuration fl s = Some d \<Longrightarrow> is_go_int d"
  using parse_components_bound [of fl 0]
  by (fastforce simp: ParseDuration_def Let_def is_go_int_def int_min_def int_max_def two63_def
      split: if_splits option.splits)

lemma getInt_range: "is_go_int fallback \<Longrightarrow> is_go_int (getInt env key fallback)"
  by (auto simp: getInt_def Let_def Atoi_range split: option.split)

lemma getDuration_range: "is_go_int fallback \<Longrightarrow> is_go_int (getDuration fl env key fallback)"
  by (auto simp: getDuration_def Let_def ParseDuration_range split: option.split)

lemma trimmed_parts_eq: "trimmed_parts ps = filter (\<lambda>p. p \<noteq> '''') (map TrimSpace ps)"
  by (induction ps) (simp_all add: Let_def)

lemma Split_Join:
  "ps \<noteq> [] \<Longrightarrow> \<forall>p\<in>set ps. sep \<notin> set p \<Longrightarrow> Split sep (Join sep ps) = ps"
proof (induction ps)
  case (Cons p ps)
  have one: "sep \<notin> set q \<Longrightarrow> Split sep q = [q]" for q
    by (induction q) auto
  have app: "sep \<notin> set q \<Longrightarrow> Split sep (q @ sep # r) = q # Split sep r" for q r
    by (induction q) auto
  show ?case
  proof (cases "ps = []")
    case False
    with Cons app show ?thesis by (simp add: Join_Cons)
  qed (use Cons.prems one in simp)
qed simp

text \<open>
  A setting is a proper one when it is no empty string, a number in its range, or a non-empty list
  of trimmed names.
\<close>

definition proper_list :: "string list \<Rightarrow> bool" where
  "proper_list ps \<longleftrightarrow> ps \<noteq> [] \<and> (\<forall>p\<in>set ps. p \<noteq> '''' \<and> TrimSpace p = p \<and> CHR '','' \<notin> set p)"

lemma TrimSpace_set: "set (TrimSpace s) \<subseteq> set s"
  using TrimSpace_infix [of s] by (metis Un_iff set_append subsetI)

lemma getCSV_proper: "proper_list fallback \<Longrightarrow> proper_list (getCSV env key fallback)"
proof -
  have "CHR '','' \<notin> set (TrimSpace p)" if "p \<in> set (Split CHR '','' v)" for p v
    using that Split_no_sep TrimSpace_set by blast
  then show "proper_list fallback \<Longrightarrow> ?thesis"
    by (auto simp: getCSV_def Let_def trimmed_parts_eq proper_list_def)
qed

lemma URL_not_batch: "proper_list [''localhost:9092'']"
proof -
  have "TrimSpace ''localhost:9092'' = ''localhost:9092''"
    by (rule TrimSpace_id)
      (simp_all add: starts_with_space_def ends_with_space_def decodeLastRune_def IsSpace_def byte_def)
  then show ?thesis by (simp add: proper_list_def)
qed

lemma getEnv_nonempty: "fallback \<noteq> '''' \<Longrightarrow> getEnv env key fallback \<noteq> ''''"
  by (simp add: getEnv_def Let_def)

lemma default_durations:
  "is_go_int (5 * Second)" "is_go_int (10 * Second)" "is_go_int (60 * Second)" "is_go_int Hour"
  "is_go_int (30 * Minute)" "is_go_int (2 * Second)" "is_go_int 10" "is_go_int 1"
  by (simp_all add: is_go_int_def int_min_def int_max_def duration_units)

definition proper_config :: "Config \<Rightarrow> bool" where
  "proper_config cfg \<longleftrightarrow>
     Addr (HTTP cfg) \<noteq> '''' \<and> is_go_int (ReadTimeout (HTTP cfg)) \<and> is_go_int (WriteTimeout (HTTP cfg))
     \<and> is_go_int (IdleTimeout (HTTP cfg)) \<and> is_go_int (ShutdownTimeout (HTTP cfg))
     \<and> URL (Database cfg) \<noteq> '''' \<and> is_go_int (MaxConnLifetime (Database cfg))
     \<and> is_go_int (MaxConnIdleTime (Database cfg)) \<and> JWTSecret (Auth cfg) \<noteq> ''''
     \<and> Producer (Events cfg) \<noteq> '''' \<and> proper_list (KafkaBrokers (Events cfg))
     \<and> KafkaTopic (Events cfg) \<noteq> '''' \<and> is_go_int (OutboxPollInterval (Events cfg))
     \<and> is_go_int (OutboxBatchSize (Events cfg))"

subsection \<open>Properties\<close>

text \<open>
  Property C39: loading the configuration fails exactly when one of the two required variables is
  not set, and says which, the database first.  Whatever else is in the environment, a loaded
  configuration is a proper one: the numbers are in the range of their types, the names are not
  empty, and there is at least one broker, all of them trimmed and not empty.
\<close>

theorem Load_outcome:
  "case Load fl env of
     Inl e \<Rightarrow> env ''DATABASE_URL'' = '''' \<and> e = OtherError ''DATABASE_URL is required''
       \<or> env ''DATABASE_URL'' \<noteq> '''' \<and> env ''JWT_SECRET'' = ''''
          \<and> e = OtherError ''JWT_SECRET is required''
   | Inr cfg \<Rightarrow> proper_config cfg \<and> URL (Database cfg) = env ''DATABASE_URL''
       \<and> JWTSecret (Auth cfg) = env ''JWT_SECRET''"
  by (simp add: Load_def proper_config_def getEnv_nonempty getDuration_range getInt_range
      default_durations getCSV_proper URL_not_batch Let_def)

text \<open>
  A list of names, none of them empty, padded or with a comma in it, is read back from
  the variable that holds them separated by commas.
\<close>

theorem getCSV_roundtrip:
  assumes "proper_list ps" and "env key = Join CHR '','' ps"
  shows "getCSV env key fallback = ps"
proof -
  from assms(1) have ps: "ps \<noteq> []" "\<forall>p\<in>set ps. CHR '','' \<notin> set p"
    and same: "trimmed_parts ps = ps"
    by (auto simp: proper_list_def trimmed_parts_eq filter_id_conv map_idI)
  then have split: "Split CHR '','' (Join CHR '','' ps) = ps" by (simp add: Split_Join)
  moreover have "Join CHR '','' ps \<noteq> ''''"
  proof
    assume "Join CHR '','' ps = ''''"
    with split have "ps = ['''']" by simp
    with assms(1) show False by (simp add: proper_list_def)
  qed
  ultimately show ?thesis using ps same by (simp add: getCSV_def assms(2) Let_def)
qed

theorem getCSV_roundtrip_witness:
  "getCSV (\<lambda>_. ''a:1,b:2'') ''KAFKA_BROKERS'' [] = [''a:1'', ''b:2'']"
proof (rule getCSV_roundtrip)
  have "TrimSpace ''a:1'' = ''a:1''" "TrimSpace ''b:2'' = ''b:2''"
    by (rule TrimSpace_id;
        simp add: starts_with_space_def ends_with_space_def decodeLastRune_def IsSpace_def byte_def)+
  then show "proper_list [''a:1'', ''b:2'']" by (simp add: proper_list_def)
qed simp

text \<open>
  Property C40: the sizes of the pool are cut to 32 bits, without an error: a number of connections
  that fits is used as it is, and one that does not is replaced by another one, what is left of it
  modulo 2 to the 32.
\<close>

theorem pool_size_wraps:
  assumes "Load fl env = Inr cfg" and "n = getInt env ''DB_MAX_CONNS'' 10"
  shows "sint (MaxConns (Database cfg)) = (n + 2 ^ 31) mod 2 ^ 32 - 2 ^ 31
    \<and> (sint (MaxConns (Database cfg)) = n \<longleftrightarrow> - (2 ^ 31) \<le> n \<and> n < 2 ^ 31)"
proof -
  have M: "MaxConns (Database cfg) = word_of_int n"
    using assms by (auto simp: Load_def Let_def split: if_splits)
  have wrap: "sint (word_of_int n :: 32 word) = (n + 2 ^ 31) mod 2 ^ 32 - 2 ^ 31"
    by (simp add: int_word_sint)
  define m where "m = (n + 2 ^ 31) mod 2 ^ 32"
  have "0 \<le> m" "m < 4294967296" by (simp_all add: m_def)
  then have "sint (word_of_int n :: 32 word) = n \<Longrightarrow> - (2 ^ 31) \<le> n \<and> n < 2 ^ 31"
    unfolding wrap m_def [symmetric] by simp
  moreover have "sint (word_of_int n :: 32 word) = n" if "- (2 ^ 31) \<le> n \<and> n < 2 ^ 31"
  proof -
    from that have "(n + 2 ^ 31) mod 2 ^ 32 = n + 2 ^ 31" by (intro mod_pos_pos_trivial) simp_all
    with wrap show ?thesis by simp
  qed
  ultimately show ?thesis unfolding M using wrap by blast
qed

text \<open>4294967297 connections are one.\<close>

definition many_conns :: environment where
  "many_conns = (\<lambda>_. '''')(''DATABASE_URL'' := ''postgres:'', ''JWT_SECRET'' := ''s'',
     ''DB_MAX_CONNS'' := ''4294967297'')"

theorem pool_size_wraps_witness:
  "\<exists>cfg. Load (\<lambda>f u s. 0) many_conns = Inr cfg \<and> sint (MaxConns (Database cfg)) = 1"
proof -
  obtain cfg where cfg: "Load (\<lambda>f u s. 0) many_conns = Inr cfg"
    by (simp add: Load_def many_conns_def Let_def)
  have "getInt many_conns ''DB_MAX_CONNS'' 10 = 4294967297"
    by (simp add: many_conns_def getInt_def Atoi_def unsigned_value_def is_digit_def digits_value_def
        byte_def is_go_int_def int_min_def int_max_def)
  with pool_size_wraps [OF cfg refl] cfg show ?thesis by simp
qed

subsection \<open>Reading a duration\<close>

lemma leadingInt_digits:
  assumes "list_all is_digit ds" and "u = [] \<or> \<not> is_digit (hd u)" and "x \<le> two63"
  shows "leadingInt x (ds @ u) =
    (let v = foldl (\<lambda>n c. 10 * n + (byte c - 48)) x ds in if v \<le> two63 then Some (v, u) else None)"
  using assms(1,3)
proof (induction ds arbitrary: x)
  case Nil
  with assms(2) show ?case by (cases u) auto
next
  case (Cons c ds)
  let ?y = "10 * x + (byte c - 48)"
  have grow: "n \<le> foldl (\<lambda>n c. 10 * n + (byte c - 48)) n ds" for n
  proof (induction ds arbitrary: n)
    case (Cons a ds)
    have "n \<le> 10 * n + (byte a - 48)" by simp
    also have "\<dots> \<le> foldl (\<lambda>n c. 10 * n + (byte c - 48)) n (a # ds)" using Cons by simp
    finally show ?case .
  qed simp
  show ?case
  proof (cases "?y \<le> two63")
    case True
    then have "\<not> x > two63 div 10" by (simp add: two63_def)
    with True Cons show ?thesis by (simp add: Let_def mult.commute)
  next
    case False
    with grow [of ?y] have "\<not> foldl (\<lambda>n c. 10 * n + (byte c - 48)) ?y ds \<le> two63" by linarith
    with False Cons.prems show ?thesis by (auto simp: Let_def mult.commute)
  qed
qed

lemma digits_value_nat:
  "list_all is_digit ds \<Longrightarrow> digits_value ds = int (foldl (\<lambda>n c. 10 * n + (byte c - 48)) 0 ds)"
proof -
  have "list_all is_digit ds \<Longrightarrow>
      foldl (\<lambda>n c. 10 * n + (int (byte c) - 48)) (int x) ds
        = int (foldl (\<lambda>n c. 10 * n + (byte c - 48)) x ds)" for x
  proof (induction ds arbitrary: x)
    case (Cons c ds)
    then have "10 * int x + (int (byte c) - 48) = int (10 * x + (byte c - 48))"
      by (auto simp: is_digit_def)
    with Cons show ?case by (simp only: foldl.simps list.pred_inject)
  qed simp
  from this [of 0] show "list_all is_digit ds \<Longrightarrow> ?thesis" by (simp add: digits_value_def)
qed

lemma unit_table_letters:
  "list_all (\<lambda>(u, k). u \<noteq> [] \<and> list_all (\<lambda>c. \<not> number_char c) u \<and> 0 < k) unit_table"
  by (simp add: unit_table_def number_char_def is_digit_def byte_def)

lemma unit_letters:
  assumes "unitMap u = Some k"
  shows "u \<noteq> []" and "\<forall>c\<in>set u. \<not> number_char c" and "0 < k"
proof -
  from assms have "(u, k) \<in> set unit_table" by (auto simp: unitMap_def dest: map_of_SomeD)
  with unit_table_letters show "u \<noteq> []" "\<forall>c\<in>set u. \<not> number_char c" "0 < k"
    by (auto simp: list_all_iff)
qed

lemma parse_component_digits:
  assumes ds: "list_all is_digit ds" "ds \<noteq> []" and u: "unitMap u = Some k"
  shows "parse_component fl (ds @ u) =
    (if digits_value ds * int k \<le> 2 ^ 63 then Some (nat (digits_value ds) * k, []) else None)"
proof -
  define v where "v = foldl (\<lambda>n c. 10 * n + (byte c - 48)) 0 ds"
  have v: "digits_value ds = int v" unfolding v_def by (rule digits_value_nat) (rule ds)
  note l = unit_letters [OF u]
  then have hd: "u \<noteq> []" "\<not> is_digit (hd u)" "hd u \<noteq> CHR ''.''"
    by (cases u; simp add: number_char_def)+
  have start: "number_char (hd (ds @ u))"
    using ds by (cases ds) (auto simp: number_char_def)
  have int: "leadingInt 0 (ds @ u) = (if v \<le> two63 then Some (v, u) else None)"
    using leadingInt_digits [OF ds(1), of u 0] hd by (simp add: Let_def v_def)
  have unit: "takeWhile (\<lambda>c. \<not> number_char c) u = u" "dropWhile (\<lambda>c. \<not> number_char c) u = []"
    using l(2) by simp_all
  have fits: "v > two63 div k \<longleftrightarrow> \<not> v * k \<le> two63"
    using l(3) by (simp add: less_eq_div_iff_mult_less_eq [symmetric] not_le)
  have bound: "digits_value ds * int k \<le> 2 ^ 63 \<longleftrightarrow> v * k \<le> two63"
    unfolding v two63_def by (simp flip: of_nat_mult)
  show ?thesis
  proof (cases "v * k \<le> two63")
    case True
    moreover from this l(3) have "v \<le> two63" by (cases k) auto
    moreover from True have "(v * k) mod two64 = v * k" by (simp add: two63_def two64_def)
    ultimately show ?thesis
      using ds(2) hd start u fits bound [unfolded v]
      by (simp add: parse_component_def int unit v Let_def del: takeWhile_eq_all_conv)
  next
    case False
    then show ?thesis
      using ds(2) hd start u fits bound [unfolded v]
      by (simp add: parse_component_def int unit v Let_def del: takeWhile_eq_all_conv)
  qed
qed

text \<open>
  A duration written as decimal digits and one unit is read as that many units, if that
  is a duration at all, that is if its nanoseconds fit in 63 bits; otherwise the default is taken.
\<close>

theorem getDuration_reads_units:
  assumes "list_all is_digit ds" and "ds \<noteq> []" and "unitMap u = Some k" and "env key = ds @ u"
  shows "getDuration fl env key fallback =
    (if digits_value ds * int k \<le> int_max then digits_value ds * int k else fallback)"
proof -
  have first: "hd (ds @ u) \<noteq> CHR ''-'' \<and> hd (ds @ u) \<noteq> CHR ''+''" "ds @ u \<noteq> []"
    using assms(1,2) by (cases ds; auto simp: is_digit_def byte_def)+
  have pos: "0 \<le> digits_value ds" using digits_value_nat [OF assms(1)] by simp
  define m where "m = nat (digits_value ds) * k"
  have m: "int m = digits_value ds * int k" using pos by (simp add: m_def)
  have zero: "ds @ u \<noteq> ''0''"
    using unit_letters [OF assms(3)] assms(1,2) by (cases ds; cases "tl ds") (auto simp: number_char_def)
  have "parse_component fl (ds @ u) = (if m \<le> two63 then Some (m, []) else None)"
    using parse_component_digits [OF assms(1,2,3)] m
    by (simp add: m_def [symmetric] two63_def)
  then have "parse_components fl 0 (ds @ u) = (if m \<le> two63 then Some m else None)"
    using assms(2) by (simp add: parse_components.simps [of fl 0 "ds @ u"]
        parse_components.simps [of fl m "[]"] Let_def two63_def two64_def)
  with zero first assms(2) have "ParseDuration fl (ds @ u) = (if m \<le> two63 - 1 then Some (int m) else None)"
    by (simp add: ParseDuration_def Let_def two63_def)
  moreover have "m \<le> two63 - 1 \<longleftrightarrow> digits_value ds * int k \<le> 2 ^ 63 - 1"
    unfolding m [symmetric] two63_def by auto
  ultimately have parsed: "ParseDuration fl (ds @ u) =
      (if digits_value ds * int k \<le> 2 ^ 63 - 1 then Some (digits_value ds * int k) else None)"
    by (simp only: m)
  with assms(2,4) show ?thesis by (simp add: getDuration_def Let_def int_max_def)
qed

theorem getDuration_reads_units_witness:
  "getDuration (\<lambda>f u s. 0) (\<lambda>_. ''15s'') ''HTTP_READ_TIMEOUT'' 7 = 15000000000"
  using getDuration_reads_units [of "''15''" "''s''" 1000000000 "\<lambda>_. ''15s''" "''HTTP_READ_TIMEOUT''"
      "\<lambda>f u s. 0" 7]
  by (simp add: is_digit_def byte_def unitMap_def unit_table_def digits_value_def int_max_def)

end
