(* ===== verification/Producers.thy ===== *)
theory Producers
  imports Json Config
begin

text \<open>
  The event producers (\<^verbatim>\<open>internal/infrastructure/events\<close>): one writes a JSON message per event to a
  Kafka topic, the other writes a line to the log; the configuration chooses.  The Kafka client's
  writer and the logger are parameters, functions on the state of the world.
\<close>

subsection \<open>The Kafka message of an event (\<^verbatim>\<open>kafka_producer.go\<close>)\<close>

record eventCompany =
  ec_ID :: string
  ec_Name :: string
  ec_Description :: string
  ec_AmountOfEmployees :: int
  ec_Registered :: bool
  ec_Type :: CompanyType
  ec_CreatedAt :: time
  ec_UpdatedAt :: time

record kafkaEvent =
  ke_ID :: string
  ke_Type :: string
  ke_OccurredAt :: time
  ke_CompanyID :: string
  ke_Company :: "eventCompany option"

definition toKafkaEvent :: "uuid_lib \<Rightarrow> event \<Rightarrow> kafkaEvent" where
  "toKafkaEvent lib ev =
     \<lparr>ke_ID = uuid_String lib (e_ID ev), ke_Type = e_Type ev, ke_OccurredAt = OccurredAt ev,
      ke_CompanyID = uuid_String lib (CompanyID ev),
      ke_Company = map_option (\<lambda>c.
        \<lparr>ec_ID = uuid_String lib (ID c), ec_Name = Name c, ec_Description = Description c,
         ec_AmountOfEmployees = AmountOfEmployees c, ec_Registered = Registered c, ec_Type = Type c,
         ec_CreatedAt = CreatedAt c, ec_UpdatedAt = UpdatedAt c\<rparr>) (Company ev)\<rparr>"

text \<open>
  \<^verbatim>\<open>json.Marshal\<close> of the two structs, under the names of their tags; a nil company is left out
  (\<^verbatim>\<open>omitempty\<close>).
\<close>

definition marshal_eventCompany :: "eventCompany \<Rightarrow> goerr + json" where
  "marshal_eventCompany c =
     (case marshal_time (ec_CreatedAt c) of
        Inl e \<Rightarrow> Inl e
      | Inr created \<Rightarrow>
          (case marshal_time (ec_UpdatedAt c) of
             Inl e \<Rightarrow> Inl e
           | Inr updated \<Rightarrow> Inr (JObj
               [(''id'', JStr (ToValidUTF8 (ec_ID c))), (''name'', JStr (ToValidUTF8 (ec_Name c))),
                (''description'', JStr (ToValidUTF8 (ec_Description c))),
                (''amount_of_employees'', JInt (ec_AmountOfEmployees c)),
                (''registered'', JBool (ec_Registered c)),
                (''type'', JStr (ToValidUTF8 (ec_Type c))),
                (''created_at'', created), (''updated_at'', updated)])))"

definition marshal_kafkaEvent :: "kafkaEvent \<Rightarrow> goerr + json" where
  "marshal_kafkaEvent ev =
     (case marshal_time (ke_OccurredAt ev) of
        Inl e \<Rightarrow> Inl e
      | Inr occurred \<Rightarrow>
          (let head = [(''id'', JStr (ToValidUTF8 (ke_ID ev))), (''type'', JStr (ToValidUTF8 (ke_Type ev))),
                (''occurred_at'', occurred), (''company_id'', JStr (ToValidUTF8 (ke_CompanyID ev)))]
           in case ke_Company ev of
                None \<Rightarrow> Inr (JObj head)
              | Some c \<Rightarrow>
                  (case marshal_eventCompany c of
                     Inl e \<Rightarrow> Inl e
                   | Inr company \<Rightarrow> Inr (JObj (head @ [(''company'', company)])))))"

record kafka_message =
  Key :: string
  Value :: json
  Time :: time

record 'w kafkaWriter =
  WriteMessages :: "ctx \<Rightarrow> kafka_message list \<Rightarrow> ('w, goerr) cmd"
  kw_Close :: "('w, goerr) cmd"

record 'w KafkaProducer =
  kp_writer :: "'w kafkaWriter"
  kp_topic :: string

text \<open>
  The client library makes a writer of its settings: where to write, how to choose the partition of
  a message (\<open>Hash\<close>: by its key), and whose acknowledgement to wait for.
\<close>

datatype balancer = RoundRobin | Hash

datatype required_acks = RequireNone | RequireOne | RequireAll

record writer_settings =
  ws_Addr :: "string list"
  ws_Topic :: string
  ws_Balancer :: balancer
  ws_RequiredAcks :: required_acks

definition NewKafkaProducer ::
    "(writer_settings \<Rightarrow> 'w kafkaWriter) \<Rightarrow> string list \<Rightarrow> string \<Rightarrow> 'w KafkaProducer" where
  "NewKafkaProducer new_writer brokers topic =
     \<lparr>kp_writer = new_writer \<lparr>ws_Addr = brokers, ws_Topic = topic, ws_Balancer = Hash,
        ws_RequiredAcks = RequireAll\<rparr>,
      kp_topic = topic\<rparr>"

definition KafkaProducer_Publish :: "uuid_lib \<Rightarrow> 'w KafkaProducer \<Rightarrow> ctx \<Rightarrow> event \<Rightarrow> ('w, goerr) cmd" where
  "KafkaProducer_Publish lib p ctx ev w =
     (case marshal_kafkaEvent (toKafkaEvent lib ev) of
        Inl err \<Rightarrow> (Some (wrap ''marshal kafka event'' err), w)
      | Inr payload \<Rightarrow>
          (let m = \<lparr>Key = uuid_String lib (CompanyID ev), Value = payload, Time = OccurredAt ev\<rparr>
           in try_cmd (WriteMessages (kp_writer p) ctx [m])
                (\<lambda>err. Some (wrap ''publish kafka event'' err)) (\<lambda>w. (None, w)) w))"

definition KafkaProducer_Close :: "'w KafkaProducer \<Rightarrow> ctx \<Rightarrow> ('w, goerr) cmd" where
  "KafkaProducer_Close p ctx =
     try_cmd (kw_Close (kp_writer p)) (\<lambda>err. Some (wrap ''close kafka writer'' err)) (\<lambda>w. (None, w))"

text \<open>The producer as the interface of the application.\<close>

definition kafka_event_producer :: "uuid_lib \<Rightarrow> 'w KafkaProducer \<Rightarrow> 'w EventProducer" where
  "kafka_event_producer lib p =
     \<lparr>Publish = KafkaProducer_Publish lib p, Close = KafkaProducer_Close p\<rparr>"

subsection \<open>The log line of an event (\<^verbatim>\<open>log_producer.go\<close>)\<close>

record log_line =
  log_fields :: "(string \<times> json) list"
  log_message :: string

type_synonym 'w logger = "log_line \<Rightarrow> 'w \<Rightarrow> 'w"

definition event_line :: "uuid_lib \<Rightarrow> event \<Rightarrow> log_line" where
  "event_line lib ev =
     \<lparr>log_fields =
        [(''event_id'', JStr (uuid_String lib (e_ID ev))), (''event_type'', JStr (e_Type ev)),
         (''occurred_at'', JTime (OccurredAt ev)),
         (''company_id'', JStr (uuid_String lib (CompanyID ev)))]
        @ (case Company ev of
             None \<Rightarrow> []
           | Some c \<Rightarrow> [(''company_name'', JStr (Name c)), (''company_type'', JStr (Type c))]),
      log_message = ''company event published''\<rparr>"

definition LogProducer_Publish :: "uuid_lib \<Rightarrow> 'w logger \<Rightarrow> ctx \<Rightarrow> event \<Rightarrow> ('w, goerr) cmd" where
  "LogProducer_Publish lib logger ctx ev w = (None, logger (event_line lib ev) w)"

definition LogProducer_Close :: "'w logger \<Rightarrow> ctx \<Rightarrow> ('w, goerr) cmd" where
  "LogProducer_Close logger ctx w =
     (None, logger \<lparr>log_fields = [], log_message = ''event producer closed''\<rparr> w)"

definition NewLogProducer :: "uuid_lib \<Rightarrow> 'w logger \<Rightarrow> 'w EventProducer" where
  "NewLogProducer lib logger =
     \<lparr>Publish = LogProducer_Publish lib logger, Close = LogProducer_Close logger\<rparr>"

subsection \<open>The choice (\<^verbatim>\<open>factory.go\<close>)\<close>

definition ProducerLog :: string where "ProducerLog = ''log''"
definition ProducerKafka :: string where "ProducerKafka = ''kafka''"

text \<open>\<open>quoted\<close> is \<^verbatim>\<open>fmt\<close>'s \<^verbatim>\<open>%q\<close>, as far as it concerns a text without quotes and control characters.\<close>

definition quoted :: "string \<Rightarrow> string" where
  "quoted s = CHR 0x22 # s @ [CHR 0x22]"

definition NewProducer ::
    "uuid_lib \<Rightarrow> 'w logger \<Rightarrow> (writer_settings \<Rightarrow> 'w kafkaWriter) \<Rightarrow> EventsConfig
     \<Rightarrow> goerr + 'w EventProducer" where
  "NewProducer lib logger new_writer cfg =
     (let kind = ToLower (TrimSpace (Producer cfg)) in
      if kind = '''' \<or> kind = ProducerLog then Inr (NewLogProducer lib logger)
      else if kind = ProducerKafka
      then Inr (kafka_event_producer lib
             (NewKafkaProducer new_writer (KafkaBrokers cfg) (KafkaTopic cfg)))
      else Inl (OtherError (''unsupported event producer '' @ quoted (Producer cfg))))"

subsection \<open>What leaves the service\<close>

datatype published = ToKafka kafka_message | ToLog log_line

definition kafka_message_of :: "uuid_lib \<Rightarrow> event \<Rightarrow> kafka_message" where
  "kafka_message_of lib ev =
     \<lparr>Key = uuid_String lib (CompanyID ev),
      Value = (case marshal_kafkaEvent (toKafkaEvent lib ev) of Inl e \<Rightarrow> JNull | Inr v \<Rightarrow> v),
      Time = OccurredAt ev\<rparr>"

text \<open>What the producer of a configuration makes of an event.\<close>

definition published_as :: "uuid_lib \<Rightarrow> EventsConfig \<Rightarrow> event \<Rightarrow> published" where
  "published_as lib cfg ev =
     (if ToLower (TrimSpace (Producer cfg)) = ProducerKafka then ToKafka (kafka_message_of lib ev)
      else ToLog (event_line lib ev))"

lemma kafka_event_producer_simps [simp]:
  "Publish (kafka_event_producer lib p) = KafkaProducer_Publish lib p"
  "Publish (NewLogProducer lib logger) = LogProducer_Publish lib logger"
  by (simp_all add: kafka_event_producer_def NewLogProducer_def)

text \<open>
  The contract of the two sinks: a writer that waits for an acknowledgement and reports no error has
  written its message, at least once; a logger writes its line.  \<open>sent\<close> is what has been written.
\<close>

locale event_sinks =
  fixes new_writer :: "writer_settings \<Rightarrow> 'w kafkaWriter"
    and logger :: "'w logger"
    and sent :: "'w \<Rightarrow> published list"
  assumes WriteMessages_law: "ws_RequiredAcks s \<noteq> RequireNone \<Longrightarrow>
      WriteMessages (new_writer s) ctx [m] w = (r, w') \<Longrightarrow>
      \<exists>k. sent w' = sent w @ replicate k (ToKafka m) \<and> (r = None \<longrightarrow> 0 < k)"
    and logger_law: "sent (logger line w) = sent w @ [ToLog line]"
begin

lemma kafka_publish:
  assumes "KafkaProducer_Publish lib (NewKafkaProducer new_writer brokers topic) ctx ev w = (r, w')"
  shows "\<exists>k. sent w' = sent w @ replicate k (ToKafka (kafka_message_of lib ev)) \<and> (r = None \<longrightarrow> 0 < k)"
proof (cases "marshal_kafkaEvent (toKafkaEvent lib ev)")
  case (Inl e)
  with assms show ?thesis by (auto simp: KafkaProducer_Publish_def intro: exI [of _ 0])
next
  case (Inr payload)
  let ?m = "kafka_message_of lib ev"
  let ?s = "\<lparr>ws_Addr = brokers, ws_Topic = topic, ws_Balancer = Hash, ws_RequiredAcks = RequireAll\<rparr>"
  obtain rw w1 where wm: "WriteMessages (new_writer ?s) ctx [?m] w = (rw, w1)" by fastforce
  with Inr assms have "w' = w1" "r = None \<longleftrightarrow> rw = None"
    by (cases rw; auto simp: KafkaProducer_Publish_def NewKafkaProducer_def kafka_message_of_def Let_def)+
  with WriteMessages_law [OF _ wm] show ?thesis by simp
qed

lemma log_publish:
  assumes "LogProducer_Publish lib logger ctx ev w = (r, w')"
  shows "\<exists>k. sent w' = sent w @ replicate k (ToLog (event_line lib ev)) \<and> (r = None \<longrightarrow> 0 < k)"
  using assms logger_law by (auto simp: LogProducer_Publish_def intro: exI [of _ 1])

text \<open>Whichever producer the configuration chooses, it is such a broker as the publisher needs.\<close>

lemma NewProducer_publishes:
  assumes "NewProducer lib logger new_writer cfg = Inr p"
    and "Publish p ctx ev w = (r, w')"
  shows "\<exists>k. sent w' = sent w @ replicate k (published_as lib cfg ev) \<and> (r = None \<longrightarrow> 0 < k)"
proof -
  let ?kind = "ToLower (TrimSpace (Producer cfg))"
  have distinct: "ProducerKafka \<noteq> ''''" "ProducerKafka \<noteq> ProducerLog"
    by (simp_all add: ProducerKafka_def ProducerLog_def)
  from assms(1) consider
    (Log) "p = NewLogProducer lib logger" "?kind \<noteq> ProducerKafka"
    | (Kafka) "p = kafka_event_producer lib (NewKafkaProducer new_writer (KafkaBrokers cfg) (KafkaTopic cfg))"
        "?kind = ProducerKafka"
    using distinct by (auto simp: NewProducer_def Let_def split: if_splits)
  then show ?thesis
  proof cases
    case Log
    with assms(2) log_publish show ?thesis by (simp add: published_as_def)
  next
    case Kafka
    with assms(2) kafka_publish show ?thesis by (simp add: published_as_def)
  qed
qed

end

subsection \<open>Properties\<close>

text \<open>Events whose texts are valid UTF-8, as those of the outbox are.\<close>

definition valid_texts :: "event \<Rightarrow> bool" where
  "valid_texts ev \<longleftrightarrow> ValidString (e_Type ev)
     \<and> (\<forall>c. Company ev = Some c \<longrightarrow>
          ValidString (Name c) \<and> ValidString (Description c) \<and> ValidString (Type c))"

lemma marshal_time_inject: "marshal_time t = Inr v \<Longrightarrow> marshal_time u = Inr v \<Longrightarrow> t = u"
  by (auto simp: marshal_time_def split: if_splits)

lemma uuid_ValidString [simp]: "uuid_lib_ok lib \<Longrightarrow> ValidString (uuid_String lib u)"
  by (rule ValidString_ascii) (simp add: uuid_lib_ok_def ascii_def list_all_iff)

lemma marshal_time_Inr: "marshal_time t = Inr v \<longleftrightarrow> json_time_ok t \<and> v = JTime t"
  by (auto simp: marshal_time_def)

lemma marshal_eventCompany_Inr:
  "marshal_eventCompany c = Inr v \<longleftrightarrow>
     json_time_ok (ec_CreatedAt c) \<and> json_time_ok (ec_UpdatedAt c) \<and> v = JObj
       [(''id'', JStr (ToValidUTF8 (ec_ID c))), (''name'', JStr (ToValidUTF8 (ec_Name c))),
        (''description'', JStr (ToValidUTF8 (ec_Description c))),
        (''amount_of_employees'', JInt (ec_AmountOfEmployees c)),
        (''registered'', JBool (ec_Registered c)),
        (''type'', JStr (ToValidUTF8 (ec_Type c))),
        (''created_at'', JTime (ec_CreatedAt c)), (''updated_at'', JTime (ec_UpdatedAt c))]"
  by (auto simp: marshal_eventCompany_def marshal_time_def)

lemma toKafkaEvent_inject:
  assumes "uuid_lib_ok lib" and "toKafkaEvent lib ev = toKafkaEvent lib ev'"
  shows "ev = ev'"
  using assms(2)
  by (cases "Company ev"; cases "Company ev'")
    (auto simp: toKafkaEvent_def intro!: event.equality company.equality
      dest: uuid_String_inject [OF assms(1)])

lemma marshal_kafkaEvent_inject:
  assumes "uuid_lib_ok lib" and "valid_texts ev" and "valid_texts ev'"
    and "marshal_kafkaEvent (toKafkaEvent lib ev) = Inr v"
    and "marshal_kafkaEvent (toKafkaEvent lib ev') = Inr v"
  shows "toKafkaEvent lib ev = toKafkaEvent lib ev'"
  using assms
  by (cases "Company ev"; cases "Company ev'")
    (auto simp: toKafkaEvent_def marshal_kafkaEvent_def marshal_eventCompany_Inr marshal_time_Inr
      valid_texts_def Let_def split: sum.splits)

text \<open>A writer that takes down what it is asked to write.\<close>

definition recording_writer :: "kafka_message list kafkaWriter" where
  "recording_writer =
     \<lparr>WriteMessages = (\<lambda>ctx ms w. (None, w @ ms)), kw_Close = (\<lambda>w. (None, w))\<rparr>"

definition recording_producer :: "string \<Rightarrow> kafka_message list KafkaProducer" where
  "recording_producer topic = \<lparr>kp_writer = recording_writer, kp_topic = topic\<rparr>"

lemma recorded_publish:
  "KafkaProducer_Publish lib (recording_producer topic) ctx ev w = (None, w') \<longleftrightarrow>
     (\<exists>payload. marshal_kafkaEvent (toKafkaEvent lib ev) = Inr payload
        \<and> w' = w @ [\<lparr>Key = uuid_String lib (CompanyID ev), Value = payload, Time = OccurredAt ev\<rparr>])"
  by (auto simp: KafkaProducer_Publish_def recording_producer_def recording_writer_def try_cmd_def
      split: sum.split)

text \<open>
  Property C37: a published Kafka message tells its event.  A call of Publish that succeeds hands exactly
  one message to the client library; its key, which decides its partition and so its order, is the id
  of the event's company, its time is the event's, and two published events have the same message value
  only if they are the same event.
\<close>

theorem kafka_message_tells_event:
  assumes "uuid_lib_ok lib" and "valid_texts ev" and "valid_texts ev'"
    and "KafkaProducer_Publish lib (recording_producer topic) ctx ev w = (None, w1)"
    and "KafkaProducer_Publish lib (recording_producer topic) ctx' ev' w1 = (None, w2)"
  shows "\<exists>m m'. w1 = w @ [m] \<and> w2 = w @ [m, m']
    \<and> uuid_Parse lib (Key m) = Inr (CompanyID ev) \<and> uuid_Parse lib (Key m') = Inr (CompanyID ev')
    \<and> Time m = OccurredAt ev \<and> Time m' = OccurredAt ev' \<and> (Value m = Value m' \<longleftrightarrow> ev = ev')"
proof -
  from assms(4,5) obtain v v' where
    v: "marshal_kafkaEvent (toKafkaEvent lib ev) = Inr v" "marshal_kafkaEvent (toKafkaEvent lib ev') = Inr v'"
    and w: "w1 = w @ [\<lparr>Key = uuid_String lib (CompanyID ev), Value = v, Time = OccurredAt ev\<rparr>]"
    "w2 = w1 @ [\<lparr>Key = uuid_String lib (CompanyID ev'), Value = v', Time = OccurredAt ev'\<rparr>]"
    by (auto simp: recorded_publish)
  have "ev = ev'" if "v = v'"
    using toKafkaEvent_inject [OF assms(1) marshal_kafkaEvent_inject [OF assms(1-3)]] v that by simp
  with v have "v = v' \<longleftrightarrow> ev = ev'" by auto
  with w assms(1) show ?thesis by simp
qed

end
