(* ===== verification/World.thy ===== *)
theory World
  imports Delivery Producers
begin

text \<open>
  A world to run the program in: the reference server, a wall clock, a source of UUIDs, a topic and
  a log that keep what has been written to them, and the canonical text of UUIDs.  It satisfies the
  contracts, so what is proved under them can be applied to concrete runs.
\<close>

subsection \<open>The text of a UUID\<close>

definition hex_digit :: "nat \<Rightarrow> char" where
  "hex_digit d = ''0123456789abcdef'' ! d"

fun hex :: "nat \<Rightarrow> nat \<Rightarrow> string" where
  "hex 0 n = []"
| "hex (Suc k) n = hex k (n div 16) @ [hex_digit (n mod 16)]"

definition hex_value :: "char \<Rightarrow> nat option" where
  "hex_value c =
     (if 48 \<le> byte c \<and> byte c \<le> 57 then Some (byte c - 48)
      else if 97 \<le> byte c \<and> byte c \<le> 102 then Some (byte c - 87)
      else if 65 \<le> byte c \<and> byte c \<le> 70 then Some (byte c - 55)
      else None)"

fun unhex :: "nat \<Rightarrow> string \<Rightarrow> nat option" where
  "unhex acc [] = Some acc"
| "unhex acc (c # s) = (case hex_value c of None \<Rightarrow> None | Some d \<Rightarrow> unhex (16 * acc + d) s)"

definition hyphenate :: "string \<Rightarrow> string" where
  "hyphenate h = take 8 h @ ''-'' @ take 4 (drop 8 h) @ ''-'' @ take 4 (drop 12 h) @ ''-''
     @ take 4 (drop 16 h) @ ''-'' @ drop 20 h"

definition canonical_uuids :: uuid_lib where
  "canonical_uuids =
     \<lparr>uuid_String = (\<lambda>u. hyphenate (hex 32 (unat u))),
      uuid_Parse = (\<lambda>s.
        let h = filter (\<lambda>c. c \<noteq> CHR ''-'') s
        in if length h \<noteq> 32 then Inl (OtherError ''invalid UUID length'')
           else (case unhex 0 h of
                   None \<Rightarrow> Inl (OtherError ''invalid UUID format'')
                 | Some n \<Rightarrow> Inr (of_nat n)))\<rparr>"

lemma less_16_cases:
  "(d::nat) < 16 \<Longrightarrow> d = 0 \<or> d = 1 \<or> d = 2 \<or> d = 3 \<or> d = 4 \<or> d = 5 \<or> d = 6 \<or> d = 7 \<or> d = 8
     \<or> d = 9 \<or> d = 10 \<or> d = 11 \<or> d = 12 \<or> d = 13 \<or> d = 14 \<or> d = 15"
  by arith

lemma hex_digit_simps:
  assumes "d < 16"
  shows "hex_value (hex_digit d) = Some d" and "hex_digit d \<noteq> CHR ''-''"
    and "byte (hex_digit d) \<noteq> 0" and "byte (hex_digit d) < 128"
  using less_16_cases [OF assms]
  by (auto simp: hex_digit_def hex_value_def byte_def nth_Cons')

lemma length_hex [simp]: "length (hex k n) = k"
  by (induction k arbitrary: n) auto

lemma set_hex: "c \<in> set (hex k n) \<Longrightarrow> \<exists>d<16. c = hex_digit d"
  by (induction k arbitrary: n) (auto intro: exI [of _ "_ mod 16"])

lemma unhex_append:
  "unhex acc (s @ t) = (case unhex acc s of None \<Rightarrow> None | Some a \<Rightarrow> unhex a t)"
  by (induction s arbitrary: acc) (auto split: option.split)

lemma unhex_hex: "unhex 0 (hex k n) = Some (n mod 16 ^ k)"
proof (induction k arbitrary: n)
  case (Suc k)
  have "16 * (n div 16 mod 16 ^ k) + n mod 16 = n mod (16 * 16 ^ k)"
    by (simp add: mod_mult2_eq)
  with Suc show ?case by (simp add: unhex_append hex_digit_simps)
qed simp

lemma filter_hyphenate:
  assumes "CHR ''-'' \<notin> set h"
  shows "filter (\<lambda>c. c \<noteq> CHR ''-'') (hyphenate h) = h"
proof -
  have all: "filter (\<lambda>c. c \<noteq> CHR ''-'') xs = xs" if "set xs \<subseteq> set h" for xs
    using that assms by (auto simp: filter_id_conv)
  have "take 4 (drop 16 h) @ drop 20 h = drop 16 h" "take 4 (drop 12 h) @ drop 16 h = drop 12 h"
    "take 4 (drop 8 h) @ drop 12 h = drop 8 h" "take 8 h @ drop 8 h = h"
    using append_take_drop_id [of 4 "drop 16 h"] append_take_drop_id [of 4 "drop 12 h"]
      append_take_drop_id [of 4 "drop 8 h"] by simp_all
  then have "take 8 h @ take 4 (drop 8 h) @ take 4 (drop 12 h) @ take 4 (drop 16 h) @ drop 20 h = h"
    by (metis append_assoc)
  moreover have "set (take n (drop m h)) \<subseteq> set h" "set (drop m h) \<subseteq> set h" "set (take n h) \<subseteq> set h"
    for n m by (auto dest: in_set_takeD in_set_dropD)
  ultimately show ?thesis
    by (simp add: hyphenate_def all)
qed

lemma canonical_uuids_ok [simp]: "uuid_lib_ok canonical_uuids"
proof -
  have "uuid_Parse canonical_uuids (uuid_String canonical_uuids u) = Inr u" for u
  proof -
    have "CHR ''-'' \<notin> set (hex 32 (unat u))" using set_hex hex_digit_simps(2) by fastforce
    moreover have "unat u < 2 ^ LENGTH(128)" by (rule unsigned_less)
    then have "unat u mod 16 ^ 32 = unat u" by simp
    ultimately show ?thesis by (simp add: canonical_uuids_def filter_hyphenate unhex_hex)
  qed
  moreover have "byte c \<noteq> 0 \<and> byte c < 128" if "c \<in> set (uuid_String canonical_uuids u)" for c u
  proof -
    from that have "c = CHR ''-'' \<or> c \<in> set (hex 32 (unat u))"
      by (auto simp: canonical_uuids_def hyphenate_def dest: in_set_takeD in_set_dropD)
    then show ?thesis using set_hex hex_digit_simps(3,4) by (fastforce simp: byte_def)
  qed
  ultimately show ?thesis by (simp add: uuid_lib_ok_def)
qed

subsection \<open>Clock, UUIDs and broker\<close>

record world = dbserver +
  wall_clock :: time
  uuid_count :: nat
  broker :: "published list"
  broker_faults :: "fault list"
  open_pools :: nat

text \<open>The clock moves on by a millisecond whenever it is read, to the end of the year 9999.\<close>

definition last_instant :: time where
  "last_instant = 253402300799 * 1000000000"

definition world_runtime :: "world runtime" where
  "world_runtime =
     \<lparr>time_Now = (\<lambda>w. (wall_clock w, w\<lparr>wall_clock := min (wall_clock w + 1000000) last_instant\<rparr>)),
      uuid_New = (\<lambda>w. (of_nat (Suc (uuid_count w)), w\<lparr>uuid_count := Suc (uuid_count w)\<rparr>))\<rparr>"

definition world_write :: "kafka_message list \<Rightarrow> (world, goerr) cmd" where
  "world_write ms w0 =
     (let (f, w) = (case broker_faults w0 of
                      [] \<Rightarrow> (Works, w0) | f # fs \<Rightarrow> (f, w0\<lparr>broker_faults := fs\<rparr>))
      in (case f of
            Works \<Rightarrow> (None, w\<lparr>broker := broker w @ map ToKafka ms\<rparr>)
          | Refused m \<Rightarrow> (Some (OtherError m), w)
          | Lost m \<Rightarrow> (Some (OtherError m), w\<lparr>broker := broker w @ map ToKafka ms\<rparr>)))"

definition world_writer :: "writer_settings \<Rightarrow> world kafkaWriter" where
  "world_writer s =
     \<lparr>WriteMessages = (\<lambda>ctx. world_write), kw_Close = (\<lambda>w. (None, w))\<rparr>"

definition world_logger :: "world logger" where
  "world_logger line w = w\<lparr>broker := broker w @ [ToLog line]\<rparr>"

text \<open>The producer of the configuration that asks for Kafka.\<close>

definition kafka_config :: EventsConfig where
  "kafka_config = \<lparr>Producer = ''kafka'', KafkaBrokers = [''localhost:9092''],
     KafkaTopic = ''company.events'', OutboxPollInterval = 2 * Second, OutboxBatchSize = 10\<rparr>"

definition world_producer :: "world EventProducer" where
  "world_producer = kafka_event_producer canonical_uuids
     (NewKafkaProducer world_writer (KafkaBrokers kafka_config) (KafkaTopic kafka_config))"

abbreviation world_message :: "event \<Rightarrow> published" where
  "world_message \<equiv> published_as canonical_uuids kafka_config"

definition empty_world :: world where
  "empty_world =
     \<lparr>committed = \<lparr>companies = [], outbox_events = []\<rparr>, txs = (\<lambda>t. None), next_tx = 0,
      db_clock = 0, faults = [], wall_clock = 0, uuid_count = 0, broker = [], broker_faults = [],
      open_pools = 0\<rparr>"

lemma server_tables_world [simp]:
  "server_tables x (w\<lparr>wall_clock := t\<rparr>) = server_tables x w"
  "server_tables x (w\<lparr>uuid_count := n\<rparr>) = server_tables x w"
  "server_tables x (w\<lparr>broker := b\<rparr>) = server_tables x w"
  "server_tables x (w\<lparr>broker_faults := bf\<rparr>) = server_tables x w"
  "server_tables x (w\<lparr>open_pools := n\<rparr>) = server_tables x w"
  by (simp_all add: server_tables_def split: executor.split)

text \<open>The driver leaves alone what the world has beside the database.\<close>

lemma broker_more: "dbserver.more w' = dbserver.more w \<Longrightarrow> broker w' = broker (w::world)"
  by (cases w; cases w') simp

lemma uuid_count_more: "dbserver.more w' = dbserver.more w \<Longrightarrow> uuid_count w' = uuid_count (w::world)"
  by (cases w; cases w') simp

lemma reference_database:
  assumes more: "\<And>w w' :: world. dbserver.more w' = dbserver.more w \<Longrightarrow> f w' = f w"
  shows "company_database reference_driver server_tables server_now f canonical_uuids"
proof unfold_locales
  note stmts = reference.statements_outside [THEN more]
    and trans = reference.transactions_outside [THEN more]
  show "f (snd (Exec reference_driver x st w)) = f w" "f (snd (Query reference_driver x st w)) = f w"
    "f (snd (QueryRow reference_driver x st w)) = f w" for x st and w :: world
    by (simp_all add: stmts)
  show "f (snd (Begin reference_driver w)) = f w" "f (snd (Commit reference_driver t w)) = f w"
    "f (snd (Rollback reference_driver t w)) = f w" for t and w :: world
    by (simp_all add: trans)
qed (simp_all add: reference.ToSql_error reference.Exec_answer reference.Query_answer
    reference.QueryRow_answer reference.Begin_answer reference.Commit_answer
    reference.Rollback_answer canonical_uuids_ok)

interpretation reference_world: service_database reference_driver server_tables server_now
    "dbserver.more" canonical_uuids
    world_runtime
  by unfold_locales (simp_all add: world_runtime_def)


interpretation reference_sinks: event_sinks world_writer world_logger broker
proof
  show "WriteMessages (world_writer s) ctx [m] w = (r, w') \<Longrightarrow>
      \<exists>k. broker w' = broker w @ replicate k (ToKafka m) \<and> (r = None \<longrightarrow> 0 < k)"
    for s ctx m w r w'
    by (auto simp: world_writer_def world_write_def Let_def intro: exI [of _ 0] exI [of _ 1]
        split: prod.splits fault.splits list.splits)
  show "broker (world_logger line w) = broker w @ [ToLog line]" for line w
    by (simp add: world_logger_def)
qed

lemma kafka_config_producer:
  "NewProducer canonical_uuids world_logger world_writer kafka_config = Inr world_producer"
proof -
  have "TrimSpace ''kafka'' = ''kafka''"
    by (rule TrimSpace_id)
      (simp_all add: starts_with_space_def ends_with_space_def decodeLastRune_def IsSpace_def byte_def)
  moreover have "ToLower ''kafka'' = ''kafka''" by (simp add: byte_def)
  ultimately show ?thesis
    by (simp add: NewProducer_def kafka_config_def ProducerLog_def ProducerKafka_def world_producer_def)
qed

lemma sinks_leave_tables:
  "server_tables x (snd (WriteMessages (world_writer s) ctx ms w)) = server_tables x w"
  "server_tables x (world_logger line w) = server_tables x w"
  by (auto simp: world_writer_def world_write_def world_logger_def Let_def
      split: prod.splits fault.splits list.splits)

text \<open>
  A producer of the configuration on a database: the sinks do not touch the tables.
\<close>

locale configured_publisher =
  company_database pg tables now sent lib + event_sinks new_writer logger sent
  for pg :: "'w driver" and tables :: "executor \<Rightarrow> 'w \<Rightarrow> database option"
    and now :: "executor \<Rightarrow> 'w \<Rightarrow> time" and sent :: "'w \<Rightarrow> published list" and lib :: uuid_lib
    and new_writer :: "writer_settings \<Rightarrow> 'w kafkaWriter" and logger :: "'w logger" +
  assumes writer_leaves:
      "tables x (snd (WriteMessages (new_writer s) ctx ms w)) = tables x w"
    and logger_leaves: "tables x (logger line w) = tables x w"
begin

lemma Publish_leaves_tables:
  assumes "NewProducer lib logger new_writer cfg = Inr p"
  shows "tables x (snd (Publish p ctx ev w)) = tables x w"
proof -
  have kafka: "tables x (snd (KafkaProducer_Publish lib
      (NewKafkaProducer new_writer brokers topic) ctx ev w)) = tables x w" for brokers topic
  proof (cases "marshal_kafkaEvent (toKafkaEvent lib ev)")
    case (Inr payload)
    let ?m = "\<lparr>Key = uuid_String lib (CompanyID ev), Value = payload, Time = OccurredAt ev\<rparr>"
    let ?s = "\<lparr>ws_Addr = brokers, ws_Topic = topic, ws_Balancer = Hash, ws_RequiredAcks = RequireAll\<rparr>"
    obtain rw w1 where "WriteMessages (new_writer ?s) ctx [?m] w = (rw, w1)" by fastforce
    with writer_leaves [of x ?s ctx "[?m]" w] Inr show ?thesis
      by (cases rw) (simp_all add: KafkaProducer_Publish_def NewKafkaProducer_def Let_def)
  qed (simp add: KafkaProducer_Publish_def)
  with assms show ?thesis
    by (auto simp: NewProducer_def Let_def LogProducer_Publish_def logger_leaves split: if_splits)
qed

lemma configured:
  assumes "NewProducer lib logger new_writer cfg = Inr p"
  shows "publisher_database pg tables now sent lib (published_as lib cfg) p"
proof (intro publisher_database.intro publisher_database_axioms.intro)
  show "company_database pg tables now sent lib" by (rule company_database_axioms)
qed (use assms NewProducer_publishes Publish_leaves_tables in blast)+

end

interpretation reference_sent: company_database reference_driver server_tables server_now
    "broker :: world \<Rightarrow> published list" canonical_uuids
  by (rule reference_database) (rule broker_more)

interpretation reference_configured: configured_publisher reference_driver server_tables server_now
    broker canonical_uuids world_writer world_logger
  by unfold_locales (simp_all add: sinks_leave_tables)

interpretation reference_broker: publisher_database reference_driver server_tables server_now broker
    canonical_uuids world_message world_producer interval batchSize for interval batchSize :: int
  by (rule reference_configured.configured [OF kafka_config_producer])

subsection \<open>Messages of the topic\<close>

definition gone_event :: event where
  "gone_event = \<lparr>e_ID = 7, e_Type = EventCompanyDeleted, OccurredAt = 0, CompanyID = 1,
     Company = None\<rparr>"

definition later_event :: event where
  "later_event = gone_event\<lparr>e_ID := 8, CompanyID := 2\<rparr>"

theorem kafka_message_tells_event_witness:
  "\<exists>w1 w2 m m'. KafkaProducer_Publish canonical_uuids (recording_producer ''t'') Background gone_event [] = (None, w1)
    \<and> KafkaProducer_Publish canonical_uuids (recording_producer ''t'') Background later_event w1 = (None, w2)
    \<and> w2 = [m, m'] \<and> Value m \<noteq> Value m' \<and> uuid_Parse canonical_uuids (Key m) = Inr 1
    \<and> uuid_Parse canonical_uuids (Key m') = Inr 2"
proof -
  have "ValidString EventCompanyDeleted"
    by (rule ValidString_ascii) (simp add: EventCompanyDeleted_def byte_def)
  then have texts: "valid_texts gone_event" "valid_texts later_event"
    by (simp_all add: valid_texts_def gone_event_def later_event_def)
  have "\<exists>v. marshal_kafkaEvent (toKafkaEvent canonical_uuids ev) = Inr v"
    if "OccurredAt ev = 0" "Company ev = None" for ev
    using that by (simp add: marshal_kafkaEvent_def toKafkaEvent_def marshal_time_Inr
        marshal_time_def json_time_ok_def Let_def)
  then have works: "\<exists>w'. KafkaProducer_Publish canonical_uuids (recording_producer ''t'') Background ev w = (None, w')"
    if "ev = gone_event \<or> ev = later_event" for ev w
    using that unfolding recorded_publish by (auto simp: gone_event_def later_event_def)
  from works [of gone_event "[]"] obtain w1 where
    run1: "KafkaProducer_Publish canonical_uuids (recording_producer ''t'') Background gone_event [] = (None, w1)"
    by blast
  from works [of later_event w1] obtain w2 where
    run2: "KafkaProducer_Publish canonical_uuids (recording_producer ''t'') Background later_event w1 = (None, w2)"
    by blast
  note runs = run1 run2
  have "gone_event \<noteq> later_event" "CompanyID gone_event = 1" "CompanyID later_event = 2"
    by (simp_all add: gone_event_def later_event_def)
  with kafka_message_tells_event [OF canonical_uuids_ok texts runs] runs show ?thesis by auto
qed

end
