(* ===== verification/UseCases.thy ===== *)
theory UseCases
  imports World
begin

text \<open>
  The guarantees of the application service as \<^verbatim>\<open>main.go\<close> wires it: on the company repository, the
  outbox repository and the transaction manager of the postgres package, over any server, clock and
  UUID library with the contracts of \<open>service_database\<close>.
\<close>

definition postgres_service :: "uuid_lib \<Rightarrow> 'w driver \<Rightarrow> 'w runtime \<Rightarrow> 'w Service" where
  "postgres_service lib pg rt =
     NewServiceWithOutbox rt (NewCompanyRepository pg) (Some (NewOutboxRepository_Store lib pg))
       (Some (NewTransactionManager pg))"

context service_database
begin

lemmas use_case_outcomes =
  service.CreateCompany_outcome [folded postgres_service_def]
  service.PatchCompany_outcome [folded postgres_service_def]
  service.DeleteCompany_outcome [folded postgres_service_def]
  service.GetCompany_outcome [folded postgres_service_def]

end

text \<open>The four laws, for any server with the contract.\<close>

lemmas create_outcome = service_database.use_case_outcomes(1)
lemmas patch_outcome = service_database.use_case_outcomes(2)
lemmas delete_outcome = service_database.use_case_outcomes(3)
lemmas get_outcome = service_database.use_case_outcomes(4)

subsection \<open>A world with one company in it\<close>

definition acme_entry :: entry where
  "acme_entry = new_entry 0
     \<lparr>e_ID = 1, e_Type = EventCompanyCreated, OccurredAt = 0, CompanyID = ID acme, Company = Some acme\<rparr>"

definition acme_ledger :: ledger where
  "acme_ledger = \<lparr>members = [acme], outbox = [acme_entry]\<rparr>"

definition acme_world :: world where
  "acme_world = empty_world\<lparr>committed := conc canonical_uuids acme_ledger, uuid_count := 1\<rparr>"

lemma acme_ledger_ok [simp]: "ledger_ok acme_ledger"
proof -
  have "storable acme"
    by (simp add: storable_def text_ok_def acme_def byte_def int4_ok_def)
  moreover have "stored acme = acme"
    by (simp add: stored_def acme_def micros_def)
  moreover have "json_safe_event (en_event acme_entry)"
    by (simp add: acme_entry_def json_safe_event_def json_safe_company_def json_time_ok_def acme_def
        event_type_defs byte_def is_go_int_def int_min_def int_max_def)
  ultimately show ?thesis
    by (simp add: ledger_ok_def acme_ledger_def company_ok_def entry_ok_def acme_entry_def)
qed

lemma acme_view [simp]:
  "ledger_view canonical_uuids server_tables Background acme_world = Some acme_ledger"
  by (simp add: ledger_view_Some server_tables_def acme_world_def)

lemmas reference_service = reference_world.service_database_axioms

subsection \<open>Creating a company\<close>

text \<open>
  Property C6: creating a company is all or nothing.  If it returns a company, the company was
  valid and new (its id and its name) and is stored, and exactly one event that announces it is in the outbox, in
  the same state of the database.  If it returns an error, the database is as before and the error
  is a validation error exactly when the input breaks a rule, a duplicate-id or duplicate-name
  error only when a company with that id or name is there, or an error from below; only with an
  error from below can the change have been made (the answer of the commit was lost), and then the
  company and its event are both there.
\<close>

theorem CreateCompany_all_or_nothing:
  assumes "service_database pg tables now outside lib rt"
    and "ledger_view lib tables Background w = Some l"
    and "CreateCompany rt (postgres_service lib pg rt) Background input w = (r, w')"
  shows "\<exists>t. case NewWithID t (i_ID input) (i_Name input) (i_Description input)
        (i_AmountOfEmployees input) (i_Registered input) (i_Type input) of
      Inl e \<Rightarrow> r = Inl (wrap ''create company'' e)
        \<and> ledger_view lib tables Background w' = Some l
    | Inr c \<Rightarrow> all_or_nothing (ledger_view lib tables) (\<lambda>d ch. d = c \<and> ch = Created c)
        (create_refusals l c) l r w'"
  using assms by (rule create_outcome)

definition bolt_input :: create_input where
  "bolt_input = \<lparr>i_ID = 2, i_Name = ''Bolt'', i_Description = ''x'', i_AmountOfEmployees = 3,
     i_Registered = True, i_Type = TypeNonProfit\<rparr>"

definition bolt :: company where
  "bolt = \<lparr>ID = 2, Name = ''Bolt'', Description = ''x'', AmountOfEmployees = 3,
     Registered = True, Type = TypeNonProfit, CreatedAt = 0, UpdatedAt = 0\<rparr>"

abbreviation world_service :: "world Service" where
  "world_service \<equiv> postgres_service canonical_uuids reference_driver world_runtime"

theorem CreateCompany_all_or_nothing_witness:
  "\<exists>r w'. CreateCompany world_runtime world_service Background bolt_input acme_world = (r, w')
    \<and> (\<exists>t. case NewWithID t (i_ID bolt_input) (i_Name bolt_input) (i_Description bolt_input)
        (i_AmountOfEmployees bolt_input) (i_Registered bolt_input) (i_Type bolt_input) of
      Inl e \<Rightarrow> r = Inl (wrap ''create company'' e)
        \<and> ledger_view canonical_uuids server_tables Background w' = Some acme_ledger
    | Inr c \<Rightarrow> all_or_nothing (ledger_view canonical_uuids server_tables)
        (\<lambda>d ch. d = c \<and> ch = Created c) (create_refusals acme_ledger c) acme_ledger r w')"
proof -
  obtain r w' where run: "CreateCompany world_runtime world_service Background bolt_input acme_world = (r, w')"
    by fastforce
  from CreateCompany_all_or_nothing [OF reference_service acme_view run] run show ?thesis by blast
qed

text \<open>
  Property C7: patching a company is all or nothing.  If it returns a company, then the company
  with that id has been revised to it: the supplied fields replaced (trimmed), the others kept, the
  update time set; and one event that announces it is in the outbox.  If it returns an error, the
  database is as before and the error is one of: not found when there is no company with the id,
  duplicate name only when another company has the trimmed new name, the first complaint about the
  patch (an empty patch included), or an error from below, with which the whole change may have
  been made.
\<close>

theorem PatchCompany_all_or_nothing:
  assumes "service_database pg tables now outside lib rt"
    and "ledger_view lib tables Background w = Some l"
    and "PatchCompany rt (postgres_service lib pg rt) Background i input w = (r, w')"
  shows "all_or_nothing (ledger_view lib tables) (did_patch l i (patch_of_input input))
    (patch_refusals l i (patch_of_input input)) l r w'"
  using assms by (rule patch_outcome)

definition acme_patch_input :: patch_input where
  "acme_patch_input = \<lparr>pi_Name = Some ''Bolt'', pi_Description = None, pi_AmountOfEmployees = Some 0,
     pi_Registered = None, pi_Type = None\<rparr>"

theorem PatchCompany_all_or_nothing_witness:
  "\<exists>r w'. PatchCompany world_runtime world_service Background 1 acme_patch_input acme_world = (r, w')
    \<and> all_or_nothing (ledger_view canonical_uuids server_tables)
        (did_patch acme_ledger 1 (patch_of_input acme_patch_input))
        (patch_refusals acme_ledger 1 (patch_of_input acme_patch_input)) acme_ledger r w'"
proof -
  obtain r w' where run: "PatchCompany world_runtime world_service Background 1 acme_patch_input acme_world = (r, w')"
    by fastforce
  from PatchCompany_all_or_nothing [OF reference_service acme_view run] run show ?thesis by blast
qed

text \<open>
  Property C8: deleting a company is all or nothing.  Without an error the company with that id has
  been there, is there no more, and one event that announces its deletion, with the company as it
  was, is in the outbox.  With an error the database is as before and the error is not found, when
  there is no such company, or one from below, with which the whole change may have been made.
\<close>

theorem DeleteCompany_all_or_nothing:
  assumes "service_database pg tables now outside lib rt"
    and "ledger_view lib tables Background w = Some l"
    and "DeleteCompany (postgres_service lib pg rt) Background i w = (r, w')"
  shows "\<exists>r0. r = (case r0 of Inl e \<Rightarrow> Some e | Inr c \<Rightarrow> None)
    \<and> all_or_nothing (ledger_view lib tables) (did_delete l i) (delete_refusals l i) l r0 w'"
  using delete_outcome [OF assms] by blast

theorem DeleteCompany_all_or_nothing_witness:
  "\<exists>r w' r0. DeleteCompany world_service Background 1 acme_world = (r, w')
    \<and> r = (case r0 of Inl e \<Rightarrow> Some e | Inr c \<Rightarrow> None)
    \<and> all_or_nothing (ledger_view canonical_uuids server_tables) (did_delete acme_ledger 1)
        (delete_refusals acme_ledger 1) acme_ledger r0 w'"
proof -
  obtain r w' where run: "DeleteCompany world_service Background 1 acme_world = (r, w')"
    by fastforce
  from DeleteCompany_all_or_nothing [OF reference_service acme_view run] run show ?thesis by blast
qed

text \<open>
  Reading a company changes nothing; it returns the company that has the id, or says
  not found only when there is none, or fails with an error from below.
\<close>

theorem GetCompany_reads:
  assumes "service_database pg tables now outside lib rt"
    and "ledger_view lib tables Background w = Some l"
    and "GetCompany (postgres_service lib pg rt) Background i w = (r, w')"
  shows "ledger_view lib tables Background w' = Some l
    \<and> (case r of
         Inr c \<Rightarrow> c \<in> set (members l) \<and> ID c = i
       | Inl e \<Rightarrow> opaque_error e \<or> root_cause e = ErrNotFound \<and> i \<notin> ID ` set (members l))"
  using assms by (rule get_outcome)

theorem GetCompany_reads_witness:
  "\<exists>r w'. GetCompany world_service Background 1 acme_world = (r, w')
    \<and> ledger_view canonical_uuids server_tables Background w' = Some acme_ledger
    \<and> (case r of
         Inr c \<Rightarrow> c \<in> set (members acme_ledger) \<and> ID c = 1
       | Inl e \<Rightarrow> opaque_error e \<or> root_cause e = ErrNotFound \<and> 1 \<notin> ID ` set (members acme_ledger))"
proof -
  obtain r w' where run: "GetCompany world_service Background 1 acme_world = (r, w')"
    by fastforce
  from GetCompany_reads [OF reference_service acme_view run] run show ?thesis by blast
qed

end
