(* ===== verification/HttpHandlers.thy ===== *)
theory HttpHandlers
  imports HttpDto HttpMiddleware UseCases
begin

text \<open>
  The HTTP handlers (\<^verbatim>\<open>internal/interfaces/http/handlers.go\<close>) and what a client can rely on when the
  service behind them is the one of \<^verbatim>\<open>main.go\<close>.  Log calls are left out; the request's context
  carries no transaction.
\<close>

subsection \<open>The handlers\<close>

definition URLParam :: "request \<Rightarrow> string \<Rightarrow> string" where
  "URLParam r key = (case map_of (r_Params r) key of None \<Rightarrow> '''' | Some v \<Rightarrow> v)"

text \<open>The id of the path, or none, and then the answer has been written.\<close>

definition parseID :: "uuid_lib \<Rightarrow> request \<Rightarrow> writer \<Rightarrow> uuid option \<times> writer" where
  "parseID lib r wr =
     (case uuid_Parse lib (URLParam r ''id'') of
        Inl err \<Rightarrow> (None, writeJSON StatusBadRequest (error_message ''invalid company id'') wr)
      | Inr i \<Rightarrow> (Some i, wr))"

definition Handler_CreateCompany :: "uuid_lib \<Rightarrow> 'w runtime \<Rightarrow> 'w Service \<Rightarrow> 'w handler" where
  "Handler_CreateCompany lib rt s r wr w =
     (case decodeJSON set_create_field r zero_create of
        Inl err \<Rightarrow> (writeJSON StatusBadRequest (error_message ''invalid JSON body'') wr, w)
      | Inr req \<Rightarrow>
          (case create_toInput lib req of
             Inl err \<Rightarrow> (writeAppError err wr, w)
           | Inr input \<Rightarrow>
               (case CreateCompany rt s Background input w of
                  (Inl err, w) \<Rightarrow> (writeAppError err wr, w)
                | (Inr c, w) \<Rightarrow>
                    (writeJSON StatusCreated (Some (encode_company (toCompanyResponse lib c))) wr, w))))"

definition Handler_PatchCompany :: "uuid_lib \<Rightarrow> 'w runtime \<Rightarrow> 'w Service \<Rightarrow> 'w handler" where
  "Handler_PatchCompany lib rt s r wr w =
     (case parseID lib r wr of
        (None, wr) \<Rightarrow> (wr, w)
      | (Some i, wr) \<Rightarrow>
          (case decodeJSON set_patch_field r zero_patch of
             Inl err \<Rightarrow> (writeJSON StatusBadRequest (error_message ''invalid JSON body'') wr, w)
           | Inr req \<Rightarrow>
               (case patch_toInput req of
                  Inl err \<Rightarrow> (writeAppError err wr, w)
                | Inr input \<Rightarrow>
                    (case PatchCompany rt s Background i input w of
                       (Inl err, w) \<Rightarrow> (writeAppError err wr, w)
                     | (Inr c, w) \<Rightarrow>
                         (writeJSON StatusOK (Some (encode_company (toCompanyResponse lib c))) wr, w)))))"

definition Handler_DeleteCompany :: "uuid_lib \<Rightarrow> 'w Service \<Rightarrow> 'w handler" where
  "Handler_DeleteCompany lib s r wr w =
     (case parseID lib r wr of
        (None, wr) \<Rightarrow> (wr, w)
      | (Some i, wr) \<Rightarrow>
          (case DeleteCompany s Background i w of
             (Some err, w) \<Rightarrow> (writeAppError err wr, w)
           | (None, w) \<Rightarrow> (WriteHeader StatusNoContent wr, w)))"

definition Handler_GetCompany :: "uuid_lib \<Rightarrow> 'w Service \<Rightarrow> 'w handler" where
  "Handler_GetCompany lib s r wr w =
     (case parseID lib r wr of
        (None, wr) \<Rightarrow> (wr, w)
      | (Some i, wr) \<Rightarrow>
          (case GetCompany s Background i w of
             (Inl err, w) \<Rightarrow> (writeAppError err wr, w)
           | (Inr c, w) \<Rightarrow>
               (writeJSON StatusOK (Some (encode_company (toCompanyResponse lib c))) wr, w)))"

subsection \<open>Statuses\<close>

lemma fresh_writer_simps [simp]: "status_sent fresh_writer = None" "body_sent fresh_writer = []"
  by (simp_all add: fresh_writer_def)

lemma status_WriteHeader [simp]:
  "status_sent (WriteHeader s wr) = (case status_sent wr of None \<Rightarrow> Some s | Some t \<Rightarrow> Some t)"
  by (simp add: WriteHeader_def split: option.split)

lemma opaque_status [simp]: "opaque_error e \<Longrightarrow> appErrorStatus e = 500"
  by (simp add: appErrorStatus_def)

lemma root_status:
  "root_cause e = ErrNotFound \<Longrightarrow> appErrorStatus e = 404"
  "root_cause e = ErrDuplicateID \<Longrightarrow> appErrorStatus e = 409"
  "root_cause e = ErrDuplicateName \<Longrightarrow> appErrorStatus e = 409"
  "root_cause e = ErrEmptyPatch \<Longrightarrow> appErrorStatus e = 400"
  "root_cause e = ValidationError fs \<Longrightarrow> appErrorStatus e = 400"
  by (simp_all add: appErrorStatus_root)

lemma patch_error_status: "patch_error p = Some (root_cause e) \<Longrightarrow> appErrorStatus e = 400"
  by (auto simp: patch_error_def appErrorStatus_root split: if_splits dest: sym)

text \<open>
  What a status promises about the ledgers before and after: 2xx, the change was made and recorded;
  4xx, nothing happened; 500, all or nothing.
\<close>

definition kept_promise ::
    "(ctx \<Rightarrow> 'w \<Rightarrow> ledger option) \<Rightarrow> nat set \<Rightarrow> (company \<Rightarrow> change \<Rightarrow> bool) \<Rightarrow> ledger
     \<Rightarrow> nat \<Rightarrow> 'w \<Rightarrow> bool" where
  "kept_promise led refusals did l status w' \<longleftrightarrow>
     (if status < 400 then \<exists>c ch l'. did c ch \<and> recorded ch l l' \<and> led Background w' = Some l'
      else if status < 500 then status \<in> refusals \<and> led Background w' = Some l
      else status = 500 \<and>
        (led Background w' = Some l
         \<or> (\<exists>c ch l'. did c ch \<and> recorded ch l l' \<and> led Background w' = Some l')))"

lemma kept_promise_400 [simp]:
  "led Background w' = Some l \<Longrightarrow> 400 \<in> refusals \<Longrightarrow> kept_promise led refusals did l 400 w'"
  by (simp add: kept_promise_def)

text \<open>
  The promise carried over from the service to the answer: an error is answered with its status, a
  result with any success status.
\<close>

definition answered ::
    "(ctx \<Rightarrow> 'w \<Rightarrow> ledger option) \<Rightarrow> nat set \<Rightarrow> (company \<Rightarrow> change \<Rightarrow> bool) \<Rightarrow> ledger
     \<Rightarrow> goerr + company \<Rightarrow> 'w \<Rightarrow> bool" where
  "answered led refusals did l rc w' \<longleftrightarrow>
     (case rc of
        Inl e \<Rightarrow> appErrorStatus e \<in> insert 500 refusals
          \<and> kept_promise led refusals did l (appErrorStatus e) w'
      | Inr c \<Rightarrow> \<forall>st<400. kept_promise led refusals did l st w')"

lemma answeredI:
  assumes aon: "all_or_nothing led did errs l rc w'"
    and refused: "\<And>e. root_cause e \<in> errs \<Longrightarrow> appErrorStatus e \<in> refusals"
    and range: "refusals \<subseteq> {400..<500}"
  shows "answered led refusals did l rc w'"
proof (cases rc)
  case (Inl e)
  from refused range have "appErrorStatus e \<in> refusals \<and> 400 \<le> appErrorStatus e \<and> appErrorStatus e < 500"
    if "root_cause e \<in> errs" using that by fastforce
  with Inl aon show ?thesis
    by (auto simp: answered_def all_or_nothing_def kept_promise_def)
qed (use aon in \<open>auto simp: answered_def all_or_nothing_def kept_promise_def\<close>)

lemma create_answered:
  assumes sys: "service_database pg tables now outside lib rt"
    and led: "ledger_view lib tables Background w = Some l"
    and run: "CreateCompany rt (postgres_service lib pg rt) Background input w = (rc, w')"
  shows "answered (ledger_view lib tables) {400, 409} (\<lambda>c ch. ch = Created c) l rc w'"
proof -
  from create_outcome [OF sys led run] obtain t where out:
    "case NewWithID t (i_ID input) (i_Name input) (i_Description input)
        (i_AmountOfEmployees input) (i_Registered input) (i_Type input) of
      Inl e \<Rightarrow> rc = Inl (wrap ''create company'' e) \<and> ledger_view lib tables Background w' = Some l
    | Inr c \<Rightarrow> all_or_nothing (ledger_view lib tables) (\<lambda>d ch. d = c \<and> ch = Created c)
        (create_refusals l c) l rc w'" by blast
  show ?thesis
  proof (cases "NewWithID t (i_ID input) (i_Name input) (i_Description input)
        (i_AmountOfEmployees input) (i_Registered input) (i_Type input)")
    case (Inl e)
    with NewWithID_Inl have "\<exists>fs. e = ValidationError fs" by blast
    then have "appErrorStatus (wrap ''create company'' e) = 400" by (auto simp: appErrorStatus_root)
    with Inl out show ?thesis by (simp add: answered_def)
  next
    case (Inr d)
    with out have "all_or_nothing (ledger_view lib tables) (\<lambda>c ch. ch = Created c)
        (create_refusals l d) l rc w'"
      by (auto simp: all_or_nothing_def split: sum.splits)
    then show ?thesis by (rule answeredI) (auto simp: create_refusals_def root_status)
  qed
qed

lemma patch_answered:
  assumes sys: "service_database pg tables now outside lib rt"
    and led: "ledger_view lib tables Background w = Some l"
    and run: "PatchCompany rt (postgres_service lib pg rt) Background i input w = (rp, w')"
  shows "answered (ledger_view lib tables) {400, 404, 409} (\<lambda>c ch. ch = Updated c) l rp w'"
proof (rule answeredI)
  show "all_or_nothing (ledger_view lib tables) (\<lambda>c ch. ch = Updated c)
      (patch_refusals l i (patch_of_input input)) l rp w'"
    using patch_outcome [OF sys led run]
    by (auto simp: all_or_nothing_def did_patch_def split: sum.splits)
qed (auto simp: patch_refusals_def root_status dest: patch_error_status)

lemma delete_answered:
  assumes sys: "service_database pg tables now outside lib rt"
    and led: "ledger_view lib tables Background w = Some l"
    and run: "DeleteCompany (postgres_service lib pg rt) Background i w = (rd, w')"
  shows "\<exists>r0. rd = (case r0 of Inl e \<Rightarrow> Some e | Inr c \<Rightarrow> None)
    \<and> answered (ledger_view lib tables) {400, 404} (\<lambda>c ch. ch = Deleted c) l r0 w'"
proof -
  from delete_outcome [OF sys led run] obtain r0 where r0: "rd = (case r0 of Inl e \<Rightarrow> Some e | Inr c \<Rightarrow> None)"
    "all_or_nothing (ledger_view lib tables) (did_delete l i) (delete_refusals l i) l r0 w'" by blast
  then have "all_or_nothing (ledger_view lib tables) (\<lambda>c ch. ch = Deleted c)
      (delete_refusals l i) l r0 w'"
    by (auto simp: all_or_nothing_def did_delete_def split: sum.splits)
  then have "answered (ledger_view lib tables) {400, 404} (\<lambda>c ch. ch = Deleted c) l r0 w'"
    by (rule answeredI) (auto simp: delete_refusals_def root_status)
  with r0 show ?thesis by blast
qed

subsection \<open>The handlers' promises\<close>

lemma create_handler_outcome:
  assumes sys: "service_database pg tables now outside lib rt"
    and led: "ledger_view lib tables Background w = Some l"
    and run: "Handler_CreateCompany lib rt (postgres_service lib pg rt) r fresh_writer w = (wr', w')"
  shows "\<exists>st. status_sent wr' = Some st \<and> st \<in> {201, 400, 409, 500}
    \<and> kept_promise (ledger_view lib tables) {400, 409} (\<lambda>c ch. ch = Created c) l st w'"
proof (cases "decodeJSON set_create_field r zero_create")
  case (Inl err)
  with run led show ?thesis by (auto simp: Handler_CreateCompany_def)
next
  case req: (Inr req)
  show ?thesis
  proof (cases "create_toInput lib req")
    case (Inl err)
    from create_toInput_Inl [OF Inl] have "appErrorStatus err = 400" by (auto simp: appErrorStatus_root)
    with Inl req run led show ?thesis by (auto simp: Handler_CreateCompany_def)
  next
    case (Inr input)
    obtain rc w1 where c: "CreateCompany rt (postgres_service lib pg rt) Background input w = (rc, w1)"
      by fastforce
    from create_answered [OF sys led c] req Inr c run show ?thesis
      by (cases rc) (auto simp: Handler_CreateCompany_def answered_def)
  qed
qed

lemma patch_handler_outcome:
  assumes sys: "service_database pg tables now outside lib rt"
    and led: "ledger_view lib tables Background w = Some l"
    and run: "Handler_PatchCompany lib rt (postgres_service lib pg rt) r fresh_writer w = (wr', w')"
  shows "\<exists>st. status_sent wr' = Some st \<and> st \<in> {200, 400, 404, 409, 500}
    \<and> kept_promise (ledger_view lib tables) {400, 404, 409} (\<lambda>c ch. ch = Updated c) l st w'"
proof (cases "uuid_Parse lib (URLParam r ''id'')")
  case (Inl err)
  with run led show ?thesis by (auto simp: Handler_PatchCompany_def parseID_def)
next
  case i: (Inr i)
  show ?thesis
  proof (cases "decodeJSON set_patch_field r zero_patch")
    case (Inl err)
    with i run led show ?thesis by (auto simp: Handler_PatchCompany_def parseID_def)
  next
    case (Inr req)
    obtain input where input: "patch_toInput req = Inr input" by (simp add: patch_toInput_def)
    obtain rp w1 where p: "PatchCompany rt (postgres_service lib pg rt) Background i input w = (rp, w1)"
      by fastforce
    from patch_answered [OF sys led p] i Inr input p run show ?thesis
      by (cases rp) (auto simp: Handler_PatchCompany_def parseID_def answered_def)
  qed
qed

lemma delete_handler_outcome:
  assumes sys: "service_database pg tables now outside lib rt"
    and led: "ledger_view lib tables Background w = Some l"
    and run: "Handler_DeleteCompany lib (postgres_service lib pg rt) r fresh_writer w = (wr', w')"
  shows "\<exists>st. status_sent wr' = Some st \<and> st \<in> {204, 400, 404, 500}
    \<and> kept_promise (ledger_view lib tables) {400, 404} (\<lambda>c ch. ch = Deleted c) l st w'"
proof (cases "uuid_Parse lib (URLParam r ''id'')")
  case (Inl err)
  with run led show ?thesis by (auto simp: Handler_DeleteCompany_def parseID_def)
next
  case (Inr i)
  obtain rd w1 where d: "DeleteCompany (postgres_service lib pg rt) Background i w = (rd, w1)"
    by fastforce
  from delete_answered [OF sys led d] Inr d run show ?thesis
    by (auto simp: Handler_DeleteCompany_def parseID_def answered_def split: sum.splits)
qed

lemma get_handler_outcome:
  assumes sys: "service_database pg tables now outside lib rt"
    and led: "ledger_view lib tables Background w = Some l"
    and run: "Handler_GetCompany lib (postgres_service lib pg rt) r fresh_writer w = (wr', w')"
  shows "ledger_view lib tables Background w' = Some l
    \<and> (status_sent wr' = Some 400 \<and> (\<exists>e. uuid_Parse lib (URLParam r ''id'') = Inl e)
       \<or> (\<exists>i. uuid_Parse lib (URLParam r ''id'') = Inr i
           \<and> (status_sent wr' = Some 500
              \<or> status_sent wr' = Some 404 \<and> i \<notin> ID ` set (members l)
              \<or> status_sent wr' = Some 200 \<and> (\<exists>c\<in>set (members l). ID c = i
                  \<and> body_sent wr' = (case encode_company (toCompanyResponse lib c) of
                       Inl e \<Rightarrow> [] | Inr doc \<Rightarrow> [doc])))))"
proof (cases "uuid_Parse lib (URLParam r ''id'')")
  case (Inl err)
  with run led show ?thesis by (auto simp: Handler_GetCompany_def parseID_def)
next
  case i: (Inr i)
  obtain rg w1 where g: "GetCompany (postgres_service lib pg rt) Background i w = (rg, w1)"
    by fastforce
  note out = get_outcome [OF sys led g]
  show ?thesis
  proof (cases rg)
    case (Inl e)
    with out have "appErrorStatus e = 500 \<or> appErrorStatus e = 404 \<and> i \<notin> ID ` set (members l)"
      by (auto simp: root_status)
    with Inl i g out run show ?thesis by (auto simp: Handler_GetCompany_def parseID_def)
  next
    case (Inr c)
    with i g out run show ?thesis
      by (auto simp: Handler_GetCompany_def parseID_def split: sum.split)
  qed
qed

text \<open>A request for one company.\<close>

definition by_id :: "uuid \<Rightarrow> request \<Rightarrow> request" where
  "by_id i r = r\<lparr>r_Params := [(''id'', uuid_String canonical_uuids i)]\<rparr>"

end
