(* ===== verification/HttpRouter.thy ===== *)
theory HttpRouter
  imports HttpHandlers
begin

text \<open>
  The routes and the health checks (\<^verbatim>\<open>internal/interfaces/http/router.go\<close>).

  The chi router is a parameter: what it makes of a list of routes, with the library's own
  middlewares around it.  The code relies on it to run the handler of a route whose method and
  pattern the request has, with the parameters of the path filled in, or to answer by itself and
  touch nothing (not found, method not allowed, timed out).
\<close>

record 'w route =
  rt_Method :: string
  rt_Pattern :: string
  rt_Handler :: "'w handler"

record 'w ReadinessChecker =
  Ping :: "ctx \<Rightarrow> ('w, goerr) cmd"

definition status_ok :: "(goerr + json) option" where
  "status_ok = Some (Inr (JObj [(''status'', JStr ''ok'')]))"

definition healthz :: "'w handler" where
  "healthz r wr w = (writeJSON StatusOK status_ok wr, w)"

definition readyz :: "'w ReadinessChecker \<Rightarrow> 'w handler" where
  "readyz ready r wr w =
     (case Ping ready Background w of
        (Some err, w) \<Rightarrow> (writeJSON StatusServiceUnavailable (error_message ''not ready'') wr, w)
      | (None, w) \<Rightarrow> (writeJSON StatusOK status_ok wr, w))"

text \<open>
  The route table of \<^verbatim>\<open>NewRouter\<close>: the public routes, then the group behind the authentication
  middleware.  The documentation handler (\<^verbatim>\<open>httpSwagger\<close>) is a library handler.
\<close>

definition router_routes ::
    "uuid_lib \<Rightarrow> 'w runtime \<Rightarrow> 'w handler \<Rightarrow> 'w Service \<Rightarrow> ('w, 'c) TokenValidator
     \<Rightarrow> 'w ReadinessChecker \<Rightarrow> 'w route list" where
  "router_routes lib rt swagger service authValidator ready =
     [\<lparr>rt_Method = ''GET'', rt_Pattern = ''/swagger/*'', rt_Handler = swagger\<rparr>,
      \<lparr>rt_Method = ''GET'', rt_Pattern = ''/healthz'', rt_Handler = healthz\<rparr>,
      \<lparr>rt_Method = ''GET'', rt_Pattern = ''/readyz'', rt_Handler = readyz ready\<rparr>,
      \<lparr>rt_Method = ''GET'', rt_Pattern = ''/companies/{id}'',
       rt_Handler = Handler_GetCompany lib service\<rparr>]
     @ map (\<lambda>route. route\<lparr>rt_Handler := AuthMiddleware authValidator (rt_Handler route)\<rparr>)
         [\<lparr>rt_Method = ''POST'', rt_Pattern = ''/companies'',
           rt_Handler = Handler_CreateCompany lib rt service\<rparr>,
          \<lparr>rt_Method = ''PATCH'', rt_Pattern = ''/companies/{id}'',
           rt_Handler = Handler_PatchCompany lib rt service\<rparr>,
          \<lparr>rt_Method = ''DELETE'', rt_Pattern = ''/companies/{id}'',
           rt_Handler = Handler_DeleteCompany lib service\<rparr>]"

type_synonym 'w mux = "'w route list \<Rightarrow> 'w handler"

definition NewRouter ::
    "'w mux \<Rightarrow> uuid_lib \<Rightarrow> 'w runtime \<Rightarrow> 'w handler \<Rightarrow> 'w Service \<Rightarrow> ('w, 'c) TokenValidator
     \<Rightarrow> 'w ReadinessChecker \<Rightarrow> 'w handler" where
  "NewRouter chi lib rt swagger service authValidator ready =
     chi (router_routes lib rt swagger service authValidator ready)"

text \<open>The contract of the router; \<open>matches_path\<close> is its matching of paths against patterns.\<close>

definition mux_ok :: "(string \<Rightarrow> string \<Rightarrow> (string \<times> string) list option) \<Rightarrow> 'w mux \<Rightarrow> bool" where
  "mux_ok matches_path chi \<longleftrightarrow>
     (\<forall>routes r wr w.
        (\<exists>route\<in>set routes. \<exists>params. rt_Method route = r_Method r
           \<and> matches_path (rt_Pattern route) (r_Path r) = Some params
           \<and> chi routes r wr w = rt_Handler route (r\<lparr>r_Params := params\<rparr>) wr w)
        \<or> (\<exists>wr'. chi routes r wr w = (wr', w)))"

text \<open>A request is answered by the router itself, or by the handler of one of the routes.\<close>

lemma NewRouter_cases:
  assumes mux: "mux_ok matches_path chi"
    and run: "NewRouter chi lib rt swagger service authValidator ready r fresh_writer w = (wr', w')"
  obtains (answered) "w' = w"
  | (routed) route params where
      "route \<in> set (router_routes lib rt swagger service authValidator ready)"
      "rt_Method route = r_Method r"
      "rt_Handler route (r\<lparr>r_Params := params\<rparr>) fresh_writer w = (wr', w')"
proof -
  let ?routes = "router_routes lib rt swagger service authValidator ready"
  from mux have "(\<exists>route\<in>set ?routes. \<exists>params. rt_Method route = r_Method r
           \<and> matches_path (rt_Pattern route) (r_Path r) = Some params
           \<and> chi ?routes r fresh_writer w
               = rt_Handler route (r\<lparr>r_Params := params\<rparr>) fresh_writer w)
        \<or> (\<exists>wr'. chi ?routes r fresh_writer w = (wr', w))"
    unfolding mux_ok_def by blast
  with run that show thesis unfolding NewRouter_def by auto
qed

text \<open>Every route but those of GET is behind the authentication.\<close>

lemma guarded_route:
  assumes "route \<in> set (router_routes lib rt swagger service authValidator ready)"
    and "rt_Method route \<noteq> ''GET''"
  obtains h where "rt_Handler route = AuthMiddleware authValidator h"
  using assms by (auto simp: router_routes_def)

text \<open>
  Nothing but GET gets past the authentication.  A request with another method that
  carries no bearer token, or one the validator rejects, never reaches the service: the only thing
  that may have run is the validator, and the service cannot tell that the request was made.
\<close>

theorem unauthenticated_requests_change_nothing:
  assumes mux: "mux_ok matches_path chi" and verb: "r_Method r \<noteq> ''GET''"
    and token: "bearerToken (r_Authorization r) = ''''
      \<or> (\<exists>err w1. tv_Validate authValidator (bearerToken (r_Authorization r)) w = (Inl err, w1))"
    and run: "NewRouter chi lib rt swagger service authValidator ready r fresh_writer w = (wr', w')"
  shows "w' = w \<or> w' = snd (tv_Validate authValidator (bearerToken (r_Authorization r)) w)
      \<and> status_sent wr' = Some 401"
  using mux run
proof (cases rule: NewRouter_cases)
  case (routed route params)
  with verb obtain h where "rt_Handler route = AuthMiddleware authValidator h"
    by (metis guarded_route)
  with routed(3) token AuthMiddleware_refuses show ?thesis by fastforce
qed simp


subsection \<open>A router\<close>

text \<open>A router that takes the first route whose method and pattern fit: the contract can be kept.\<close>

fun match_segments :: "string list \<Rightarrow> string list \<Rightarrow> (string \<times> string) list option" where
  "match_segments [] [] = Some []"
| "match_segments (p # ps) segs =
     (if p = ''*'' then Some []
      else
        (case segs of
           [] \<Rightarrow> None
         | s # ss \<Rightarrow>
             if p \<noteq> [] \<and> hd p = CHR ''{'' then
               map_option (\<lambda>m. (tl (butlast p), s) # m) (match_segments ps ss)
             else if p = s then match_segments ps ss else None))"
| "match_segments [] (s # ss) = None"

definition match_path :: "string \<Rightarrow> string \<Rightarrow> (string \<times> string) list option" where
  "match_path pattern path = match_segments (Split CHR ''/'' pattern) (Split CHR ''/'' path)"

fun first_match :: "'w mux" where
  "first_match [] r wr w = (WriteHeader StatusNotFound wr, w)"
| "first_match (route # routes) r wr w =
     (case (if rt_Method route = r_Method r then match_path (rt_Pattern route) (r_Path r) else None) of
        Some params \<Rightarrow> rt_Handler route (r\<lparr>r_Params := params\<rparr>) wr w
      | None \<Rightarrow> first_match routes r wr w)"

lemma first_match_cases:
  "(\<exists>route\<in>set routes. \<exists>params. rt_Method route = r_Method r
      \<and> match_path (rt_Pattern route) (r_Path r) = Some params
      \<and> first_match routes r wr w = rt_Handler route (r\<lparr>r_Params := params\<rparr>) wr w)
   \<or> (\<exists>wr'. first_match routes r wr w = (wr', w))"
  by (induction routes) (auto split: option.split)

lemma first_match_ok: "mux_ok match_path first_match"
  using first_match_cases by (fastforce simp: mux_ok_def)

definition delete_http :: request where
  "delete_http = \<lparr>r_Method = ''DELETE'', r_Path = ''/companies/x'', r_Authorization = ''Basic x'',
     r_Body = Some [], r_Params = []\<rparr>"

definition reject_all :: "(world, unit) TokenValidator" where
  "reject_all = \<lparr>tv_Validate = \<lambda>token w. (Inl (OtherError ''no''), w)\<rparr>"

definition always_ready :: "world ReadinessChecker" where
  "always_ready = \<lparr>Ping = \<lambda>ctx w. (None, w)\<rparr>"

definition example_router :: "(world, unit) TokenValidator \<Rightarrow> world handler" where
  "example_router v = NewRouter first_match canonical_uuids world_runtime healthz world_service v
     always_ready"

theorem unauthenticated_requests_change_nothing_witness:
  "\<exists>wr'. example_router reject_all delete_http fresh_writer acme_world = (wr', acme_world)"
proof -
  obtain wr' w' where run: "example_router reject_all delete_http fresh_writer acme_world = (wr', w')"
    by fastforce
  have "bearerToken (r_Authorization delete_http) = ''''
      \<or> (\<exists>err w1. tv_Validate reject_all (bearerToken (r_Authorization delete_http)) acme_world
           = (Inl err, w1))"
    by (simp add: reject_all_def)
  from unauthenticated_requests_change_nothing [OF first_match_ok _ this
      run [unfolded example_router_def]] run
  show ?thesis by (auto simp: delete_http_def reject_all_def)
qed

subsection \<open>Any request\<close>

text \<open>What a request may have done to the ledger: nothing, or one change recorded in full.\<close>

definition settled :: "('w \<Rightarrow> ledger option) \<Rightarrow> ledger \<Rightarrow> 'w \<Rightarrow> bool" where
  "settled view l w' \<longleftrightarrow> (\<exists>l'. view w' = Some l' \<and> (l' = l \<or> (\<exists>ch. recorded ch l l')))"

lemma settled_same: "view w' = Some l \<Longrightarrow> settled view l w'"
  by (simp add: settled_def)

lemma settled_promise:
  "kept_promise (ledger_view lib tables) refusals did l st w' \<Longrightarrow>
   settled (ledger_view lib tables Background) l w'"
  by (auto simp: settled_def kept_promise_def split: if_splits)

lemma settled_behind_guard:
  assumes auth: "AuthMiddleware v h r fresh_writer w = (wr', w')"
    and view: "view w = Some l"
    and validator: "\<forall>token. view (snd (tv_Validate v token w)) = Some l"
    and inner: "\<And>w1. view w1 = Some l \<Longrightarrow> h r fresh_writer w1 = (wr', w') \<Longrightarrow> settled view l w'"
  shows "settled view l w'"
proof -
  let ?token = "bearerToken (r_Authorization r)"
  obtain rv w1 where val: "tv_Validate v ?token w = (rv, w1)" by fastforce
  then have w1: "view w1 = Some l" using validator by (metis snd_conv)
  from AuthMiddleware_cases [OF auth] val consider "h r fresh_writer w1 = (wr', w')"
    | "w' = w" | "w' = w1" by auto
  then show ?thesis using inner [OF w1] w1 view by cases (auto intro: settled_same)
qed

text \<open>The handlers with a promise, over the service of the program.\<close>

lemma settled_create:
  assumes "service_database pg tables now outside lib rt"
    and "ledger_view lib tables Background w = Some l"
    and "Handler_CreateCompany lib rt (postgres_service lib pg rt) r fresh_writer w = (wr', w')"
  shows "settled (ledger_view lib tables Background) l w'"
  using create_handler_outcome [OF assms] by (blast intro: settled_promise)

lemma settled_patch:
  assumes "service_database pg tables now outside lib rt"
    and "ledger_view lib tables Background w = Some l"
    and "Handler_PatchCompany lib rt (postgres_service lib pg rt) r fresh_writer w = (wr', w')"
  shows "settled (ledger_view lib tables Background) l w'"
  using patch_handler_outcome [OF assms] by (blast intro: settled_promise)

lemma settled_delete:
  assumes "service_database pg tables now outside lib rt"
    and "ledger_view lib tables Background w = Some l"
    and "Handler_DeleteCompany lib (postgres_service lib pg rt) r fresh_writer w = (wr', w')"
  shows "settled (ledger_view lib tables Background) l w'"
  using delete_handler_outcome [OF assms] by (blast intro: settled_promise)

text \<open>The routes of the guarded group.\<close>

lemma settled_guarded_route:
  assumes sys: "service_database pg tables now outside lib rt"
    and view: "ledger_view lib tables Background w = Some l"
    and validator: "\<forall>token. ledger_view lib tables Background (snd (tv_Validate v token w)) = Some l"
    and route: "route \<in> set (router_routes lib rt swagger (postgres_service lib pg rt) v ready)"
      "rt_Method route \<noteq> ''GET''"
    and run: "rt_Handler route r fresh_writer w = (wr', w')"
  shows "settled (ledger_view lib tables Background) l w'"
proof -
  let ?s = "postgres_service lib pg rt"
  from route consider "rt_Handler route = AuthMiddleware v (Handler_CreateCompany lib rt ?s)"
    | "rt_Handler route = AuthMiddleware v (Handler_PatchCompany lib rt ?s)"
    | "rt_Handler route = AuthMiddleware v (Handler_DeleteCompany lib ?s)"
    by (auto simp: router_routes_def)
  then show ?thesis
    using run settled_behind_guard [OF _ view validator]
      settled_create [OF sys] settled_patch [OF sys] settled_delete [OF sys]
    by cases metis+
qed

text \<open>The public routes leave the ledger as it is.\<close>

lemma public_route_reads:
  assumes sys: "service_database pg tables now outside lib rt"
    and view: "ledger_view lib tables Background w = Some l"
    and swagger: "\<forall>r wr. ledger_view lib tables Background (snd (swagger r wr w)) = Some l"
    and ping: "\<forall>ctx. ledger_view lib tables Background (snd (Ping ready ctx w)) = Some l"
    and route: "route \<in> set (router_routes lib rt swagger (postgres_service lib pg rt) v ready)"
      "rt_Method route = ''GET''"
    and run: "rt_Handler route r fresh_writer w = (wr', w')"
  shows "ledger_view lib tables Background w' = Some l"
proof -
  let ?s = "postgres_service lib pg rt"
  from route consider "rt_Handler route = swagger" | "rt_Handler route = healthz"
    | "rt_Handler route = readyz ready" | "rt_Handler route = Handler_GetCompany lib ?s"
    by (auto simp: router_routes_def)
  then show ?thesis
  proof cases
    case 1
    with run swagger show ?thesis by (metis snd_conv)
  next
    case 2
    with run view show ?thesis by (auto simp: healthz_def)
  next
    case 3
    obtain rp w1 where p: "Ping ready Background w = (rp, w1)" by fastforce
    then have "ledger_view lib tables Background w1 = Some l" using ping by (metis snd_conv)
    with 3 p run show ?thesis by (auto simp: readyz_def split: option.splits)
  next
    case 4
    with run get_handler_outcome [OF sys view] show ?thesis by fastforce
  qed
qed

text \<open>
  Property C20: any request, whatever its method, path, token and body, is all or nothing: after it
  the ledger is what it was, or exactly one change has been made and its one event recorded; and
  after a GET the ledger is what it was.  (The library handler of the documentation, the validator
  and the readiness check do not write to the database.)
\<close>

theorem every_request_is_all_or_nothing:
  assumes sys: "service_database pg tables now outside lib rt"
    and mux: "mux_ok matches_path chi"
    and led: "ledger_view lib tables Background w = Some l"
    and swagger: "\<forall>r wr. ledger_view lib tables Background (snd (swagger r wr w)) = Some l"
    and validator: "\<forall>token. ledger_view lib tables Background (snd (tv_Validate v token w)) = Some l"
    and ping: "\<forall>ctx. ledger_view lib tables Background (snd (Ping ready ctx w)) = Some l"
    and run: "NewRouter chi lib rt swagger (postgres_service lib pg rt) v ready r fresh_writer w
      = (wr', w')"
  shows "\<exists>l'. ledger_view lib tables Background w' = Some l'
      \<and> (l' = l \<or> r_Method r \<noteq> ''GET'' \<and> (\<exists>ch. recorded ch l l'))"
  using mux run
proof (cases rule: NewRouter_cases)
  case (routed route params)
  show ?thesis
  proof (cases "r_Method r = ''GET''")
    case True
    with routed have "ledger_view lib tables Background w' = Some l"
      by (metis public_route_reads [where swagger = swagger and ready = ready, OF sys led swagger ping])
    then show ?thesis by blast
  next
    case False
    with routed have "settled (ledger_view lib tables Background) l w'"
      by (metis settled_guarded_route [where v = v, OF sys led validator])
    with False show ?thesis by (auto simp: settled_def)
  qed
qed (use led in simp)

definition accept_all :: "(world, unit) TokenValidator" where
  "accept_all = \<lparr>tv_Validate = \<lambda>token w. (Inr (), w)\<rparr>"

theorem every_request_is_all_or_nothing_witness:
  "\<exists>wr' w' l'. example_router accept_all delete_http fresh_writer acme_world = (wr', w')
    \<and> ledger_view canonical_uuids server_tables Background w' = Some l'
    \<and> (l' = acme_ledger \<or> (\<exists>ch. recorded ch acme_ledger l'))"
proof -
  obtain wr' w' where run: "example_router accept_all delete_http fresh_writer acme_world = (wr', w')"
    by fastforce
  have leaves: "\<forall>r wr. ledger_view canonical_uuids server_tables Background
        (snd (healthz r wr acme_world)) = Some acme_ledger"
    "\<forall>token. ledger_view canonical_uuids server_tables Background
        (snd (tv_Validate accept_all token acme_world)) = Some acme_ledger"
    "\<forall>ctx. ledger_view canonical_uuids server_tables Background
        (snd (Ping always_ready ctx acme_world)) = Some acme_ledger"
    by (simp_all add: healthz_def accept_all_def always_ready_def)
  from every_request_is_all_or_nothing [OF reference_service first_match_ok acme_view leaves
      run [unfolded example_router_def]] run
  show ?thesis by blast
qed

end
