(* ===== verification/AuthWorld.thy ===== *)
theory AuthWorld
  imports Tokens HttpRouter
begin

text \<open>
  A token library to run the program with, and what the authentication of the whole program keeps
  out.  The tokens of this library are the hexadecimal dates and the subject, a dot, and a checksum
  with the key; it keeps the contract of the real one.
\<close>

subsection \<open>A token library\<close>

definition seconds :: "time \<Rightarrow> nat" where
  "seconds t = nat (t div 1000000000)"

definition date_text :: "time option \<Rightarrow> string" where
  "date_text d = (case d of None \<Rightarrow> ''-'' @ hex 16 0 | Some t \<Rightarrow> ''+'' @ hex 16 (seconds t))"

definition text_date :: "string \<Rightarrow> time option" where
  "text_date s =
     (if hd s = CHR ''+'' then Some (int (the (unhex 0 (tl s))) * 1000000000) else None)"

definition claims_text :: "RegisteredClaims \<Rightarrow> string" where
  "claims_text c = date_text (ExpiresAt c) @ date_text (IssuedAt c) @ Subject c"

definition text_claims :: "string \<Rightarrow> RegisteredClaims" where
  "text_claims s =
     \<lparr>Subject = drop 34 s, ExpiresAt = text_date (take 17 s),
      IssuedAt = text_date (take 17 (drop 17 s))\<rparr>"

definition checksum :: "string \<Rightarrow> string \<Rightarrow> string" where
  "checksum key input = hex 8 (sum_list (map byte (key @ input)))"

definition checked_by :: "signing_method \<Rightarrow> string \<Rightarrow> string \<Rightarrow> string \<Rightarrow> bool" where
  "checked_by m key input sg \<longleftrightarrow> m = SigningMethodHS256 \<and> sg = checksum key input"

definition sample_parse ::
    "string \<Rightarrow> (jwt_token \<Rightarrow> goerr + string) \<Rightarrow> (world, goerr, jwt_token) io" where
  "sample_parse s kf w =
     (let n = length s - 9; input = take n s; sg = drop (Suc n) s; c = text_claims input;
          token = \<lparr>tk_Method = SigningMethodHS256, tk_Claims = Claims c, tk_Valid = False\<rparr>
      in (if length s < 9 \<or> s ! n \<noteq> CHR ''.'' then Inl (OtherError ''token is malformed'')
          else
            (case kf token of
               Inl e \<Rightarrow> Inl e
             | Inr key \<Rightarrow>
                 if sg \<noteq> checksum key input then Inl (OtherError ''signature is invalid'')
                 else if (case ExpiresAt c of None \<Rightarrow> False | Some e \<Rightarrow> e \<le> wall_clock w)
                 then Inl (OtherError ''token is expired'')
                 else if (case IssuedAt c of None \<Rightarrow> False | Some i \<Rightarrow> wall_clock w < i)
                 then Inl (OtherError ''token used before issued'')
                 else Inr (token\<lparr>tk_Valid := True\<rparr>)), w))"

definition sample_sign :: "signing_method \<Rightarrow> RegisteredClaims \<Rightarrow> string \<Rightarrow> goerr + string" where
  "sample_sign m c key =
     (if m = SigningMethodHS256
      then Inr (claims_text c @ ''.'' @ checksum key (claims_text c))
      else Inl (OtherError ''unavailable''))"

definition sample_jwt :: "world jwt_lib" where
  "sample_jwt = \<lparr>ParseWithClaims = sample_parse, SignedString = sample_sign,
     NewNumericDate = (\<lambda>t. t - t mod 1000000000)\<rparr>"

lemma length_date_text [simp]: "length (date_text d) = 17"
  by (simp add: date_text_def split: option.split)

lemma text_date_text:
  assumes "numeric_date t"
  shows "text_date (date_text (Some t)) = Some t"
proof -
  from assms have t: "t = t div 1000000000 * 1000000000" and "0 \<le> t div 1000000000"
    and "t div 1000000000 < 2 ^ 53"
    by (auto simp: numeric_date_def)
  then have s: "int (seconds t) * 1000000000 = t" and "seconds t < 2 ^ 53"
    by (simp_all add: seconds_def nat_less_iff)
  then have "seconds t mod 16 ^ 16 = seconds t" by simp
  with s show ?thesis by (simp add: text_date_def date_text_def unhex_hex)
qed

lemma text_claims_text:
  assumes "ExpiresAt c = Some e" "IssuedAt c = Some i" "numeric_date e" "numeric_date i"
  shows "text_claims (claims_text c) = c"
proof -
  have "text_date (date_text (ExpiresAt c)) = ExpiresAt c" "text_date (date_text (IssuedAt c)) = IssuedAt c"
    using assms text_date_text by simp_all
  then show ?thesis by (simp add: text_claims_def claims_text_def)
qed

interpretation sample: jwt_library sample_jwt wall_clock checked_by
proof
  fix s kf token and w w' :: world
  assume "ParseWithClaims sample_jwt s kf w = (Inr token, w')"
  then have p: "sample_parse s kf w = (Inr token, w')" by (simp add: sample_jwt_def)
  define n where "n = length s - 9"
  define c where "c = text_claims (take n s)"
  let ?token = "\<lparr>tk_Method = SigningMethodHS256, tk_Claims = Claims c, tk_Valid = False\<rparr>"
  from p have len: "9 \<le> length s" "s ! n = CHR ''.''"
    by (auto simp: sample_parse_def Let_def n_def split: if_splits)
  with p obtain key where key: "kf ?token = Inr key" "drop (Suc n) s = checksum key (take n s)"
    "\<forall>e. ExpiresAt c = Some e \<longrightarrow> wall_clock w < e" "\<forall>i. IssuedAt c = Some i \<longrightarrow> i \<le> wall_clock w"
    "token = ?token\<lparr>tk_Valid := True\<rparr>"
    by (auto simp: sample_parse_def Let_def n_def c_def split: if_splits sum.splits option.splits)
  from len have "s = take n s @ ''.'' @ drop (Suc n) s"
    by (metis Cons_nth_drop_Suc append_Cons append_Nil append_take_drop_id diff_less n_def
        zero_less_numeral order_less_le_trans)
  with key have "s = take n s @ ''.'' @ checksum key (take n s)" by metis
  with key show "tk_Valid token
      \<and> (\<exists>claims. tk_Claims token = Claims claims
           \<and> (\<forall>e. ExpiresAt claims = Some e \<longrightarrow> wall_clock w < e)
           \<and> (\<forall>i. IssuedAt claims = Some i \<longrightarrow> i \<le> wall_clock w))
      \<and> (\<exists>key input sg. kf (token\<lparr>tk_Valid := False\<rparr>) = Inr key
           \<and> s = input @ ''.'' @ sg \<and> checked_by (tk_Method token) key input sg)"
    by (auto simp: checked_by_def)
next
  fix m claims key s e i and kf :: "jwt_token \<Rightarrow> goerr + string" and w :: world
  assume "SignedString sample_jwt m claims key = Inr s"
    and dates: "ExpiresAt claims = Some e" "IssuedAt claims = Some i" "numeric_date e" "numeric_date i"
    and now: "i \<le> wall_clock w" "wall_clock w < e"
    and kf: "kf \<lparr>tk_Method = m, tk_Claims = Claims claims, tk_Valid = False\<rparr> = Inr key"
  then have m: "m = SigningMethodHS256"
    and s: "s = claims_text claims @ ''.'' @ checksum key (claims_text claims)"
    by (auto simp: sample_jwt_def sample_sign_def split: if_splits)
  have n: "length s - 9 = length (claims_text claims)" by (simp add: s checksum_def)
  have "take (length s - 9) s = claims_text claims"
    "drop (Suc (length s - 9)) s = checksum key (claims_text claims)" "s ! (length s - 9) = CHR ''.''"
    "\<not> length s < 9"
    unfolding n by (simp_all add: s checksum_def nth_append)
  then show "\<exists>w'. ParseWithClaims sample_jwt s kf w
      = (Inr \<lparr>tk_Method = m, tk_Claims = Claims claims, tk_Valid = True\<rparr>, w')"
    using text_claims_text [OF dates] dates now kf m
    by (simp add: sample_jwt_def sample_parse_def Let_def)
qed (simp_all add: sample_jwt_def sample_sign_def)

lemmas sample_library = sample.jwt_library_axioms

subsection \<open>Tokens made and checked\<close>

theorem Validate_accepts_only_signed_witness:
  "\<exists>s claims w'. JWTManager_Validate sample_jwt (NewJWTManager ''k'') s acme_world = (Inr claims, w')
    \<and> (\<exists>input sg. s = input @ ''.'' @ sg \<and> checked_by SigningMethodHS256 ''k'' input sg)
    \<and> (\<exists>e. ExpiresAt claims = Some e \<and> wall_clock acme_world < e)"
proof -
  let ?m = "NewJWTManager ''k''" and ?e = "wall_clock acme_world + 1000000000000"
  let ?c = "\<lparr>Subject = [], ExpiresAt = Some ?e, IssuedAt = None\<rparr>"
  define s where "s = claims_text ?c @ ''.'' @ checksum ''k'' (claims_text ?c)"
  have "wall_clock acme_world = 0" by (simp add: acme_world_def empty_world_def)
  then have "numeric_date ?e" by (simp add: numeric_date_def)
  then have c: "text_claims (claims_text ?c) = ?c"
    using text_date_text by (simp add: text_claims_def claims_text_def) (simp add: text_date_def date_text_def)
  have n: "length s - 9 = length (claims_text ?c)" by (simp add: s_def checksum_def)
  have "take (length s - 9) s = claims_text ?c" "\<not> length s < 9"
    "drop (Suc (length s - 9)) s = checksum ''k'' (claims_text ?c)" "s ! (length s - 9) = CHR ''.''"
    unfolding n by (simp_all add: s_def checksum_def nth_append)
  then obtain claims w' where run: "JWTManager_Validate sample_jwt ?m s acme_world = (Inr claims, w')"
    using c by (auto simp: JWTManager_Validate_def sample_jwt_def sample_parse_def Let_def keyfunc_def
        NewJWTManager_def)
  from Validate_accepts_only_signed [OF sample_library run] run show ?thesis
    by (auto simp: NewJWTManager_def)
qed

theorem Generated_tokens_are_accepted_witness:
  "\<exists>s w1. JWTManager_Generate sample_jwt world_runtime (NewJWTManager ''k'') ''me'' Hour empty_world
      = (Inr s, w1)
    \<and> (\<exists>claims w3. JWTManager_Validate sample_jwt (NewJWTManager ''k'') s w1 = (Inr claims, w3)
        \<and> Subject claims = ''me'')"
proof -
  let ?w1 = "empty_world\<lparr>wall_clock := 2000000\<rparr>"
  have "\<exists>s. JWTManager_Generate sample_jwt world_runtime (NewJWTManager ''k'') ''me'' Hour empty_world
        = (Inr s, ?w1)
    \<and> (\<forall>w2. 1000000 \<le> wall_clock w2 \<and> wall_clock w2 < 0 + Hour - (0 + Hour) mod 1000000000 \<longrightarrow>
         (\<exists>claims w3. JWTManager_Validate sample_jwt (NewJWTManager ''k'') s w2 = (Inr claims, w3)
            \<and> Subject claims = ''me''))"
  proof (rule Generated_tokens_are_accepted [OF sample_library])
    show "time_Now world_runtime empty_world = (0, empty_world\<lparr>wall_clock := 1000000\<rparr>)"
      "time_Now world_runtime (empty_world\<lparr>wall_clock := 1000000\<rparr>) = (1000000, ?w1)"
      by (simp_all add: world_runtime_def empty_world_def last_instant_def)
    show "ValidString ''me''" by (rule ValidString_ascii) (simp add: byte_def)
  qed (simp_all add: duration_units)
  moreover have "wall_clock ?w1 = 2000000" by simp
  moreover have "(0 + Hour) - (0 + Hour) mod 1000000000 = Hour" by (simp add: duration_units)
  ultimately show ?thesis by (fastforce simp: duration_units)
qed

subsection \<open>The whole program behind its tokens\<close>

text \<open>What gets past the middleware has been validated.\<close>

lemma behind_guard:
  assumes auth: "AuthMiddleware v h r fresh_writer w = (wr', w')"
    and view: "view w = Some l" and changed: "view w' \<noteq> Some l"
    and validator: "\<forall>token. view (snd (tv_Validate v token w)) = Some l"
  obtains claims w1 where "tv_Validate v (bearerToken (r_Authorization r)) w = (Inr claims, w1)"
  using AuthMiddleware_cases [OF auth] validator view changed that by (metis snd_conv)

text \<open>The change of a request of another method is behind the middleware.\<close>

lemma changing_request_validated:
  assumes sys: "service_database pg tables now outside lib rt"
    and mux: "mux_ok matches_path chi"
    and led: "ledger_view lib tables Background w = Some l"
    and swagger: "\<forall>r wr. ledger_view lib tables Background (snd (swagger r wr w)) = Some l"
    and ping: "\<forall>ctx. ledger_view lib tables Background (snd (Ping ready ctx w)) = Some l"
    and leaves: "\<forall>token. ledger_view lib tables Background (snd (tv_Validate v token w)) = Some l"
    and run: "NewRouter chi lib rt swagger (postgres_service lib pg rt) v ready r fresh_writer w = (wr', w')"
    and changed: "ledger_view lib tables Background w' \<noteq> Some l"
  obtains claims w1 where "tv_Validate v (bearerToken (r_Authorization r)) w = (Inr claims, w1)"
    and "r_Method r \<in> {''POST'', ''PATCH'', ''DELETE''}"
  using mux run
proof (cases rule: NewRouter_cases)
  case (routed route params)
  let ?view = "ledger_view lib tables Background"
  have other: "rt_Method route \<noteq> ''GET''"
  proof
    assume "rt_Method route = ''GET''"
    with routed have "?view w' = Some l"
      by (metis public_route_reads [where swagger = swagger and ready = ready, OF sys led swagger ping])
    with changed show False by simp
  qed
  with routed(1) obtain h where h: "rt_Handler route = AuthMiddleware v h" by (metis guarded_route)
  from routed(3) have "AuthMiddleware v h (r\<lparr>r_Params := params\<rparr>) fresh_writer w = (wr', w')"
    by (simp add: h)
  from behind_guard [where view = ?view, OF this led changed leaves] obtain claims w1 where
    "tv_Validate v (bearerToken (r_Authorization r)) w = (Inr claims, w1)" by auto
  moreover have "r_Method r \<in> {''POST'', ''PATCH'', ''DELETE''}"
    using routed(1,2) other by (auto simp: router_routes_def)
  ultimately show thesis by (rule that)
qed (use led changed in simp)

lemma Validate_leaves:
  assumes "\<forall>s kf. view (snd (ParseWithClaims jwt s kf w)) = Some l"
  shows "\<forall>token. view (snd (tv_Validate (jwt_validator jwt m) token w)) = Some l"
proof
  fix token
  obtain rp w1 where "ParseWithClaims jwt token (keyfunc m) w = (rp, w1)" by fastforce
  moreover from this assms have "view w1 = Some l" by (metis snd_conv)
  ultimately show "view (snd (tv_Validate (jwt_validator jwt m) token w)) = Some l"
    by (cases rp) (simp_all add: jwt_validator_def JWTManager_Validate_def)
qed

text \<open>
  Property C19: whoever changes the data of the service holds a token.  If the ledger is another
  after a request, then the request was a POST, PATCH or DELETE, and its bearer token ends in a
  signature that HS256 verifies with the secret of the service and had not expired.
\<close>

theorem changes_need_a_signed_token:
  assumes sys: "service_database pg tables now outside lib rt"
    and mux: "mux_ok matches_path chi"
    and led: "ledger_view lib tables Background w = Some l"
    and swagger: "\<forall>r wr. ledger_view lib tables Background (snd (swagger r wr w)) = Some l"
    and ping: "\<forall>ctx. ledger_view lib tables Background (snd (Ping ready ctx w)) = Some l"
    and jwt: "jwt_library jwt clock verify"
    and parse: "\<forall>s kf. ledger_view lib tables Background (snd (ParseWithClaims jwt s kf w)) = Some l"
    and run: "NewRouter chi lib rt swagger (postgres_service lib pg rt) (jwt_validator jwt m) ready r
      fresh_writer w = (wr', w')"
  shows "ledger_view lib tables Background w' = Some l
    \<or> r_Method r \<in> {''POST'', ''PATCH'', ''DELETE''}
      \<and> (\<exists>input sg. bearerToken (r_Authorization r) = input @ ''.'' @ sg
           \<and> verify SigningMethodHS256 (secret m) input sg)
      \<and> (\<exists>claims w1 e. JWTManager_Validate jwt m (bearerToken (r_Authorization r)) w = (Inr claims, w1)
           \<and> ExpiresAt claims = Some e \<and> clock w < e)"
proof (cases "ledger_view lib tables Background w' = Some l")
  case False
  from changing_request_validated [OF sys mux led swagger ping Validate_leaves [OF parse] run False]
  obtain claims w1 where
    val: "JWTManager_Validate jwt m (bearerToken (r_Authorization r)) w = (Inr claims, w1)"
    and verb: "r_Method r \<in> {''POST'', ''PATCH'', ''DELETE''}"
    by (auto simp: jwt_validator_def)
  from val verb jwt_library.Validate_accepts [OF jwt val] show ?thesis by blast
qed simp

theorem changes_need_a_signed_token_witness:
  "\<exists>wr' w'. NewRouter first_match canonical_uuids world_runtime healthz world_service
        (jwt_validator sample_jwt (NewJWTManager ''k'')) always_ready delete_http fresh_writer
        acme_world = (wr', w')
    \<and> (ledger_view canonical_uuids server_tables Background w' = Some acme_ledger
       \<or> (\<exists>input sg. bearerToken ''Basic x'' = input @ ''.'' @ sg
            \<and> checked_by SigningMethodHS256 ''k'' input sg))"
proof -
  let ?v = "jwt_validator sample_jwt (NewJWTManager ''k'') :: (world, RegisteredClaims) TokenValidator"
  obtain wr' w' where run: "NewRouter first_match canonical_uuids world_runtime healthz world_service ?v
      always_ready delete_http fresh_writer acme_world = (wr', w')" by fastforce
  have leaves: "\<forall>r wr. ledger_view canonical_uuids server_tables Background
        (snd (healthz r wr acme_world)) = Some acme_ledger"
    "\<forall>ctx. ledger_view canonical_uuids server_tables Background
        (snd (Ping always_ready ctx acme_world)) = Some acme_ledger"
    "\<forall>s kf. ledger_view canonical_uuids server_tables Background
        (snd (ParseWithClaims sample_jwt s kf acme_world)) = Some acme_ledger"
    by (simp_all add: healthz_def always_ready_def sample_jwt_def sample_parse_def Let_def)
  from changes_need_a_signed_token [OF reference_service first_match_ok acme_view leaves(1,2)
      sample_library leaves(3) run] run
  show ?thesis
    by (auto simp: delete_http_def NewJWTManager_def)
qed

end
