(* ===== verification/System.thy ===== *)
theory System
  imports UseCases
begin

text \<open>
  The running system: requests to the service and ticks of the publisher, one after the other in any
  order, with the environment (clocks, the network, other users of the broker) moving in between.
  The invariants hold in every reachable state, whatever fails on the way.
\<close>

subsection \<open>Calls that leave a part of the world alone\<close>

definition keeps :: "('w \<Rightarrow> 's) \<Rightarrow> ('w \<Rightarrow> 'b \<times> 'w) \<Rightarrow> bool" where
  "keeps f m \<longleftrightarrow> (\<forall>w. f (snd (m w)) = f w)"

named_theorems keeps_intros \<open>how the combinators keep a part of the world\<close>

lemma keepsD: "keeps f m \<Longrightarrow> m w = (r, w') \<Longrightarrow> f w' = f w"
  by (metis keeps_def snd_conv)

lemma keeps_return [keeps_intros]: "keeps f (\<lambda>w. (r, w))"
  by (simp add: keeps_def)

lemma keeps_try_io [keeps_intros]:
  "keeps f m \<Longrightarrow> (\<And>a. keeps f (k a)) \<Longrightarrow> keeps f (try_io m h k)"
  by (auto simp: keeps_def try_io_def split: prod.split sum.split dest: spec [of _ "snd _"])
    (metis snd_conv)+

lemma keeps_try_cmd [keeps_intros]:
  "keeps f m \<Longrightarrow> keeps f k \<Longrightarrow> keeps f (try_cmd m h k)"
  by (auto simp: keeps_def try_cmd_def split: prod.split option.split) (metis snd_conv)+

lemma keeps_with_sql [keeps_intros]:
  "(\<And>st. keeps f (k st)) \<Longrightarrow> keeps f (with_sql pg st h k)"
  by (auto simp: keeps_def with_sql_def split: option.split)

lemma keeps_bind [keeps_intros]:
  "keeps f m \<Longrightarrow> (\<And>a. keeps f (k a)) \<Longrightarrow> keeps f (\<lambda>w. case m w of (a, w) \<Rightarrow> k a w)"
  by (auto simp: keeps_def split: prod.split) (metis snd_conv)

lemma keeps_if [keeps_intros]:
  "keeps f m \<Longrightarrow> keeps f k \<Longrightarrow> keeps f (\<lambda>w. if b then m w else k w)"
  "keeps f m \<Longrightarrow> keeps f k \<Longrightarrow> keeps f (if b then m else k)"
  by (simp_all add: keeps_def)

lemma keeps_case [keeps_intros]:
  "(\<And>e. keeps f (m1 e)) \<Longrightarrow> (\<And>a. keeps f (m2 a)) \<Longrightarrow>
   keeps f (\<lambda>w. case x of Inl e \<Rightarrow> m1 e w | Inr a \<Rightarrow> m2 a w)"
  "keeps f m0 \<Longrightarrow> (\<And>a. keeps f (m3 a)) \<Longrightarrow>
   keeps f (\<lambda>w. case y of None \<Rightarrow> m0 w | Some a \<Rightarrow> m3 a w)"
  "(\<And>a b. keeps f (m4 a b)) \<Longrightarrow> keeps f (\<lambda>w. case z of (a, b) \<Rightarrow> m4 a b w)"
  by (simp_all add: keeps_def split: sum.split option.split prod.split)

lemma keeps_split [keeps_intros]:
  "(\<And>a b. keeps f (m a b)) \<Longrightarrow> keeps f (case z of (a, b) \<Rightarrow> m a b)"
  by (simp split: prod.split)

lemma keeps_transaction:
  assumes "\<And>w. f (snd (Begin pg w)) = f w" and "\<And>t w. f (snd (Commit pg t w)) = f w"
    and "\<And>t w. f (snd (Rollback pg t w)) = f w" and "\<And>ctx. keeps f (fn ctx)"
  shows "keeps f (TransactionManager_WithinTransaction pg ctx fn)"
proof -
  have [keeps_intros]: "keeps f (Begin pg)" "\<And>t. keeps f (Commit pg t)" "\<And>t. keeps f (Rollback pg t)"
    using assms(1,2,3) by (simp_all add: keeps_def)
  have "keeps f (\<lambda>w. case fn c w of (Inl e, w) \<Rightarrow> m1 e w | (Inr a, w) \<Rightarrow> m2 a w)"
    if "\<And>e. keeps f (m1 e)" "\<And>a. keeps f (m2 a)" for c m1 m2
    unfolding keeps_def
    using that assms(4) by (auto simp: keeps_def split: prod.split sum.split) (metis snd_conv)+
  note this [keeps_intros]
  show ?thesis
    unfolding TransactionManager_WithinTransaction_def [abs_def]
    by (intro keeps_intros assms(4))
qed


subsection \<open>Replaying the events\<close>

text \<open>A consumer of the events that keeps a table of companies by id.\<close>

definition replay_event :: "(uuid \<rightharpoonup> company) \<Rightarrow> event \<Rightarrow> (uuid \<rightharpoonup> company)" where
  "replay_event m ev =
     (if e_Type ev = EventCompanyDeleted then m(CompanyID ev := None)
      else case Company ev of None \<Rightarrow> m | Some c \<Rightarrow> m(CompanyID ev \<mapsto> stored c))"

definition replay :: "event list \<Rightarrow> (uuid \<rightharpoonup> company)" where
  "replay evs = foldl replay_event Map.empty evs"

definition company_table :: "ledger \<Rightarrow> (uuid \<rightharpoonup> company)" where
  "company_table l = map_of (map (\<lambda>c. (ID c, c)) (members l))"

definition events_of :: "ledger \<Rightarrow> event list" where
  "events_of l = map en_event (outbox l)"

lemma company_table_Some:
  assumes "ledger_ok l"
  shows "company_table l i = Some c \<longleftrightarrow> c \<in> set (members l) \<and> ID c = i"
proof -
  have "distinct (map fst (map (\<lambda>c. (ID c, c)) (members l)))"
    using assms by (simp add: ledger_ok_def comp_def)
  from map_of_eq_Some_iff [OF this] show ?thesis by (auto simp: company_table_def)
qed

lemma map_eq_by_Some: "(\<And>i c. m i = Some c \<longleftrightarrow> m' i = Some c) \<Longrightarrow> m = m'"
  by (rule ext) (metis option.exhaust)

lemma company_table_change:
  assumes l: "ledger_ok l" and ch: "admissible l ch" and ev: "announces ev ch"
  shows "company_table (apply_change ch l) = replay_event (company_table l) ev"
proof (rule map_eq_by_Some)
  fix i c
  note ok = ledger_ok_apply_change [OF l ch]
  show "company_table (apply_change ch l) i = Some c \<longleftrightarrow> replay_event (company_table l) ev i = Some c"
  proof (cases ch)
    case (Created d)
    with ch have "\<forall>x\<in>set (members l). ID x \<noteq> ID d"
      by (auto simp: duplicate_def image_iff split: if_splits)
    with Created l ok ev show ?thesis
      by (auto simp: company_table_Some replay_event_def announces_def with_company_def)
  next
    case (Updated d)
    with ch obtain b where b: "b \<in> set (members l)" "ID b = ID d" "CreatedAt b = CreatedAt d"
      by auto
    have eq: "revised d b' = stored d" if "b' \<in> set (members l)" "ID b' = ID d" for b'
    proof -
      have "b' = b" using unique_id [OF l that(1) b(1)] that b by simp
      moreover have "company_ok b" using l b(1) by (simp add: ledger_ok_def)
      then have "micros (CreatedAt b) = CreatedAt b" by (simp add: company_ok_def stored_iff)
      ultimately show ?thesis using b by (simp add: revised_def stored_def)
    qed
    have mem: "c \<in> set (members (with_revision d l)) \<longleftrightarrow>
        (if ID c = ID d then c = stored d else c \<in> set (members l))"
    proof -
      have "c \<in> set (members (with_revision d l)) \<longleftrightarrow>
          (\<exists>x\<in>set (members l). c = (if ID x = ID d then stored d else x))"
        using eq by (fastforce simp: with_revision_def replace_by_def)
      with b show ?thesis by auto
    qed
    from Updated l ok ev mem show ?thesis
      by (auto simp: company_table_Some replay_event_def announces_def)
  next
    case (Deleted d)
    with l ok ev show ?thesis
      by (auto simp: company_table_Some replay_event_def announces_def without_company_def)
  qed
qed

definition events_complete :: "ledger \<Rightarrow> bool" where
  "events_complete l \<longleftrightarrow> replay (events_of l) = company_table l"

lemma company_table_outbox [simp]:
  "company_table (with_event t ev l) = company_table l"
  "company_table (apply_marks marks l) = company_table l"
  by (simp_all add: company_table_def with_event_def)

lemma events_complete_recorded:
  assumes "ledger_ok l" and "events_complete l" and "recorded ch l l'"
  shows "events_complete l'"
proof -
  from assms(3) obtain t ev where "announces ev ch" "admissible l ch"
    and l': "l' = with_event t ev (apply_change ch l)" by (auto simp: recorded_def)
  from company_table_change [OF assms(1) this(2,1)] assms(2) l' show ?thesis
    by (simp add: events_complete_def events_of_def replay_def with_event_def company_table_def)
qed

lemma events_complete_marks: "events_complete l \<Longrightarrow> events_complete (apply_marks marks l)"
  by (simp add: events_complete_def events_of_def)

text \<open>What every step keeps.\<close>

definition sound :: "(event \<Rightarrow> 'm) \<Rightarrow> 'm list \<Rightarrow> ledger \<Rightarrow> bool" where
  "sound message sent l \<longleftrightarrow> ledger_ok l \<and> events_complete l \<and> delivered message l sent"

lemma sound_recorded: "sound message s l \<Longrightarrow> recorded ch l l' \<Longrightarrow> sound message s l'"
  by (auto simp: sound_def intro: ledger_ok_recorded events_complete_recorded)
    (auto simp: recorded_def delivered_def with_event_def)

lemma sound_empty: "sound message s \<lparr>members = [], outbox = []\<rparr>"
  by (simp add: sound_def ledger_ok_def events_complete_def events_of_def replay_def
      company_table_def delivered_def)


subsection \<open>The service leaves the broker alone\<close>

context service_database
begin

lemma driver_keeps [keeps_intros]:
  "keeps outside (Exec pg x st)" "keeps outside (Query pg x st)" "keeps outside (QueryRow pg x st)"
  by (simp_all add: keeps_def statements_outside)

lemma query_row_keeps:
  "keeps outside (\<lambda>w. case QueryRow pg x st w of (row, w') \<Rightarrow>
     (case scanCompany row of Inl err \<Rightarrow> (Inl (h err), w') | Inr c \<Rightarrow> (Inr c, w')))"
  unfolding keeps_def
  using statements_outside(3) by (auto split: prod.split sum.split) (metis snd_conv)+

lemma repository_keeps [keeps_intros]:
  "keeps outside (CompanyRepository_GetByID pg ctx i)"
  "keeps outside (CompanyRepository_GetByName pg ctx n)"
  "keeps outside (CompanyRepository_Create pg ctx c)"
  "keeps outside (CompanyRepository_Update pg ctx c)"
  "keeps outside (CompanyRepository_Delete pg ctx i)"
  unfolding CompanyRepository_GetByID_def CompanyRepository_GetByName_def
    CompanyRepository_Create_def CompanyRepository_Update_def CompanyRepository_Delete_def
  by (intro keeps_intros query_row_keeps)+

lemma outbox_keeps [keeps_intros]: "keeps outside (OutboxRepository_Store lib pg ctx ev)"
  unfolding OutboxRepository_Store_def [abs_def] by (intro keeps_intros)

end


text \<open>The service over a runtime that leaves the rest of the world alone as well.\<close>

locale kept_service = service_database pg tables now outside lib rt
  for pg :: "'w driver" and tables :: "executor \<Rightarrow> 'w \<Rightarrow> database option"
    and now :: "executor \<Rightarrow> 'w \<Rightarrow> time" and outside :: "'w \<Rightarrow> 's" and lib :: uuid_lib
    and rt :: "'w runtime" +
  assumes time_keeps: "keeps outside (time_Now rt)"
    and uuid_keeps: "keeps outside (uuid_New rt)"
begin

lemma publish_keeps [keeps_intros]:
  "keeps outside (Service_publish (postgres_service lib pg rt) ctx ty c)"
proof -
  have "keeps outside (\<lambda>w. case uuid_New rt w of (i, w) \<Rightarrow> case time_Now rt w of (t, w) \<Rightarrow>
      try_cmd (OutboxRepository_Store lib pg ctx
          \<lparr>e_ID = i, e_Type = ty, OccurredAt = t, CompanyID = ID c, Company = Some c\<rparr>)
        (\<lambda>err. Some (wrap ''store company event in outbox'' err)) (\<lambda>w. (None, w)) w)"
    by (intro keeps_intros time_keeps uuid_keeps)
  then show ?thesis
    by (simp add: keeps_def Service_publish_def postgres_service_def NewServiceWithOutbox_def
        NewOutboxRepository_Store_def Let_def)
qed

lemma service_fields:
  "svc_repo (postgres_service lib pg rt) = NewCompanyRepository pg"
  "svc_tx (postgres_service lib pg rt) = Some (NewTransactionManager pg)"
  by (simp_all add: postgres_service_def NewServiceWithOutbox_def)

lemma repository_fields:
  "Create (NewCompanyRepository pg) = CompanyRepository_Create pg"
  "Update (NewCompanyRepository pg) = CompanyRepository_Update pg"
  "Delete (NewCompanyRepository pg) = CompanyRepository_Delete pg"
  "GetByID (NewCompanyRepository pg) = CompanyRepository_GetByID pg"
  "GetByName (NewCompanyRepository pg) = CompanyRepository_GetByName pg"
  by (simp_all add: NewCompanyRepository_def)

lemma create_in_tx_keeps [keeps_intros]:
  "keeps outside (create_in_tx (postgres_service lib pg rt) c ctx)"
  unfolding create_in_tx_def [abs_def] service_fields repository_fields
  by (intro keeps_intros)

lemma name_is_free_keeps [keeps_intros]:
  "keeps outside (name_is_free (postgres_service lib pg rt) ctx i v)"
  unfolding name_is_free_def [abs_def] service_fields repository_fields
  by (intro keeps_intros)

lemma patch_in_tx_keeps [keeps_intros]:
  "keeps outside (patch_in_tx rt (postgres_service lib pg rt) i input ctx)"
  unfolding patch_in_tx_def [abs_def] service_fields repository_fields
  by (intro keeps_intros time_keeps)

lemma delete_in_tx_keeps [keeps_intros]:
  "keeps outside (delete_in_tx (postgres_service lib pg rt) i ctx)"
  unfolding delete_in_tx_def [abs_def] service_fields repository_fields
  by (intro keeps_intros)

lemma within_keeps [keeps_intros]:
  "(\<And>ctx. keeps outside (fn ctx)) \<Longrightarrow>
   keeps outside (Service_withinTransaction (postgres_service lib pg rt) ctx fn)"
  by (simp add: Service_withinTransaction_def service_fields NewTransactionManager_def
      keeps_transaction transactions_outside)

lemma use_cases_keep:
  "keeps outside (CreateCompany rt (postgres_service lib pg rt) ctx input)"
  "keeps outside (PatchCompany rt (postgres_service lib pg rt) ctx i pinput)"
  "keeps outside (DeleteCompany (postgres_service lib pg rt) ctx i)"
  "keeps outside (GetCompany (postgres_service lib pg rt) ctx i)"
proof -
  show "keeps outside (CreateCompany rt (postgres_service lib pg rt) ctx input)"
    unfolding CreateCompany_def [abs_def] by (intro keeps_intros time_keeps)
  show "keeps outside (PatchCompany rt (postgres_service lib pg rt) ctx i pinput)"
    unfolding PatchCompany_def [abs_def] by (intro keeps_intros)
  show "keeps outside (DeleteCompany (postgres_service lib pg rt) ctx i)"
    unfolding DeleteCompany_def [abs_def] by (intro keeps_intros)
  show "keeps outside (GetCompany (postgres_service lib pg rt) ctx i)"
    unfolding GetCompany_def [abs_def] service_fields repository_fields
    by (intro keeps_intros)
qed

end

text \<open>So does the publisher, when its producer does.\<close>

context kept_service
begin

lemma queue_keeps [keeps_intros]:
  "keeps outside (OutboxRepository_FetchPending lib pg ctx n)"
  "keeps outside (OutboxRepository_MarkPublished pg ctx i)"
  "keeps outside (OutboxRepository_MarkFailed pg ctx i e)"
  unfolding OutboxRepository_FetchPending_def OutboxRepository_MarkPublished_def [abs_def]
    OutboxRepository_MarkFailed_def [abs_def]
  by (intro keeps_intros)+

lemma publisher_fields:
  "pub_producer (outbox_publisher lib pg producer interval batchSize) = producer"
  "pub_tx (outbox_publisher lib pg producer interval batchSize) = Some (NewTransactionManager pg)"
  "MarkPublished (pub_repo (outbox_publisher lib pg producer interval batchSize))
     = OutboxRepository_MarkPublished pg"
  "MarkFailed (pub_repo (outbox_publisher lib pg producer interval batchSize))
     = OutboxRepository_MarkFailed pg"
  "FetchPending (pub_repo (outbox_publisher lib pg producer interval batchSize))
     = OutboxRepository_FetchPending lib pg"
  by (simp_all add: outbox_publisher_def NewPublisher_def NewOutboxRepository_Queue_def Let_def)

lemma publish_events_keeps:
  assumes "\<And>ctx ev. keeps outside (Publish producer ctx ev)"
  shows "keeps outside (publish_events (outbox_publisher lib pg producer interval batchSize) ctx evs)"
proof (induction evs)
  case Nil
  show ?case by (simp add: keeps_def)
next
  case (Cons ev evs)
  let ?p = "outbox_publisher lib pg producer interval batchSize"
  have published: "keeps outside (try_cmd (OutboxRepository_MarkPublished pg ctx (o_ID ev)) Inl
      (publish_events ?p ctx evs))"
    and failed: "keeps outside (try_cmd (OutboxRepository_MarkFailed pg ctx (o_ID ev) err) h
      (publish_events ?p ctx evs))" for err h
    by (intro keeps_intros Cons.IH)+
  show ?case unfolding keeps_def
  proof
    fix w
    obtain r w1 where pub: "Publish producer ctx (o_Event ev) w = (r, w1)" by fastforce
    with keepsD [OF assms pub] published failed
    show "outside (snd (publish_events ?p ctx (ev # evs) w)) = outside w"
      by (cases r) (simp_all add: publisher_fields keeps_def)
  qed
qed

lemma tick_keeps:
  assumes "\<And>ctx ev. keeps outside (Publish producer ctx ev)"
  shows "outside (processAndLog (outbox_publisher lib pg producer interval batchSize) ctx w) = outside w"
proof -
  let ?p = "outbox_publisher lib pg producer interval batchSize"
  have "keeps outside (processBatch ?p ctx)" for ctx
    unfolding processBatch_def publisher_fields by (intro keeps_intros publish_events_keeps assms)
  then have "keeps outside (ProcessBatch ?p ctx)"
    by (simp add: ProcessBatch_def publisher_fields NewTransactionManager_def keeps_transaction
        transactions_outside)
  then show ?thesis by (simp add: processAndLog_def keeps_def)
qed

end

text \<open>
  One step of the system: a use case run for a request, a tick of the publisher, or a move of the
  environment.
\<close>

inductive system_step ::
    "uuid_lib \<Rightarrow> 'w driver \<Rightarrow> 'w runtime \<Rightarrow> 'w EventProducer \<Rightarrow> int \<Rightarrow> int \<Rightarrow> ('w \<Rightarrow> 'w \<Rightarrow> bool)
     \<Rightarrow> 'w \<Rightarrow> 'w \<Rightarrow> bool"
  for lib :: uuid_lib and pg :: "'w driver" and rt :: "'w runtime" and producer :: "'w EventProducer"
    and interval :: int and batchSize :: int and env :: "'w \<Rightarrow> 'w \<Rightarrow> bool" where
  create: "CreateCompany rt (postgres_service lib pg rt) Background input w = (r, w') \<Longrightarrow>
    system_step lib pg rt producer interval batchSize env w w'"
| patch: "PatchCompany rt (postgres_service lib pg rt) Background i pinput w = (r, w') \<Longrightarrow>
    system_step lib pg rt producer interval batchSize env w w'"
| delete: "DeleteCompany (postgres_service lib pg rt) Background i w = (r', w') \<Longrightarrow>
    system_step lib pg rt producer interval batchSize env w w'"
| get: "GetCompany (postgres_service lib pg rt) Background i w = (r, w') \<Longrightarrow>
    system_step lib pg rt producer interval batchSize env w w'"
| tick: "system_step lib pg rt producer interval batchSize env w
    (processAndLog (outbox_publisher lib pg producer interval batchSize) Background w)"
| environment: "env w w' \<Longrightarrow> system_step lib pg rt producer interval batchSize env w w'"

text \<open>
  The whole system: a service and a publisher on one database, a broker, a clock and an environment
  that may move the rest of the world but not the companies or the outbox, and that never takes
  back what the broker has accepted.
\<close>

locale running_system =
  publisher_database pg tables now sent lib message producer interval batchSize +
  kept_service pg tables now sent lib rt
  for pg :: "'w driver" and tables :: "executor \<Rightarrow> 'w \<Rightarrow> database option"
    and now :: "executor \<Rightarrow> 'w \<Rightarrow> time" and sent :: "'w \<Rightarrow> 'm list" and lib :: uuid_lib
    and message :: "event \<Rightarrow> 'm" and producer :: "'w EventProducer" and interval :: int and batchSize :: int
    and rt :: "'w runtime" +
  fixes env :: "'w \<Rightarrow> 'w \<Rightarrow> bool"
  assumes env_tables: "env w w' \<Longrightarrow> tables PoolExecutor w' = tables PoolExecutor w"
    and env_sent: "env w w' \<Longrightarrow> \<exists>more. sent w' = sent w @ more"
begin

text \<open>All or nothing keeps a state sound.\<close>

lemma all_or_nothing_sound:
  assumes "all_or_nothing (ledger_view lib tables) did refusals l r w'" and "sound message s l"
  shows "\<exists>l'. ledger_view lib tables Background w' = Some l' \<and> sound message s l'"
  using assms sound_recorded by (fastforce simp: all_or_nothing_def split: sum.splits)

lemma step_sound:
  assumes step: "system_step lib pg rt producer interval batchSize env w w'"
    and l: "ledger_view lib tables Background w = Some l" "sound message (sent w) l"
  shows "\<exists>l' more. ledger_view lib tables Background w' = Some l' \<and> sent w' = sent w @ more
    \<and> sound message (sent w') l'"
  using step
proof cases
  case (create input r)
  have sent: "sent w' = sent w" using use_cases_keep(1) create by (rule keepsD)
  from create_outcome [OF service_database_axioms l(1) create] obtain t where
    "case NewWithID t (i_ID input) (i_Name input) (i_Description input)
        (i_AmountOfEmployees input) (i_Registered input) (i_Type input) of
      Inl e \<Rightarrow> r = Inl (wrap ''create company'' e) \<and> ledger_view lib tables Background w' = Some l
    | Inr c \<Rightarrow> all_or_nothing (ledger_view lib tables) (\<lambda>d ch. d = c \<and> ch = Created c)
        (create_refusals l c) l r w'" by blast
  then show ?thesis
    using sent l(2) all_or_nothing_sound [OF _ l(2)] by (auto split: sum.splits)
next
  case (patch i pinput r)
  have sent: "sent w' = sent w" using use_cases_keep(2) patch by (rule keepsD)
  from all_or_nothing_sound [OF patch_outcome [OF service_database_axioms l(1) patch] l(2)]
  show ?thesis using sent by auto
next
  case (delete i r)
  have sent: "sent w' = sent w" using use_cases_keep(3) delete by (rule keepsD)
  from delete_outcome [OF service_database_axioms l(1) delete] obtain r0 where
    "all_or_nothing (ledger_view lib tables) (did_delete l i) (delete_refusals l i) l r0 w'" by blast
  from all_or_nothing_sound [OF this l(2)] show ?thesis using sent by auto
next
  case (get i r)
  have sent: "sent w' = sent w" using use_cases_keep(4) get by (rule keepsD)
  from get_outcome [OF service_database_axioms l(1) get] show ?thesis using sent l(2) by auto
next
  case tick
  let ?p = "outbox_publisher lib pg producer interval batchSize"
  obtain r w1 where run: "ProcessBatch ?p Background w = (r, w1)" by fastforce
  with tick have w': "w' = w1" by (simp add: processAndLog_def)
  from l(2) have ok: "ledger_ok l" "delivered message l (sent w)" "events_complete l"
    by (auto simp: sound_def)
  from publisher.ProcessBatch_outcome [OF l(1) ok(1,2) run] obtain t acc l' where
    out: "sent w1 = sent w @ acc" "ledger_view lib tables Background w1 = Some l'"
      "l' = l \<or> publisher.batch_done t l acc l'" "delivered message l' (sent w1)" by blast
  have "ledger_ok l' \<and> events_complete l'"
    using out(3) ok by (auto simp: publisher.batch_done_def ledger_ok_apply_marks events_complete_marks)
  with out w' show ?thesis by (auto simp: sound_def)
next
  case environment
  from env_sent [OF environment] obtain more where more: "sent w' = sent w @ more" by blast
  moreover have "ledger_view lib tables Background w' = Some l"
    using env_tables [OF environment] l(1) by (simp add: ledger_view_def)
  ultimately show ?thesis
    using l(2) by (auto simp: sound_def intro: delivered_more)
qed

lemma reachable_sound:
  assumes "rtranclp (system_step lib pg rt producer interval batchSize env) w0 w"
    and "ledger_view lib tables Background w0 = Some l0" and "sound message (sent w0) l0"
  shows "\<exists>l more. ledger_view lib tables Background w = Some l \<and> sent w = sent w0 @ more
    \<and> sound message (sent w) l"
  using assms(1)
proof induction
  case base
  with assms(2,3) show ?case by auto
next
  case (step w w')
  then obtain l more where l: "ledger_view lib tables Background w = Some l"
    "sent w = sent w0 @ more" "sound message (sent w) l" by blast
  from step_sound [OF step.hyps(2) l(1,3)] l(2) show ?case by fastforce
qed

end


subsection \<open>The reference world runs\<close>

text \<open>Between the calls clocks move, faults are scheduled and others use the broker.\<close>

definition world_moves :: "world \<Rightarrow> world \<Rightarrow> bool" where
  "world_moves w w' \<longleftrightarrow> committed w' = committed w \<and> (\<exists>more. broker w' = broker w @ more)"

interpretation reference_system: running_system reference_driver server_tables server_now broker
    canonical_uuids world_message world_producer interval batchSize world_runtime world_moves
  for interval batchSize :: int
proof
  show "server_tables x (snd (time_Now world_runtime w)) = server_tables x w"
    "server_tables x (snd (uuid_New world_runtime w)) = server_tables x w" for x and w :: world
    by (simp_all add: reference_world.time_leaves reference_world.uuid_leaves)
  show "keeps broker (time_Now world_runtime)" "keeps broker (uuid_New world_runtime)"
    by (simp_all add: keeps_def world_runtime_def)
  show "world_moves w w' \<Longrightarrow> server_tables PoolExecutor w' = server_tables PoolExecutor w"
    "world_moves w w' \<Longrightarrow> \<exists>more. broker w' = broker w @ more" for w w' :: world
    by (simp_all add: world_moves_def server_tables_def)
qed

lemmas reference_running = reference_system.running_system_axioms

subsection \<open>What holds in every reachable state\<close>

definition empty_database :: database where
  "empty_database = \<lparr>companies = [], outbox_events = []\<rparr>"

lemma empty_view:
  "uuid_lib_ok lib \<Longrightarrow> tables PoolExecutor w = Some empty_database \<Longrightarrow>
   ledger_view lib tables Background w = Some \<lparr>members = [], outbox = []\<rparr>"
  by (simp add: ledger_view_Some empty_database_def conc_def ledger_ok_def)

lemma reachable_from_empty:
  assumes sys: "running_system pg tables now sent lib message producer rt env"
    and empty: "tables PoolExecutor w0 = Some empty_database"
    and reach: "rtranclp (system_step lib pg rt producer interval batchSize env) w0 w"
  obtains l where "ledger_view lib tables Background w = Some l"
    and "tables PoolExecutor w = Some (conc lib l)" and "sound message (sent w) l"
proof -
  have lib: "uuid_lib_ok lib"
    using sys by (simp add: running_system_def kept_service_def service_database_def company_database_def
        company_database_axioms_def)
  from running_system.reachable_sound [OF sys reach empty_view [of lib tables w0, OF lib empty] sound_empty]
  obtain l where "ledger_view lib tables Background w = Some l" "sound message (sent w) l" by blast
  with that lib show ?thesis by (auto simp: ledger_view_Some)
qed

text \<open>A run of the reference world: a company is created and the publisher ticks.\<close>

definition created_world :: world where
  "created_world = snd (CreateCompany world_runtime world_service Background bolt_input empty_world)"

definition published_world :: world where
  "published_world =
     processAndLog (outbox_publisher canonical_uuids reference_driver world_producer 0 0) Background
       created_world"

lemma published_world_reachable:
  "rtranclp (system_step canonical_uuids reference_driver world_runtime world_producer 0 0 world_moves)
     empty_world published_world"
proof -
  let ?step = "system_step canonical_uuids reference_driver world_runtime world_producer 0 0 world_moves"
  have "?step empty_world created_world"
    unfolding created_world_def by (rule system_step.create) (rule prod.collapse [symmetric])
  moreover have "?step created_world published_world"
    unfolding published_world_def by (rule system_step.tick)
  ultimately show ?thesis by (meson converse_rtranclp_into_rtranclp rtranclp.rtrancl_refl)
qed

lemma empty_world_tables: "server_tables PoolExecutor empty_world = Some empty_database"
  by (simp add: server_tables_def empty_world_def empty_database_def)

lemmas published_world_premises = reference_running empty_world_tables published_world_reachable

text \<open>
  Whatever requests, ticks, faults and environment moves have happened since the
  database was empty, the companies table holds only valid companies, no two with the same id or
  the same name.
\<close>

theorem reachable_companies_valid:
  assumes "running_system pg tables now sent lib message producer rt env"
    and "tables PoolExecutor w0 = Some empty_database"
    and "rtranclp (system_step lib pg rt producer interval batchSize env) w0 w"
  shows "\<exists>db. tables PoolExecutor w = Some db
    \<and> (\<forall>r\<in>set (companies db). Validate (company_of_row r) = None)
    \<and> distinct (map (\<lambda>r. ID (company_of_row r)) (companies db))
    \<and> distinct (map (\<lambda>r. Name (company_of_row r)) (companies db))"
proof -
  from reachable_from_empty [OF assms] obtain l where
    "tables PoolExecutor w = Some (conc lib l)" "sound message (sent w) l" by blast
  then show ?thesis
    by (auto simp: sound_def ledger_ok_def company_ok_def conc_def comp_def)
qed

theorem reachable_companies_valid_witness:
  "\<exists>db. server_tables PoolExecutor published_world = Some db
    \<and> (\<forall>r\<in>set (companies db). Validate (company_of_row r) = None)
    \<and> distinct (map (\<lambda>r. ID (company_of_row r)) (companies db))
    \<and> distinct (map (\<lambda>r. Name (company_of_row r)) (companies db))"
  by (rule reachable_companies_valid [OF published_world_premises])

text \<open>
  In every reachable state the events in the outbox tell the whole story: a consumer
  that replays them in the order they were stored arrives at exactly the companies table.
\<close>

theorem reachable_events_replay:
  assumes "running_system pg tables now sent lib message producer rt env"
    and "tables PoolExecutor w0 = Some empty_database"
    and "rtranclp (system_step lib pg rt producer interval batchSize env) w0 w"
  shows "\<exists>l. ledger_view lib tables Background w = Some l
    \<and> (\<forall>i c. replay (events_of l) i = Some c \<longleftrightarrow> c \<in> set (members l) \<and> ID c = i)"
proof -
  from reachable_from_empty [OF assms] obtain l where
    "ledger_view lib tables Background w = Some l" "sound message (sent w) l" by blast
  then show ?thesis
    by (auto simp: sound_def events_complete_def company_table_Some)
qed

theorem reachable_events_replay_witness:
  "\<exists>l. ledger_view canonical_uuids server_tables Background published_world = Some l
    \<and> (\<forall>i c. replay (events_of l) i = Some c \<longleftrightarrow> c \<in> set (members l) \<and> ID c = i)"
  by (rule reachable_events_replay [OF published_world_premises])

text \<open>
  Delivery is at least once.  In every reachable state, an event whose row has a
  publication time has been accepted by the broker, and every other event is still in the outbox
  waiting for its turn.
\<close>

theorem reachable_at_least_once:
  assumes "running_system pg tables now sent lib message producer rt env"
    and "tables PoolExecutor w0 = Some empty_database"
    and "rtranclp (system_step lib pg rt producer interval batchSize env) w0 w"
  shows "\<exists>l. ledger_view lib tables Background w = Some l
    \<and> (\<forall>en\<in>set (outbox l). message (en_event en) \<in> set (sent w) \<or> due (en_available en) en)"
proof -
  from reachable_from_empty [OF assms] obtain l where
    "ledger_view lib tables Background w = Some l" "sound message (sent w) l" by blast
  then show ?thesis
    by (auto simp: sound_def delivered_def due_def)
qed


theorem reachable_at_least_once_witness:
  "\<exists>l. ledger_view canonical_uuids server_tables Background published_world = Some l
    \<and> (\<forall>en\<in>set (outbox l). world_message (en_event en) \<in> set (broker published_world) \<or> due (en_available en) en)"
  by (rule reachable_at_least_once [OF published_world_premises])


subsection \<open>One batch\<close>

context publisher_database
begin

lemma batch_outcome:
  assumes "ledger_view lib tables Background w = Some l" and "delivered message l (sent w)"
    and "ProcessBatch (outbox_publisher lib pg producer interval batchSize) Background w = (r, w')"
    and "leaves_at_most n producer sent"
  shows "\<exists>t acc l' marks. sent w' = sent w @ acc
      \<and> in_order n message (map en_event (pending t (unat (pub_batch
          (outbox_publisher lib pg producer interval batchSize))) l)) acc
      \<and> ledger_view lib tables Background w' = Some l' \<and> delivered message l' (sent w')
      \<and> map fst marks = map entry_id (pending t (unat (pub_batch
          (outbox_publisher lib pg producer interval batchSize))) l)
      \<and> (l' = apply_marks marks l \<or> r \<noteq> Inr () \<and> l' = l)
      \<and> (\<forall>i u. l' \<noteq> l \<and> (i, MarkedPublished u) \<in> set marks \<longrightarrow>
           (\<exists>en\<in>set (outbox l). entry_id en = i \<and> due t en \<and> message (en_event en) \<in> set acc))"
proof -
  have ok: "ledger_ok l" using assms(1) lib_ok by (simp add: ledger_view_Some)
  from publisher.ProcessBatch_outcome [OF assms(1) ok assms(2,3), where n = n] assms(4) obtain t acc l' where
    out: "sent w' = sent w @ acc" "in_order n message (map en_event (pending t (unat (pub_batch
          (outbox_publisher lib pg producer interval batchSize))) l)) acc"
      "ledger_view lib tables Background w' = Some l'" "delivered message l' (sent w')"
      "l' = l \<or> publisher.batch_done t l acc l'" "r = Inr () \<longrightarrow> publisher.batch_done t l acc l'"
    by blast
  show ?thesis
  proof (cases "publisher.batch_done t l acc l'")
    case True
    then obtain marks where ms: "map fst marks = map entry_id (pending t (unat (pub_batch
          (outbox_publisher lib pg producer interval batchSize))) l)" "l' = apply_marks marks l"
      "\<forall>i u. (i, MarkedPublished u) \<in> set marks \<longrightarrow> (\<exists>en\<in>set (pending t (unat (pub_batch
          (outbox_publisher lib pg producer interval batchSize))) l). entry_id en = i \<and> message (en_event en) \<in> set acc)"
      by (auto simp: publisher.batch_done_def)
    with out set_pending show ?thesis by (intro exI [of _ t] exI [of _ acc] exI [of _ l'] exI [of _ marks]) fast
  next
    case False
    with out have "r \<noteq> Inr ()" "l' = l" by auto
    with out show ?thesis
      by (intro exI [of _ t] exI [of _ acc] exI [of _ l'] exI [of _ "map (\<lambda>en. (entry_id en, MarkedPublished 0))
        (pending t (unat (pub_batch (outbox_publisher lib pg producer interval batchSize))) l)"])
        (simp add: comp_def)
  qed
qed

end


lemma acme_delivered [simp]: "delivered message acme_ledger s"
  by (simp add: delivered_def acme_ledger_def acme_entry_def)

lemma acme_complete [simp]: "events_complete acme_ledger"
  by (auto simp: events_complete_def acme_ledger_def acme_entry_def replay_def replay_event_def
      events_of_def company_table_def fun_eq_iff new_entry_def EventCompanyCreated_def
      EventCompanyDeleted_def stored_def acme_def micros_def)

lemma world_producer_once: "leaves_at_most 1 world_producer broker"
  unfolding leaves_at_most_def
proof (intro allI)
  fix ctx ev w
  show "length (broker (snd (Publish world_producer ctx ev w))) \<le> length (broker w) + 1"
    by (auto simp: world_producer_def kafka_event_producer_def NewKafkaProducer_def
        KafkaProducer_Publish_def world_writer_def world_write_def Let_def try_cmd_def
        split: sum.split prod.split option.split list.split fault.splits)
qed


end
