(* ===== verification/Startup.thy ===== *)
theory Startup
  imports AuthWorld System
begin

text \<open>
  The two programs (\<^verbatim>\<open>cmd/api/main.go\<close>, \<^verbatim>\<open>cmd/token/main.go\<close>) and the connection pool
  (\<^verbatim>\<open>internal/infrastructure/postgres/postgres.go\<close>): what is built from the environment, in which
  order, and what ends the program instead.
\<close>

subsection \<open>The connection pool\<close>

text \<open>The library's pool, its settings and its functions are parameters.\<close>

record 'w pool =
  pool_driver :: "'w driver"
  pool_Ping :: "ctx \<Rightarrow> ('w, goerr) cmd"
  pool_Close :: "'w \<Rightarrow> 'w"

record pool_config =
  ConnString :: string
  pc_MaxConns :: "32 word"
  pc_MinConns :: "32 word"
  pc_MaxConnLifetime :: int
  pc_MaxConnIdleTime :: int

record 'w pgxpool =
  ParseConfig :: "string \<Rightarrow> goerr + pool_config"
  ConnectConfig :: "ctx \<Rightarrow> pool_config \<Rightarrow> ('w, goerr, 'w pool) io"

definition NewPool :: "'w pgxpool \<Rightarrow> ctx \<Rightarrow> DatabaseConfig \<Rightarrow> ('w, goerr, 'w pool) io" where
  "NewPool pgx ctx cfg w0 =
     (case ParseConfig pgx (URL cfg) of
        Inl err \<Rightarrow> (Inl (wrap ''parse postgres config'' err), w0)
      | Inr poolConfig \<Rightarrow>
          (let poolConfig = poolConfig
             \<lparr>pc_MaxConns := MaxConns cfg, pc_MinConns := MinConns cfg,
              pc_MaxConnLifetime := MaxConnLifetime cfg, pc_MaxConnIdleTime := MaxConnIdleTime cfg\<rparr>
           in try_io (ConnectConfig pgx ctx poolConfig) (\<lambda>err. Inl (wrap ''connect to postgres'' err))
                (\<lambda>pool w.
                   (case pool_Ping pool ctx w of
                      (Some err, w) \<Rightarrow> (Inl (wrap ''ping postgres'' err), pool_Close pool w)
                    | (None, w) \<Rightarrow> (Inr pool, w))) w0))"

lemma NewPool_connects:
  assumes "NewPool pgx ctx cfg w = (Inr pool, w')"
  shows "\<exists>pc w1. ConnectConfig pgx ctx pc w = (Inr pool, w1) \<and> pool_Ping pool ctx w1 = (None, w')"
  using assms
  by (auto simp: NewPool_def Let_def elim!: try_ioE split: sum.splits prod.splits option.splits) blast

text \<open>
  The contract of the library: \<open>opened\<close> is the set of the open pools, by their handles.  Connecting
  opens a new pool or none, closing closes it, and closing it again changes nothing.
\<close>

locale pool_library =
  fixes pgx :: "'w pgxpool" and opened :: "'w \<Rightarrow> 'h set" and handle :: "'w pool \<Rightarrow> 'h"
  assumes connects: "ConnectConfig pgx ctx pc w = (r, w') \<Longrightarrow>
      (case r of
         Inl e \<Rightarrow> opened w' = opened w
       | Inr pool \<Rightarrow> handle pool \<notin> opened w \<and> opened w' = insert (handle pool) (opened w))"
    and pings: "ConnectConfig pgx ctx pc w = (Inr pool, w') \<Longrightarrow>
      opened (snd (pool_Ping pool ctx' v)) = opened v"
    and closes: "ConnectConfig pgx ctx pc w = (Inr pool, w') \<Longrightarrow>
      opened (pool_Close pool v) = opened v - {handle pool}"
begin

lemma NewPool_outcome:
  assumes "NewPool pgx ctx cfg w = (r, w')"
  shows "case r of
      Inl e \<Rightarrow> opened w' = opened w
    | Inr pool \<Rightarrow> handle pool \<notin> opened w \<and> opened w' = insert (handle pool) (opened w)
        \<and> (\<exists>v. pool_Ping pool ctx v = (None, w'))"
proof (cases "ParseConfig pgx (URL cfg)")
  case (Inl e)
  with assms show ?thesis by (auto simp: NewPool_def)
next
  case (Inr pc0)
  define pc where "pc = pc0\<lparr>pc_MaxConns := MaxConns cfg, pc_MinConns := MinConns cfg,
    pc_MaxConnLifetime := MaxConnLifetime cfg, pc_MaxConnIdleTime := MaxConnIdleTime cfg\<rparr>"
  obtain rc w1 where c: "ConnectConfig pgx ctx pc w = (rc, w1)" by fastforce
  show ?thesis
  proof (cases rc)
    case (Inl e)
    with Inr c assms connects [OF c] show ?thesis by (auto simp: NewPool_def pc_def [symmetric])
  next
    case pool: (Inr pool)
    obtain rp w2 where p: "pool_Ping pool ctx w1 = (rp, w2)" by fastforce
    with pings [OF c [unfolded pool], of ctx w1] have "opened w2 = opened w1" by simp
    with Inr c pool p assms connects [OF c] closes [OF c [unfolded pool], of w2] show ?thesis
      by (cases rp) (auto simp: NewPool_def pc_def [symmetric])
  qed
qed

lemma NewPool_closes:
  assumes "NewPool pgx ctx cfg w = (Inr pool, w')"
  shows "opened (pool_Close pool v) = opened v - {handle pool}"
  using NewPool_connects [OF assms] closes by blast

end

subsection \<open>The token tool (\<^verbatim>\<open>cmd/token/main.go\<close>)\<close>

text \<open>\<^verbatim>\<open>logger.Fatal()\<close> logs a message, with the error if there is one, and ends the program.\<close>

datatype fatal = Fatal string "goerr option"

definition token_main :: "'w jwt_lib \<Rightarrow> 'w runtime \<Rightarrow> environment \<Rightarrow> ('w, fatal, string) io" where
  "token_main jwt rt env w =
     (let secret = env ''JWT_SECRET'' in
      if secret = '''' then (Inl (Fatal ''JWT_SECRET is required'' None), w)
      else
        (let subject = (if env ''JWT_SUBJECT'' = '''' then ''local-user'' else env ''JWT_SUBJECT'') in
         try_io (JWTManager_Generate jwt rt (NewJWTManager secret) subject Hour)
           (\<lambda>err. Inl (Fatal ''failed to generate JWT token'' (Some err))) (\<lambda>token w. (Inr token, w)) w))"

subsection \<open>The service (\<^verbatim>\<open>cmd/api/main.go\<close>)\<close>

text \<open>What main has built when it starts to serve.\<close>

record 'w app =
  app_Handler :: "'w handler"
  app_Server :: HTTPConfig
  app_publisher :: "'w Publisher"
  app_producer :: "'w EventProducer"
  app_pool :: "'w pool"

definition api_start ::
    "(nat \<Rightarrow> nat \<Rightarrow> nat \<Rightarrow> nat) \<Rightarrow> 'w pgxpool \<Rightarrow> 'w logger \<Rightarrow> (writer_settings \<Rightarrow> 'w kafkaWriter)
     \<Rightarrow> 'w jwt_lib \<Rightarrow> 'w mux \<Rightarrow> 'w handler \<Rightarrow> uuid_lib \<Rightarrow> 'w runtime \<Rightarrow> environment
     \<Rightarrow> ('w, fatal, 'w app) io" where
  "api_start fl pgx logger new_writer jwt chi swagger lib rt env w =
     (case Load fl env of
        Inl err \<Rightarrow> (Inl (Fatal ''failed to load config'' (Some err)), w)
      | Inr cfg \<Rightarrow>
          try_io (NewPool pgx Background (Database cfg))
            (\<lambda>err. Inl (Fatal ''failed to connect to database'' (Some err)))
            (\<lambda>dbPool w.
               (case NewProducer lib logger new_writer (Events cfg) of
                  Inl err \<Rightarrow> (Inl (Fatal ''failed to configure event producer'' (Some err)), w)
                | Inr eventProducer \<Rightarrow>
                    (let service = postgres_service lib (pool_driver dbPool) rt;
                         jwtManager = NewJWTManager (JWTSecret (Auth cfg));
                         outboxPublisher = outbox_publisher lib (pool_driver dbPool) eventProducer
                           (OutboxPollInterval (Events cfg)) (OutboxBatchSize (Events cfg))
                     in (Inr
                          \<lparr>app_Handler = NewRouter chi lib rt swagger service
                             (jwt_validator jwt jwtManager) \<lparr>Ping = pool_Ping dbPool\<rparr>,
                           app_Server = HTTP cfg, app_publisher = outboxPublisher,
                           app_producer = eventProducer, app_pool = dbPool\<rparr>, w)))) w)"

subsection \<open>From the start to the end\<close>

text \<open>
  What happens while main waits: the server's goroutines handle requests, the publisher's goroutine
  (\<^verbatim>\<open>Run\<close>) processes a batch at its start and on every tick, and the world around the program
  moves.  They happen one after the other here; the theories from Races on are about their
  interleavings.
\<close>

datatype 'w happening = Served request | Polled | Elsewhere "'w \<Rightarrow> 'w"

fun happen :: "'w app \<Rightarrow> 'w happening \<Rightarrow> 'w \<Rightarrow> 'w" where
  "happen app (Served r) w = snd (app_Handler app r fresh_writer w)"
| "happen app Polled w = processAndLog (app_publisher app) Background w"
| "happen app (Elsewhere f) w = f w"

definition happens :: "'w app \<Rightarrow> 'w happening list \<Rightarrow> 'w \<Rightarrow> 'w" where
  "happens app hs w = fold (happen app) hs w"

text \<open>
  One life of the program: what happens until it is told to stop, by a signal or because the server
  failed, and during the shutdown.  Main waits neither for the publisher nor, when the time for the
  shutdown is over, for the requests, so anything may still happen between its calls.
\<close>

record 'w life =
  while_serving :: "'w happening list"
  after_shutdown :: "'w happening list"
  after_producer_close :: "'w happening list"
  after_pool_close :: "'w happening list"

text \<open>
  The shutdown: the server, the producer, the pool, and the pool again when the deferred calls run;
  errors are logged only.
\<close>

definition api_stop :: "(int \<Rightarrow> ('w, goerr) cmd) \<Rightarrow> 'w app \<Rightarrow> 'w life \<Rightarrow> 'w \<Rightarrow> 'w" where
  "api_stop server_Shutdown app life w =
     (case server_Shutdown (ShutdownTimeout (app_Server app)) w of
        (_, w) \<Rightarrow>
          (case Close (app_producer app) Background (happens app (after_shutdown life) w) of
             (_, w) \<Rightarrow>
               (let w = pool_Close (app_pool app) (happens app (after_producer_close life) w);
                    w = happens app (after_pool_close life) w
                in pool_Close (app_pool app) w)))"

definition api_main ::
    "(nat \<Rightarrow> nat \<Rightarrow> nat \<Rightarrow> nat) \<Rightarrow> 'w pgxpool \<Rightarrow> 'w logger \<Rightarrow> (writer_settings \<Rightarrow> 'w kafkaWriter)
     \<Rightarrow> 'w jwt_lib \<Rightarrow> 'w mux \<Rightarrow> 'w handler \<Rightarrow> (int \<Rightarrow> ('w, goerr) cmd) \<Rightarrow> uuid_lib \<Rightarrow> 'w runtime
     \<Rightarrow> environment \<Rightarrow> 'w life \<Rightarrow> ('w, fatal, unit) io" where
  "api_main fl pgx logger new_writer jwt chi swagger server_Shutdown lib rt env life w =
     (case api_start fl pgx logger new_writer jwt chi swagger lib rt env w of
        (Inl fatal, w) \<Rightarrow> (Inl fatal, w)
      | (Inr app, w) \<Rightarrow>
          (Inr (), api_stop server_Shutdown app life (happens app (while_serving life) w)))"

end
