(* ===== verification/Program.thy ===== *)
theory Program
  imports Startup
begin

text \<open>
  The running service: requests to its router and ticks of its publisher, in any order, and what
  holds of the data whatever happens.  Every step of the program is a few steps of the system of
  the theory System, so the invariants proved there are invariants of the program.
\<close>

subsection \<open>Steps of the program\<close>

inductive app_step :: "'w app \<Rightarrow> ('w \<Rightarrow> 'w \<Rightarrow> bool) \<Rightarrow> 'w \<Rightarrow> 'w \<Rightarrow> bool"
  for app :: "'w app" and env :: "'w \<Rightarrow> 'w \<Rightarrow> bool" where
  request: "app_Handler app r fresh_writer w = (wr', w') \<Longrightarrow> app_step app env w w'"
| tick: "app_step app env w (processAndLog (app_publisher app) Background w)"
| moves: "env w w' \<Longrightarrow> app_step app env w w'"

subsection \<open>A request is at most one use case\<close>

lemma create_request:
  "Handler_CreateCompany lib rt s r wr w = (wr', w') \<Longrightarrow>
     w' = w \<or> (\<exists>input rc. CreateCompany rt s Background input w = (rc, w'))"
  by (auto simp: Handler_CreateCompany_def split: sum.splits prod.splits)

lemma patch_request:
  "Handler_PatchCompany lib rt s r wr w = (wr', w') \<Longrightarrow>
     w' = w \<or> (\<exists>i input rc. PatchCompany rt s Background i input w = (rc, w'))"
  by (auto simp: Handler_PatchCompany_def split: sum.splits prod.splits option.splits)

lemma delete_request:
  "Handler_DeleteCompany lib s r wr w = (wr', w') \<Longrightarrow>
     w' = w \<or> (\<exists>i rc. DeleteCompany s Background i w = (rc, w'))"
  by (auto simp: Handler_DeleteCompany_def split: option.splits prod.splits)

lemma get_request:
  "Handler_GetCompany lib s r wr w = (wr', w') \<Longrightarrow>
     w' = w \<or> (\<exists>i rc. GetCompany s Background i w = (rc, w'))"
  by (auto simp: Handler_GetCompany_def split: sum.splits option.splits prod.splits)

text \<open>
  What surrounds the program: database, sinks, clock, UUIDs, token library, router, documentation
  handler and the pool's ping; \<open>env\<close> is what the world may do between and during the calls.
\<close>

locale deployment =
  configured_publisher pg tables now sent lib new_writer logger +
  kept_service pg tables now sent lib rt
  for pg :: "'w driver" and tables :: "executor \<Rightarrow> 'w \<Rightarrow> database option"
    and now :: "executor \<Rightarrow> 'w \<Rightarrow> time" and sent :: "'w \<Rightarrow> published list" and lib :: uuid_lib
    and new_writer :: "writer_settings \<Rightarrow> 'w kafkaWriter" and logger :: "'w logger"
    and rt :: "'w runtime" +
  fixes env :: "'w \<Rightarrow> 'w \<Rightarrow> bool" and jwt :: "'w jwt_lib" and chi :: "'w mux"
    and matches_path :: "string \<Rightarrow> string \<Rightarrow> (string \<times> string) list option"
    and swagger :: "'w handler" and ping :: "ctx \<Rightarrow> ('w, goerr) cmd"
  assumes env_tables: "env w w' \<Longrightarrow> tables PoolExecutor w' = tables PoolExecutor w"
    and env_sent: "env w w' \<Longrightarrow> \<exists>more. sent w' = sent w @ more"
    and mux: "mux_ok matches_path chi"
    and env_jwt: "env w (snd (ParseWithClaims jwt s kf w))"
    and env_swagger: "env w (snd (swagger r wr w))"
    and env_ping: "env w (snd (ping ctx w))"
begin

lemma configured_system:
  assumes "NewProducer lib logger new_writer cfg = Inr producer"
  shows "running_system pg tables now sent lib (published_as lib cfg) producer rt env"
  using configured [OF assms] kept_service_axioms env_tables env_sent
  by (intro running_system.intro running_system_axioms.intro) auto

lemma validator_moves: "env w (snd (tv_Validate (jwt_validator jwt m) token w))"
proof -
  obtain rp w1 where "ParseWithClaims jwt token (keyfunc m) w = (rp, w1)" by fastforce
  with env_jwt [of w token "keyfunc m"] show ?thesis
    by (cases rp) (simp_all add: jwt_validator_def JWTManager_Validate_def)
qed

text \<open>A handler behind the middleware: the validator, then the handler.\<close>

lemma guarded_steps:
  assumes run: "AuthMiddleware (jwt_validator jwt m) h r fresh_writer w = (wr', w')"
    and inner: "\<And>w1. h r fresh_writer w1 = (wr', w') \<Longrightarrow>
      rtranclp (system_step lib pg rt producer interval batchSize env) w1 w'"
  shows "rtranclp (system_step lib pg rt producer interval batchSize env) w w'"
proof -
  let ?token = "bearerToken (r_Authorization r)"
  obtain rv w1 where val: "tv_Validate (jwt_validator jwt m) ?token w = (rv, w1)" by fastforce
  with validator_moves [of w m ?token] have
    step: "system_step lib pg rt producer interval batchSize env w w1"
    by (auto intro: system_step.environment)
  from AuthMiddleware_cases [OF run] val consider "h r fresh_writer w1 = (wr', w')" | "w' = w" | "w' = w1"
    by auto
  then show ?thesis
    using step inner by cases (auto intro: converse_rtranclp_into_rtranclp)
qed

lemma request_steps:
  assumes run: "NewRouter chi lib rt swagger (postgres_service lib pg rt) (jwt_validator jwt m)
      \<lparr>Ping = ping\<rparr> r fresh_writer w = (wr', w')"
  shows "rtranclp (system_step lib pg rt producer interval batchSize env) w w'"
  using mux run
proof (cases rule: NewRouter_cases)
  case (routed route params)
  let ?s = "postgres_service lib pg rt" and ?r = "r\<lparr>r_Params := params\<rparr>"
  note one = r_into_rtranclp [where r = "system_step lib pg rt producer interval batchSize env"]
  have create: "rtranclp (system_step lib pg rt producer interval batchSize env) w1 w'"
    if "Handler_CreateCompany lib rt ?s ?r fresh_writer w1 = (wr', w')" for w1
    using create_request [OF that] by (auto intro: one system_step.create)
  have patch: "rtranclp (system_step lib pg rt producer interval batchSize env) w1 w'"
    if "Handler_PatchCompany lib rt ?s ?r fresh_writer w1 = (wr', w')" for w1
    using patch_request [OF that] by (auto intro: one system_step.patch)
  have delete: "rtranclp (system_step lib pg rt producer interval batchSize env) w1 w'"
    if "Handler_DeleteCompany lib ?s ?r fresh_writer w1 = (wr', w')" for w1
    using delete_request [OF that] by (auto intro: one system_step.delete)
  from routed(1) consider "rt_Handler route = swagger" | "rt_Handler route = healthz"
    | "rt_Handler route = readyz \<lparr>Ping = ping\<rparr>" | "rt_Handler route = Handler_GetCompany lib ?s"
    | "rt_Handler route = AuthMiddleware (jwt_validator jwt m) (Handler_CreateCompany lib rt ?s)"
    | "rt_Handler route = AuthMiddleware (jwt_validator jwt m) (Handler_PatchCompany lib rt ?s)"
    | "rt_Handler route = AuthMiddleware (jwt_validator jwt m) (Handler_DeleteCompany lib ?s)"
    by (auto simp: router_routes_def)
  then show ?thesis
  proof cases
    case 1
    with routed(3) env_swagger [of w ?r fresh_writer] show ?thesis
      by (auto intro: one system_step.environment)
  next
    case 2
    with routed(3) show ?thesis by (simp add: healthz_def)
  next
    case 3
    obtain rp w1 where p: "ping Background w = (rp, w1)" by fastforce
    with 3 routed(3) have "w' = w1" by (auto simp: readyz_def split: option.splits)
    with env_ping [of w Background] p show ?thesis by (auto intro: one system_step.environment)
  next
    case 4
    with routed(3) get_request show ?thesis by (fastforce intro: one system_step.get)
  next
    case 5
    with routed(3) show ?thesis by (intro guarded_steps [OF _ create]) simp_all
  next
    case 6
    with routed(3) show ?thesis by (intro guarded_steps [OF _ patch]) simp_all
  next
    case 7
    with routed(3) show ?thesis by (intro guarded_steps [OF _ delete]) simp_all
  qed
qed simp

end

subsection \<open>What main has started\<close>

text \<open>The parts of a started service, as main puts them together.\<close>

lemma api_start_Inr:
  assumes "api_start fl pgx logger new_writer jwt chi swagger lib rt environment w0 = (Inr app, w1)"
  obtains cfg producer where "Load fl environment = Inr cfg"
    and "NewPool pgx Background (Database cfg) w0 = (Inr (app_pool app), w1)"
    and "NewProducer lib logger new_writer (Events cfg) = Inr producer"
    and "app_Handler app = NewRouter chi lib rt swagger
      (postgres_service lib (pool_driver (app_pool app)) rt)
      (jwt_validator jwt (NewJWTManager (JWTSecret (Auth cfg)))) \<lparr>Ping = pool_Ping (app_pool app)\<rparr>"
    and "app_publisher app = outbox_publisher lib (pool_driver (app_pool app)) producer
      (OutboxPollInterval (Events cfg)) (OutboxBatchSize (Events cfg))"
    and "app_producer app = producer"
  using assms
  by (auto simp: api_start_def Let_def split: sum.splits elim!: try_ioE)


context deployment
begin

lemma app_steps:
  assumes start: "api_start fl pgx logger new_writer jwt chi swagger lib rt environment w0 = (Inr app, w1)"
    and parts: "pool_driver (app_pool app) = pg" "pool_Ping (app_pool app) = ping"
      "Load fl environment = Inr cfg"
    and step: "app_step app env w w'"
  shows "\<exists>producer. NewProducer lib logger new_writer (Events cfg) = Inr producer
    \<and> rtranclp (system_step lib pg rt producer (OutboxPollInterval (Events cfg))
        (OutboxBatchSize (Events cfg)) env) w w'"
proof -
  from api_start_Inr [OF start] parts obtain producer where
    p: "NewProducer lib logger new_writer (Events cfg) = Inr producer"
    and h: "app_Handler app = NewRouter chi lib rt swagger (postgres_service lib pg rt)
      (jwt_validator jwt (NewJWTManager (JWTSecret (Auth cfg)))) \<lparr>Ping = ping\<rparr>"
    and pub: "app_publisher app = outbox_publisher lib pg producer
      (OutboxPollInterval (Events cfg)) (OutboxBatchSize (Events cfg))"
    by (metis sum.inject(2))
  let ?steps = "rtranclp (system_step lib pg rt producer (OutboxPollInterval (Events cfg))
    (OutboxBatchSize (Events cfg)) env)"
  from step have "?steps w w'"
  proof cases
    case (request r wr')
    with h request_steps show ?thesis by metis
  next
    case tick
    with pub show ?thesis by (auto intro: system_step.tick)
  next
    case moves
    then show ?thesis by (auto intro: system_step.environment)
  qed
  with p show ?thesis by blast
qed

end

lemma app_reachable_sound:
  assumes dep: "deployment pg tables now sent lib new_writer logger rt env jwt chi matches_path swagger ping"
    and start: "api_start fl pgx logger new_writer jwt chi swagger lib rt environment w0 = (Inr app, w1)"
    and parts: "pool_driver (app_pool app) = pg" "pool_Ping (app_pool app) = ping"
      "Load fl environment = Inr cfg"
    and empty: "tables PoolExecutor w1 = Some empty_database"
    and reach: "rtranclp (app_step app env) w1 w"
  obtains l where "ledger_view lib tables Background w = Some l"
    and "sound (published_as lib (Events cfg)) (sent w) l"
proof -
  from api_start_Inr [OF start] parts(3) obtain producer where
    p: "NewProducer lib logger new_writer (Events cfg) = Inr producer" by (metis sum.inject(2))
  let ?step = "system_step lib pg rt producer (OutboxPollInterval (Events cfg))
    (OutboxBatchSize (Events cfg)) env"
  have "rtranclp ?step u v" if "app_step app env u v" for u v
    using deployment.app_steps [OF dep start parts that] p by auto
  with reach have "rtranclp ?step w1 w"
    by (induction rule: rtranclp_induct) (auto intro: rtranclp_trans)
  from reachable_from_empty [OF deployment.configured_system [OF dep p] empty this] that show thesis
    by blast
qed

subsection \<open>Properties of the program\<close>

text \<open>
  Property C2: every step of the started program, a request of any kind, a tick of the publisher or
  a move of the world around it, is a run of steps of the system: use cases, batches of the
  configured publisher, and moves of the world.
\<close>

theorem program_refines_system:
  assumes "deployment pg tables now sent lib new_writer logger rt env jwt chi matches_path swagger ping"
    and "api_start fl pgx logger new_writer jwt chi swagger lib rt environment w0 = (Inr app, w1)"
    and "pool_driver (app_pool app) = pg" and "pool_Ping (app_pool app) = ping"
    and "Load fl environment = Inr cfg"
    and "app_step app env w w'"
  shows "\<exists>producer. NewProducer lib logger new_writer (Events cfg) = Inr producer
    \<and> rtranclp (system_step lib pg rt producer (OutboxPollInterval (Events cfg))
        (OutboxBatchSize (Events cfg)) env) w w'"
  using deployment.app_steps [OF assms] .

text \<open>
  Property C1: whatever requests and ticks the started program has seen since its database was
  empty, and whatever has failed, its companies are valid and have different ids and names; the
  events of its outbox replay to exactly its companies; and each of its events has been written to
  the configured topic or log, as the message of the event, or is still waiting for its turn.
\<close>

theorem program_invariants:
  assumes "deployment pg tables now sent lib new_writer logger rt env jwt chi matches_path swagger ping"
    and "api_start fl pgx logger new_writer jwt chi swagger lib rt environment w0 = (Inr app, w1)"
    and "pool_driver (app_pool app) = pg" and "pool_Ping (app_pool app) = ping"
    and "Load fl environment = Inr cfg"
    and "tables PoolExecutor w1 = Some empty_database"
    and "rtranclp (app_step app env) w1 w"
  shows "\<exists>l. ledger_view lib tables Background w = Some l
    \<and> (\<forall>c\<in>set (members l). Validate c = None)
    \<and> distinct (map ID (members l)) \<and> distinct (map Name (members l))
    \<and> (\<forall>i c. replay (events_of l) i = Some c \<longleftrightarrow> c \<in> set (members l) \<and> ID c = i)
    \<and> (\<forall>en\<in>set (outbox l). published_as lib (Events cfg) (en_event en) \<in> set (sent w)
         \<or> due (en_available en) en)"
proof -
  from app_reachable_sound [OF assms] obtain l where
    "ledger_view lib tables Background w = Some l"
    "sound (published_as lib (Events cfg)) (sent w) l" by blast
  then show ?thesis
    by (auto simp: sound_def ledger_ok_def company_ok_def events_complete_def company_table_Some
        delivered_def due_def)
qed

subsection \<open>The program in the reference world\<close>

definition sample_pool :: "world pool" where
  "sample_pool = \<lparr>pool_driver = reference_driver, pool_Ping = (\<lambda>ctx w. (None, w)),
     pool_Close = (\<lambda>w. w\<lparr>open_pools := 0\<rparr>)\<rparr>"

definition sample_pgx :: "world pgxpool" where
  "sample_pgx = \<lparr>ParseConfig = (\<lambda>s. Inr \<lparr>ConnString = s, pc_MaxConns = 0, pc_MinConns = 0,
       pc_MaxConnLifetime = 0, pc_MaxConnIdleTime = 0\<rparr>),
     ConnectConfig = (\<lambda>ctx pc w.
       if open_pools w = 0 then (Inr sample_pool, w\<lparr>open_pools := 1\<rparr>)
       else (Inl (OtherError ''too many connections''), w))\<rparr>"

definition sample_opened :: "world \<Rightarrow> unit set" where
  "sample_opened w = (if open_pools w = 0 then {} else {()})"

definition sample_environment :: environment where
  "sample_environment = (\<lambda>_. '''')(''DATABASE_URL'' := ''postgres:'', ''JWT_SECRET'' := ''k'')"

definition start_world :: world where
  "start_world = empty_world\<lparr>open_pools := 1\<rparr>"

interpretation sample_pool: pool_library sample_pgx sample_opened "\<lambda>_. ()"
  by unfold_locales (auto simp: sample_pgx_def sample_pool_def sample_opened_def split: if_splits)

interpretation sample_deployment: deployment reference_driver server_tables server_now broker
    canonical_uuids world_writer world_logger world_runtime world_moves sample_jwt first_match match_path
    healthz "\<lambda>ctx w. (None, w)"
proof unfold_locales
  show "world_moves w w' \<Longrightarrow> server_tables PoolExecutor w' = server_tables PoolExecutor w"
    "world_moves w w' \<Longrightarrow> \<exists>more. broker w' = broker w @ more" for w w' :: world
    by (simp_all add: world_moves_def server_tables_def)
  show "world_moves w (snd (ParseWithClaims sample_jwt s kf w))" for w s kf
    by (simp add: world_moves_def sample_jwt_def sample_parse_def Let_def)
  show "world_moves w (snd (healthz r wr w))" "world_moves w (snd (None, w))" for r wr w
    by (simp_all add: world_moves_def healthz_def)
qed (rule first_match_ok)

lemma sample_config:
  obtains cfg where "Load (\<lambda>f u s. 0) sample_environment = Inr cfg"
    and "Producer (Events cfg) = ''log''"
  by (simp add: Load_def sample_environment_def getEnv_def Let_def)

lemma sample_log_producer:
  assumes "Producer cfg = ''log''"
  shows "NewProducer lib logger new_writer cfg = Inr (NewLogProducer lib logger)"
proof -
  have "TrimSpace ''log'' = ''log''"
    by (rule TrimSpace_id)
      (simp_all add: starts_with_space_def ends_with_space_def decodeLastRune_def IsSpace_def byte_def)
  moreover have "ToLower ''log'' = ''log''" by (simp add: byte_def)
  ultimately show ?thesis by (simp add: NewProducer_def assms ProducerLog_def Let_def)
qed

lemma sample_start:
  obtains app cfg where "api_start (\<lambda>f u s. 0) sample_pgx world_logger world_writer sample_jwt first_match
      healthz canonical_uuids world_runtime sample_environment empty_world = (Inr app, start_world)"
    and "pool_driver (app_pool app) = reference_driver"
    and "pool_Ping (app_pool app) = (\<lambda>ctx w. (None, w))"
    and "Load (\<lambda>f u s. 0) sample_environment = Inr cfg"
proof -
  obtain cfg where cfg: "Load (\<lambda>f u s. 0) sample_environment = Inr cfg" "Producer (Events cfg) = ''log''"
    by (rule sample_config)
  have "NewPool sample_pgx Background (Database cfg) empty_world = (Inr sample_pool, start_world)"
    by (simp add: NewPool_def sample_pgx_def sample_pool_def start_world_def empty_world_def Let_def)
  with cfg(1) sample_log_producer [OF cfg(2), of canonical_uuids world_logger world_writer]
  obtain app where start: "api_start (\<lambda>f u s. 0) sample_pgx world_logger world_writer sample_jwt first_match
      healthz canonical_uuids world_runtime sample_environment empty_world = (Inr app, start_world)"
    and pool: "app_pool app = sample_pool"
    by (simp add: api_start_def Let_def)
  show thesis by (rule that [OF start _ _ cfg(1)]) (simp_all add: pool sample_pool_def)
qed

lemmas sample_deployed = sample_deployment.deployment_axioms

lemma start_world_empty: "server_tables PoolExecutor start_world = Some empty_database"
  by (simp add: start_world_def empty_world_tables)

theorem program_refines_system_witness:
  "\<exists>app producer. app_step app world_moves start_world (processAndLog (app_publisher app) Background start_world)
    \<and> rtranclp (system_step canonical_uuids reference_driver world_runtime producer (2 * Second) 10
        world_moves) start_world (processAndLog (app_publisher app) Background start_world)"
proof -
  obtain app cfg where start: "api_start (\<lambda>f u s. 0) sample_pgx world_logger world_writer sample_jwt
      first_match healthz canonical_uuids world_runtime sample_environment empty_world
      = (Inr app, start_world)"
    "pool_driver (app_pool app) = reference_driver" "pool_Ping (app_pool app) = (\<lambda>ctx w. (None, w))"
    "Load (\<lambda>f u s. 0) sample_environment = Inr cfg"
    by (rule sample_start)
  have "OutboxPollInterval (Events cfg) = 2 * Second" "OutboxBatchSize (Events cfg) = 10"
    using start(4) by (auto simp: Load_def sample_environment_def getDuration_def getInt_def Let_def)
  moreover have step: "app_step app world_moves start_world
      (processAndLog (app_publisher app) Background start_world)"
    by (rule app_step.tick)
  ultimately show ?thesis
    using program_refines_system [OF sample_deployed start step] by auto
qed

theorem program_invariants_witness:
  "\<exists>app (cfg :: Config). rtranclp (app_step app world_moves) start_world
      (processAndLog (app_publisher app) Background start_world)
    \<and> (\<exists>l. ledger_view canonical_uuids server_tables Background
          (processAndLog (app_publisher app) Background start_world) = Some l
        \<and> (\<forall>en\<in>set (outbox l). published_as canonical_uuids (Events cfg) (en_event en)
              \<in> set (broker (processAndLog (app_publisher app) Background start_world))
            \<or> due (en_available en) en))"
proof -
  obtain app cfg where start: "api_start (\<lambda>f u s. 0) sample_pgx world_logger world_writer sample_jwt
      first_match healthz canonical_uuids world_runtime sample_environment empty_world
      = (Inr app, start_world)"
    "pool_driver (app_pool app) = reference_driver" "pool_Ping (app_pool app) = (\<lambda>ctx w. (None, w))"
    "Load (\<lambda>f u s. 0) sample_environment = Inr cfg"
    by (rule sample_start)
  have "rtranclp (app_step app world_moves) start_world
      (processAndLog (app_publisher app) Background start_world)"
    by (rule r_into_rtranclp) (rule app_step.tick)
  moreover from program_invariants [OF sample_deployed start start_world_empty this]
  have "\<exists>l. ledger_view canonical_uuids server_tables Background
          (processAndLog (app_publisher app) Background start_world) = Some l
        \<and> (\<forall>en\<in>set (outbox l). published_as canonical_uuids (Events cfg) (en_event en)
              \<in> set (broker (processAndLog (app_publisher app) Background start_world))
            \<or> due (en_available en) en)" by blast
  ultimately show ?thesis by blast
qed

text \<open>
  Connecting to the database leaks nothing: without a pool to return, the pools open
  are those that were open before, also when the database could be connected to but does not answer;
  with one, it is a new one, the only one more, and it has answered.
\<close>

theorem NewPool_leaks_nothing:
  assumes "pool_library pgx opened handle" and "NewPool pgx ctx cfg w = (r, w')"
  shows "case r of
      Inl e \<Rightarrow> opened w' = opened w
    | Inr pool \<Rightarrow> handle pool \<notin> opened w \<and> opened w' = insert (handle pool) (opened w)
        \<and> (\<exists>v. pool_Ping pool ctx v = (None, w'))"
  using pool_library.NewPool_outcome [OF assms] .

theorem NewPool_leaks_nothing_witness:
  "\<exists>cfg w'. NewPool sample_pgx Background cfg empty_world = (Inr sample_pool, w')
    \<and> sample_opened empty_world = {} \<and> sample_opened w' = {()}"
proof -
  obtain cfg where "Load (\<lambda>f u s. 0) sample_environment = Inr cfg" by (rule sample_config)
  have run: "NewPool sample_pgx Background (Database cfg) empty_world = (Inr sample_pool, start_world)"
    by (simp add: NewPool_def sample_pgx_def sample_pool_def start_world_def empty_world_def Let_def)
  moreover have "sample_opened empty_world = {}" by (simp add: sample_opened_def empty_world_def)
  ultimately show ?thesis
    using NewPool_leaks_nothing [OF sample_pool.pool_library_axioms run] by auto
qed

text \<open>
  Property C28: with the environment of the service, the token tool prints a token that the service
  accepts for an hour, cut to the second; it names the subject of the environment, or the default.
\<close>

theorem token_tool_opens_service:
  assumes "jwt_library jwt clock verify" and "Load fl environment = Inr cfg"
    and "time_Now rt w = (t1, wa)" and "time_Now rt wa = (t2, w1)"
    and "ValidString (environment ''JWT_SUBJECT'')"
    and "0 \<le> t1" and "t1 < 2 ^ 52 * 1000000000" and "0 \<le> t2" and "t2 < 2 ^ 52 * 1000000000"
  shows "\<exists>s. token_main jwt rt environment w = (Inr s, w1)
    \<and> (\<forall>w2. t2 \<le> clock w2 \<and> clock w2 < t1 + Hour - (t1 + Hour) mod 1000000000 \<longrightarrow>
         (\<exists>claims w3. tv_Validate (jwt_validator jwt (NewJWTManager (JWTSecret (Auth cfg)))) s w2
              = (Inr claims, w3)
            \<and> Subject claims = getEnv environment ''JWT_SUBJECT'' ''local-user''))"
proof -
  let ?key = "environment ''JWT_SECRET''" and ?subject = "getEnv environment ''JWT_SUBJECT'' ''local-user''"
  from assms(2) have key: "?key \<noteq> ''''" "JWTSecret (Auth cfg) = ?key"
    by (auto simp: Load_def Let_def split: if_splits)
  have "ValidString ''local-user''" by (rule ValidString_ascii) (simp add: byte_def)
  with assms(5) have subject: "ValidString ?subject" by (simp add: getEnv_def Let_def)
  obtain s where "JWTManager_Generate jwt rt (NewJWTManager ?key) ?subject Hour w = (Inr s, w1)"
    using jwt_library.Generate_signs [OF assms(1,3,4) subject] by blast
  moreover from this have "token_main jwt rt environment w = (Inr s, w1)"
    using key by (simp add: token_main_def getEnv_def Let_def split: if_splits)
  moreover have "0 \<le> t1 + Hour" "t1 + Hour < 2 ^ 53 * 1000000000" "t2 < 2 ^ 53 * 1000000000"
    using assms(6-9) by (simp_all add: duration_units)
  ultimately show ?thesis
    using jwt_library.Validate_Generated [OF assms(1) _ assms(3,4) subject assms(8)] key
    by (fastforce simp: jwt_validator_def)
qed

theorem token_tool_opens_service_witness:
  "\<exists>s w1 cfg. token_main sample_jwt world_runtime sample_environment empty_world = (Inr s, w1)
    \<and> Load (\<lambda>f u s. 0) sample_environment = Inr cfg
    \<and> (\<exists>claims w3. JWTManager_Validate sample_jwt (NewJWTManager (JWTSecret (Auth cfg))) s w1
         = (Inr claims, w3) \<and> Subject claims = ''local-user'')"
proof -
  obtain cfg where cfg: "Load (\<lambda>f u s. 0) sample_environment = Inr cfg" by (rule sample_config)
  let ?w1 = "empty_world\<lparr>wall_clock := 2000000\<rparr>"
  have "time_Now world_runtime empty_world = (0, empty_world\<lparr>wall_clock := 1000000\<rparr>)"
    "time_Now world_runtime (empty_world\<lparr>wall_clock := 1000000\<rparr>) = (1000000, ?w1)"
    by (simp_all add: world_runtime_def empty_world_def last_instant_def)
  moreover have "ValidString (sample_environment ''JWT_SUBJECT'')" by (simp add: sample_environment_def)
  ultimately obtain s where s: "token_main sample_jwt world_runtime sample_environment empty_world
      = (Inr s, ?w1)"
    "\<forall>w2. 1000000 \<le> wall_clock w2 \<and> wall_clock w2 < 0 + Hour - (0 + Hour) mod 1000000000 \<longrightarrow>
       (\<exists>claims w3. tv_Validate (jwt_validator sample_jwt (NewJWTManager (JWTSecret (Auth cfg)))) s w2
            = (Inr claims, w3)
          \<and> Subject claims = getEnv sample_environment ''JWT_SUBJECT'' ''local-user'')"
    using token_tool_opens_service [OF sample_library cfg] by force
  moreover have "getEnv sample_environment ''JWT_SUBJECT'' ''local-user'' = ''local-user''"
    by (simp add: getEnv_def sample_environment_def)
  ultimately show ?thesis using cfg by (fastforce simp: jwt_validator_def duration_units)
qed

end
