(* ===== verification/Lives.thy ===== *)
theory Lives
  imports Program
begin

text \<open>
  The life of the program (\<^verbatim>\<open>cmd/api/main.go\<close>), from its start to its end and again: what is true of
  the data when main returns, whatever happened while it served and during its shutdown, and what
  main leaves open.
\<close>

subsection \<open>What surrounds main\<close>

text \<open>A step that leaves the tables alone and takes back no message.\<close>

definition calm ::
    "(executor \<Rightarrow> 'w \<Rightarrow> database option) \<Rightarrow> ('w \<Rightarrow> published list) \<Rightarrow> 'w \<Rightarrow> 'w \<Rightarrow> bool" where
  "calm tables sent w w' \<longleftrightarrow>
     tables PoolExecutor w' = tables PoolExecutor w \<and> (\<exists>new. sent w' = sent w @ new)"

lemma calm_refl [simp]: "calm tables sent w w"
  by (simp add: calm_def)

lemma calm_trans [trans]:
  "calm tables sent u v \<Longrightarrow> calm tables sent v w \<Longrightarrow> calm tables sent u w"
  by (auto simp: calm_def)

text \<open>
  A deployment together with the library of the pool: connecting gives the driver of the database,
  opening and closing pools does not touch the data, and nothing else opens or closes pools.  The
  shutdown of the server and the closing of a Kafka writer are calm.
\<close>

locale program_world =
  deployment pg tables now sent lib new_writer logger rt env jwt chi matches_path swagger ping +
  pool_library pgx opened handle +
  pools: kept_service pg tables now opened lib rt
  for pg :: "'w driver" and tables :: "executor \<Rightarrow> 'w \<Rightarrow> database option"
    and now :: "executor \<Rightarrow> 'w \<Rightarrow> time" and sent :: "'w \<Rightarrow> published list" and lib :: uuid_lib
    and new_writer :: "writer_settings \<Rightarrow> 'w kafkaWriter" and logger :: "'w logger"
    and rt :: "'w runtime" and env :: "'w \<Rightarrow> 'w \<Rightarrow> bool" and jwt :: "'w jwt_lib" and chi :: "'w mux"
    and matches_path :: "string \<Rightarrow> string \<Rightarrow> (string \<times> string) list option"
    and swagger :: "'w handler" and ping :: "ctx \<Rightarrow> ('w, goerr) cmd"
    and pgx :: "'w pgxpool" and opened :: "'w \<Rightarrow> 'h set" and handle :: "'w pool \<Rightarrow> 'h" +
  fixes server_Shutdown :: "int \<Rightarrow> ('w, goerr) cmd"
  assumes connects_to: "ConnectConfig pgx ctx pc w = (Inr pool, w') \<Longrightarrow>
      pool_driver pool = pg \<and> pool_Ping pool = ping"
    and connecting: "calm tables sent w (snd (ConnectConfig pgx ctx pc w))"
    and closing: "ConnectConfig pgx ctx pc w = (Inr pool, w') \<Longrightarrow> calm tables sent v (pool_Close pool v)"
    and env_opened: "env w w' \<Longrightarrow> opened w' = opened w"
    and shutdown_calm: "calm tables sent w (snd (server_Shutdown d w))"
      "opened (snd (server_Shutdown d w)) = opened w"
    and writer_close_calm: "calm tables sent w (snd (kw_Close (new_writer s) w))"
      "opened (snd (kw_Close (new_writer s) w)) = opened w"
    and writer_opened: "opened (snd (WriteMessages (new_writer s) ctx ms w)) = opened w"
    and logger_opened: "opened (logger line w) = opened w"
begin

lemma env_calm: "env w w' \<Longrightarrow> calm tables sent w w'"
  using env_tables env_sent by (simp add: calm_def)

lemma pool_parts:
  assumes "NewPool pgx ctx cfg w = (Inr pool, w')"
  shows "pool_driver pool = pg" "pool_Ping pool = ping" "calm tables sent v (pool_Close pool v)"
  using NewPool_connects [OF assms] connects_to closing by blast+

lemma NewPool_calm: "calm tables sent w (snd (NewPool pgx ctx cfg w))"
proof (cases "ParseConfig pgx (URL cfg)")
  case (Inr pc0)
  define pc where "pc = pc0\<lparr>pc_MaxConns := MaxConns cfg, pc_MinConns := MinConns cfg,
    pc_MaxConnLifetime := MaxConnLifetime cfg, pc_MaxConnIdleTime := MaxConnIdleTime cfg\<rparr>"
  obtain rc w1 where c: "ConnectConfig pgx ctx pc w = (rc, w1)" by fastforce
  then have w1: "calm tables sent w w1" using connecting by (metis snd_conv)
  show ?thesis
  proof (cases rc)
    case (Inl e)
    with Inr c w1 show ?thesis by (simp add: NewPool_def pc_def [symmetric])
  next
    case pool: (Inr pool)
    obtain rp w2 where p: "ping ctx w1 = (rp, w2)" by fastforce
    then have "calm tables sent w1 w2" using env_ping env_calm by (metis snd_conv)
    with w1 have w2: "calm tables sent w w2" by (rule calm_trans)
    moreover have "calm tables sent w (pool_Close pool w2)"
      using w2 closing c pool by (blast intro: calm_trans)
    ultimately show ?thesis
      using Inr c pool p connects_to [OF c [unfolded pool]]
      by (cases rp) (simp_all add: NewPool_def pc_def [symmetric])
  qed
qed (simp add: NewPool_def)

lemma producer_close:
  assumes "NewProducer lib logger new_writer cfg = Inr producer"
  shows "calm tables sent w (snd (Close producer ctx w))
    \<and> opened (snd (Close producer ctx w)) = opened w"
proof -
  have "calm tables sent w (logger line w)" for line
    using logger_law logger_leaves by (auto simp: calm_def)
  moreover have "snd (KafkaProducer_Close p ctx w) = snd (kw_Close (kp_writer p) w)" for p
    by (simp add: KafkaProducer_Close_def try_cmd_def split: prod.split option.split)
  ultimately show ?thesis
    using assms logger_opened writer_close_calm
    by (auto simp: NewProducer_def Let_def NewLogProducer_def LogProducer_Close_def
        kafka_event_producer_def NewKafkaProducer_def split: if_splits)
qed

lemma producer_opened:
  assumes "NewProducer lib logger new_writer cfg = Inr producer"
  shows "keeps opened (Publish producer ctx ev)"
proof -
  have "keeps opened (\<lambda>w. (r, logger line w))" for r :: "goerr option" and line
    by (simp add: keeps_def logger_opened)
  moreover have "keeps opened (KafkaProducer_Publish lib (NewKafkaProducer new_writer bs t) ctx ev)" for bs t
    unfolding KafkaProducer_Publish_def [abs_def] NewKafkaProducer_def Let_def KafkaProducer.select_convs
    by (intro keeps_intros) (simp add: keeps_def writer_opened)
  ultimately show ?thesis
    using assms by (auto simp: NewProducer_def Let_def LogProducer_Publish_def [abs_def] split: if_splits)
qed

lemma step_opened:
  assumes "NewProducer lib logger new_writer cfg = Inr producer"
    and "system_step lib pg rt producer interval batchSize env w w'"
  shows "opened w' = opened w"
  using assms(2)
proof cases
  case (create input r)
  then show ?thesis by (rule keepsD [OF pools.use_cases_keep(1)])
next
  case (patch i pinput r)
  then show ?thesis by (rule keepsD [OF pools.use_cases_keep(2)])
next
  case (delete i r)
  then show ?thesis by (rule keepsD [OF pools.use_cases_keep(3)])
next
  case (get i r)
  then show ?thesis by (rule keepsD [OF pools.use_cases_keep(4)])
next
  case tick
  with pools.tick_keeps [OF producer_opened [OF assms(1)]] show ?thesis by simp
next
  case environment
  then show ?thesis by (rule env_opened)
qed

lemma steps_opened:
  assumes "NewProducer lib logger new_writer cfg = Inr producer"
    and "rtranclp (system_step lib pg rt producer interval batchSize env) w w'"
  shows "opened w' = opened w"
  using assms(2) by induction (simp_all add: step_opened [OF assms(1)])

end

text \<open>The world of a happening moves as the environment may.\<close>

definition moves_allowed :: "('w \<Rightarrow> 'w \<Rightarrow> bool) \<Rightarrow> 'w happening list \<Rightarrow> bool" where
  "moves_allowed env hs \<longleftrightarrow> (\<forall>f w. Elsewhere f \<in> set hs \<longrightarrow> env w (f w))"

definition life_allowed :: "('w \<Rightarrow> 'w \<Rightarrow> bool) \<Rightarrow> 'w life \<Rightarrow> bool" where
  "life_allowed env life \<longleftrightarrow>
     moves_allowed env (while_serving life) \<and> moves_allowed env (after_shutdown life)
     \<and> moves_allowed env (after_producer_close life) \<and> moves_allowed env (after_pool_close life)"

lemma happen_step:
  assumes "moves_allowed env [h]"
  shows "app_step app env w (happen app h w)"
proof (cases h)
  case (Served r)
  obtain wr' w' where "app_Handler app r fresh_writer w = (wr', w')" by fastforce
  with Served show ?thesis by (auto intro: app_step.request)
qed (use assms in \<open>auto simp: moves_allowed_def intro: app_step.tick app_step.moves\<close>)

lemma happens_steps:
  "moves_allowed env hs \<Longrightarrow> rtranclp (app_step app env) w (happens app hs w)"
proof (induction hs arbitrary: w)
  case Nil
  show ?case by (simp add: happens_def)
next
  case (Cons h hs)
  then have "moves_allowed env [h]" "moves_allowed env hs" by (auto simp: moves_allowed_def)
  with Cons.IH [of "happen app h w"] happen_step [of env h app w] show ?case
    by (auto simp: happens_def intro: converse_rtranclp_into_rtranclp)
qed

subsection \<open>From the start to the end\<close>

text \<open>The data of a world are sound: the invariants of the theory System hold of its ledger.\<close>

definition data_sound ::
    "uuid_lib \<Rightarrow> (executor \<Rightarrow> 'w \<Rightarrow> database option) \<Rightarrow> (event \<Rightarrow> published)
     \<Rightarrow> ('w \<Rightarrow> published list) \<Rightarrow> 'w \<Rightarrow> bool" where
  "data_sound lib tables message sent w \<longleftrightarrow>
     (\<exists>l. ledger_view lib tables Background w = Some l \<and> sound message (sent w) l)"

lemma calm_sound:
  assumes "calm tables sent w w'" and "data_sound lib tables message sent w"
  shows "data_sound lib tables message sent w'"
proof -
  from assms obtain l new where l: "ledger_view lib tables Background w = Some l"
    "sound message (sent w) l" "sent w' = sent w @ new" "tables PoolExecutor w' = tables PoolExecutor w"
    by (auto simp: data_sound_def calm_def)
  then have "ledger_view lib tables Background w' = Some l" by (simp add: ledger_view_def)
  with l show ?thesis by (auto simp: data_sound_def sound_def intro: delivered_more)
qed

context program_world
begin

lemma api_start_calm:
  "calm tables sent w (snd (api_start fl pgx logger new_writer jwt chi swagger lib rt environment w))"
proof (cases "Load fl environment")
  case (Inr cfg)
  obtain rp w1 where p: "NewPool pgx Background (Database cfg) w = (rp, w1)" by fastforce
  with NewPool_calm have "calm tables sent w w1" by (metis snd_conv)
  with Inr p show ?thesis
    by (cases rp; cases "NewProducer lib logger new_writer (Events cfg)")
      (simp_all add: api_start_def Let_def)
qed (simp add: api_start_def)

lemma api_start_opened:
  assumes "api_start fl pgx logger new_writer jwt chi swagger lib rt environment w = (Inl f, w')"
  shows "opened w' = opened w
    \<or> (\<exists>cfg pool err. f = Fatal ''failed to configure event producer'' (Some err)
        \<and> opened w' = insert (handle pool) (opened w))"
proof (cases "Load fl environment")
  case (Inl e)
  with assms show ?thesis by (auto simp: api_start_def)
next
  case (Inr cfg)
  obtain rp w1 where p: "NewPool pgx Background (Database cfg) w = (rp, w1)" by fastforce
  show ?thesis
  proof (cases rp)
    case (Inl e)
    with NewPool_outcome [OF p] Inr p assms show ?thesis by (auto simp: api_start_def)
  next
    case pool: (Inr pool)
    with NewPool_outcome [OF p] Inr p assms show ?thesis
      by (cases "NewProducer lib logger new_writer (Events cfg)") (auto simp: api_start_def Let_def)
  qed
qed

text \<open>What happens to a started program keeps the data sound and the pools as they are.\<close>

lemma happens_kept:
  assumes start: "api_start fl pgx logger new_writer jwt chi swagger lib rt environment w0 = (Inr app, w1)"
    and cfg: "Load fl environment = Inr cfg"
    and moves: "moves_allowed env hs"
  shows "opened (happens app hs w) = opened w"
    and "data_sound lib tables (published_as lib (Events cfg)) sent w \<Longrightarrow>
      data_sound lib tables (published_as lib (Events cfg)) sent (happens app hs w)"
proof -
  from api_start_Inr [OF start] cfg have
    np: "NewPool pgx Background (Database cfg) w0 = (Inr (app_pool app), w1)"
    and "\<exists>producer. NewProducer lib logger new_writer (Events cfg) = Inr producer"
    by (metis sum.inject(2))+
  then obtain producer where p: "NewProducer lib logger new_writer (Events cfg) = Inr producer" by blast
  let ?step = "system_step lib pg rt producer (OutboxPollInterval (Events cfg))
    (OutboxBatchSize (Events cfg)) env"
  have one: "rtranclp ?step u v" if "app_step app env u v" for u v
    using app_steps [OF start pool_parts(1,2) [OF np] cfg that] p by auto
  from happens_steps [OF moves, of app w] have steps: "rtranclp ?step w (happens app hs w)"
    by (induction rule: rtranclp_induct) (auto intro: rtranclp_trans one)
  show "opened (happens app hs w) = opened w" using steps_opened [OF p steps] .
  show "data_sound lib tables (published_as lib (Events cfg)) sent (happens app hs w)"
    if "data_sound lib tables (published_as lib (Events cfg)) sent w"
  proof -
    from that obtain l where l: "ledger_view lib tables Background w = Some l"
      "sound (published_as lib (Events cfg)) (sent w) l" by (auto simp: data_sound_def)
    from running_system.reachable_sound [OF configured_system [OF p] steps l] show ?thesis
      by (auto simp: data_sound_def)
  qed
qed

lemma api_stop_kept:
  assumes start: "api_start fl pgx logger new_writer jwt chi swagger lib rt environment w0 = (Inr app, w1)"
    and cfg: "Load fl environment = Inr cfg"
    and life: "life_allowed env life"
  shows "opened (api_stop server_Shutdown app life w) = opened w - {handle (app_pool app)}"
    and "data_sound lib tables (published_as lib (Events cfg)) sent w \<Longrightarrow>
      data_sound lib tables (published_as lib (Events cfg)) sent (api_stop server_Shutdown app life w)"
proof -
  let ?sound = "data_sound lib tables (published_as lib (Events cfg)) sent"
  from api_start_Inr [OF start] cfg have
    np: "NewPool pgx Background (Database cfg) w0 = (Inr (app_pool app), w1)"
    and p: "NewProducer lib logger new_writer (Events cfg) = Inr (app_producer app)"
    by (metis sum.inject(2))+
  from life have moves: "moves_allowed env (after_shutdown life)"
    "moves_allowed env (after_producer_close life)" "moves_allowed env (after_pool_close life)"
    by (simp_all add: life_allowed_def)
  note kept = happens_kept [OF start cfg]
  define u1 where "u1 = snd (server_Shutdown (ShutdownTimeout (app_Server app)) w)"
  define u2 where "u2 = happens app (after_shutdown life) u1"
  define u3 where "u3 = snd (Close (app_producer app) Background u2)"
  define u4 where "u4 = happens app (after_producer_close life) u3"
  define u5 where "u5 = pool_Close (app_pool app) u4"
  define u6 where "u6 = happens app (after_pool_close life) u5"
  have stop: "api_stop server_Shutdown app life w = pool_Close (app_pool app) u6"
    by (simp add: api_stop_def u1_def u2_def u3_def u4_def u5_def u6_def case_prod_beta Let_def)
  have "opened u6 = opened w - {handle (app_pool app)}"
    using kept(1) [OF moves(1)] kept(1) [OF moves(2)] kept(1) [OF moves(3)]
      shutdown_calm(2) producer_close [OF p] NewPool_closes [OF np]
    by (simp add: u1_def u2_def u3_def u4_def u5_def u6_def)
  then show "opened (api_stop server_Shutdown app life w) = opened w - {handle (app_pool app)}"
    using NewPool_closes [OF np] by (simp add: stop)
  assume "?sound w"
  then have "?sound u1" unfolding u1_def by (rule calm_sound [OF shutdown_calm(1)])
  then have "?sound u2" unfolding u2_def by (rule kept(2) [OF moves(1)])
  then have "?sound u3" unfolding u3_def using producer_close [OF p] by (blast intro: calm_sound)
  then have "?sound u4" unfolding u4_def by (rule kept(2) [OF moves(2)])
  then have "?sound u5" unfolding u5_def by (rule calm_sound [OF pool_parts(3) [OF np]])
  then have "?sound u6" unfolding u6_def by (rule kept(2) [OF moves(3)])
  then show "?sound (api_stop server_Shutdown app life w)"
    unfolding stop by (rule calm_sound [OF pool_parts(3) [OF np]])
qed

lemma main_kept:
  assumes run: "api_main fl pgx logger new_writer jwt chi swagger server_Shutdown lib rt environment life w
      = (r, w')"
    and cfg: "Load fl environment = Inr cfg"
    and life: "life_allowed env life"
    and sound: "data_sound lib tables (published_as lib (Events cfg)) sent w"
  shows "data_sound lib tables (published_as lib (Events cfg)) sent w'"
proof -
  obtain rs w1 where start: "api_start fl pgx logger new_writer jwt chi swagger lib rt environment w
      = (rs, w1)" by fastforce
  with api_start_calm have "calm tables sent w w1" by (metis snd_conv)
  then have w1: "data_sound lib tables (published_as lib (Events cfg)) sent w1"
    using sound by (rule calm_sound)
  from life have "moves_allowed env (while_serving life)" by (simp add: life_allowed_def)
  with w1 start run happens_kept(2) [OF _ cfg] api_stop_kept(2) [OF _ cfg life] show ?thesis
    by (cases rs) (auto simp: api_main_def)
qed

lemma main_opened:
  assumes run: "api_main fl pgx logger new_writer jwt chi swagger server_Shutdown lib rt environment life w
      = (r, w')"
    and life: "life_allowed env life"
  shows "case r of
      Inr _ \<Rightarrow> opened w' = opened w
    | Inl f \<Rightarrow> opened w' = opened w
        \<or> (\<exists>pool err. f = Fatal ''failed to configure event producer'' (Some err)
            \<and> opened w' = insert (handle pool) (opened w))"
proof -
  obtain rs w1 where start: "api_start fl pgx logger new_writer jwt chi swagger lib rt environment w
      = (rs, w1)" by fastforce
  show ?thesis
  proof (cases rs)
    case (Inl f)
    with start run api_start_opened show ?thesis by (fastforce simp: api_main_def)
  next
    case (Inr app)
    from start [unfolded Inr] obtain cfg where cfg: "Load fl environment = Inr cfg"
      "NewPool pgx Background (Database cfg) w = (Inr (app_pool app), w1)"
      by (rule api_start_Inr) blast
    from life have "moves_allowed env (while_serving life)" by (simp add: life_allowed_def)
    with happens_kept(1) [OF start [unfolded Inr] cfg(1)]
      api_stop_kept(1) [OF start [unfolded Inr] cfg(1) life] NewPool_outcome [OF cfg(2)] run start Inr
    show ?thesis by (auto simp: api_main_def)
  qed
qed

end

subsection \<open>Main and its restarts\<close>

text \<open>The program is run again and again, each time when main has returned.\<close>

definition run_lives :: "('w life \<Rightarrow> ('w, fatal, unit) io) \<Rightarrow> 'w life list \<Rightarrow> 'w \<Rightarrow> 'w" where
  "run_lives main lives w = fold (\<lambda>life w. snd (main life w)) lives w"

context program_world
begin

lemma run_lives_kept:
  assumes cfg: "Load fl environment = Inr cfg" and "list_all (life_allowed env) lives"
    and "data_sound lib tables (published_as lib (Events cfg)) sent w0"
  shows "data_sound lib tables (published_as lib (Events cfg)) sent
    (run_lives (api_main fl pgx logger new_writer jwt chi swagger server_Shutdown lib rt environment)
      lives w0)"
  using assms(2,3)
proof (induction lives arbitrary: w0)
  case Nil
  then show ?case by (simp add: run_lives_def)
next
  case (Cons life lives)
  let ?main = "api_main fl pgx logger new_writer jwt chi swagger server_Shutdown lib rt environment"
  obtain r w1 where run: "?main life w0 = (r, w1)" by fastforce
  with Cons.prems main_kept [OF run cfg] have
    "data_sound lib tables (published_as lib (Events cfg)) sent w1" by simp
  with Cons.IH [of w1] Cons.prems run show ?case by (simp add: run_lives_def)
qed

lemma empty_sound:
  "tables PoolExecutor w = Some empty_database \<Longrightarrow> data_sound lib tables message sent w"
  by (auto simp: data_sound_def empty_view [OF lib_ok] sound_empty)

end

text \<open>
  Property C3: the data survive the restarts of the program.  From an empty database on, the program
  is started, serves, is stopped and started again, as often as one likes; whatever requests, ticks
  and moves of the world there are in each of its lives, also during the shutdown and after the
  producer and the pool have been closed under the publisher, and whatever fails, also the start
  itself: the companies are valid and have different ids and names, the events of the outbox replay to
  exactly the companies, and each of them has been written to the configured topic or log, or is
  still waiting for its turn.
\<close>

theorem data_survive_restarts:
  assumes "program_world pg tables now sent lib new_writer logger rt env jwt chi matches_path swagger
      ping pgx opened handle server_Shutdown"
    and "Load fl environment = Inr cfg"
    and "tables PoolExecutor w0 = Some empty_database"
    and "list_all (life_allowed env) lives"
    and "run_lives (api_main fl pgx logger new_writer jwt chi swagger server_Shutdown lib rt environment)
      lives w0 = w"
  shows "\<exists>l. ledger_view lib tables Background w = Some l
    \<and> (\<forall>c\<in>set (members l). Validate c = None)
    \<and> distinct (map ID (members l)) \<and> distinct (map Name (members l))
    \<and> (\<forall>i c. replay (events_of l) i = Some c \<longleftrightarrow> c \<in> set (members l) \<and> ID c = i)
    \<and> (\<forall>en\<in>set (outbox l). published_as lib (Events cfg) (en_event en) \<in> set (sent w)
         \<or> due (en_available en) en)"
proof -
  from program_world.run_lives_kept [OF assms(1,2,4) program_world.empty_sound [OF assms(1,3)]] assms(5)
  obtain l where "ledger_view lib tables Background w = Some l"
    "sound (published_as lib (Events cfg)) (sent w) l" by (auto simp: data_sound_def)
  then show ?thesis
    by (auto simp: sound_def ledger_ok_def company_ok_def events_complete_def company_table_Some
        delivered_def due_def)
qed

text \<open>
  Property C29: main leaves no pool of connections open.  When it returns, the pools open are those
  that were open before it was started, whatever has happened; when it gives up instead, the same
  holds, but for one way to fail: a configuration with an unknown event producer ends the program
  after the pool has been opened, and the deferred call that closes it is not run.
\<close>

theorem main_leaves_no_pool_open:
  assumes "program_world pg tables now sent lib new_writer logger rt env jwt chi matches_path swagger
      ping pgx opened handle server_Shutdown"
    and "api_main fl pgx logger new_writer jwt chi swagger server_Shutdown lib rt environment life w
      = (r, w')"
    and "life_allowed env life"
  shows "case r of
      Inr _ \<Rightarrow> opened w' = opened w
    | Inl f \<Rightarrow> opened w' = opened w
        \<or> (\<exists>pool err. f = Fatal ''failed to configure event producer'' (Some err)
            \<and> opened w' = insert (handle pool) (opened w))"
  by (rule program_world.main_opened [OF assms])

subsection \<open>Main in the reference world\<close>

definition lives_moves :: "world \<Rightarrow> world \<Rightarrow> bool" where
  "lives_moves w w' \<longleftrightarrow> world_moves w w' \<and> open_pools w' = open_pools w"

lemma open_pools_more:
  "dbserver.more w' = dbserver.more w \<Longrightarrow> sample_opened w' = sample_opened (w::world)"
  by (cases w; cases w') (simp add: sample_opened_def)

interpretation sample_pool_data: company_database reference_driver server_tables server_now
    sample_opened canonical_uuids
  by (rule reference_database) (rule open_pools_more)

interpretation sample_pool_service: kept_service reference_driver server_tables server_now
    sample_opened canonical_uuids world_runtime
proof unfold_locales
  show "server_tables x (snd (time_Now world_runtime w)) = server_tables x w"
    "server_tables x (snd (uuid_New world_runtime w)) = server_tables x w" for x and w :: world
    by (simp_all add: reference_world.time_leaves reference_world.uuid_leaves)
qed (simp_all add: keeps_def world_runtime_def sample_opened_def)

interpretation sample_lives: deployment reference_driver server_tables server_now broker
    canonical_uuids world_writer world_logger world_runtime lives_moves sample_jwt first_match match_path
    healthz "\<lambda>ctx w. (None, w)"
proof unfold_locales
  show "lives_moves w w' \<Longrightarrow> server_tables PoolExecutor w' = server_tables PoolExecutor w"
    "lives_moves w w' \<Longrightarrow> \<exists>more. broker w' = broker w @ more" for w w' :: world
    by (simp_all add: lives_moves_def world_moves_def server_tables_def)
  show "lives_moves w (snd (ParseWithClaims sample_jwt s kf w))" for w s kf
    by (simp add: lives_moves_def world_moves_def sample_jwt_def sample_parse_def Let_def)
  show "lives_moves w (snd (healthz r wr w))" "lives_moves w (snd (None, w))" for r wr w
    by (simp_all add: lives_moves_def world_moves_def healthz_def)
qed (rule first_match_ok)

interpretation sample_program: program_world reference_driver server_tables server_now broker
    canonical_uuids world_writer world_logger world_runtime lives_moves sample_jwt first_match match_path
    healthz "\<lambda>ctx w. (None, w)" sample_pgx sample_opened "\<lambda>_. ()" "\<lambda>d w. (None, w)"
proof unfold_locales
  show "lives_moves w w' \<Longrightarrow> sample_opened w' = sample_opened w" for w w'
    by (simp add: lives_moves_def sample_opened_def)
  show "sample_opened (snd (WriteMessages (world_writer s) ctx ms w)) = sample_opened w"
    "sample_opened (world_logger line w) = sample_opened w" for s ctx ms w line
    by (auto simp: world_writer_def world_write_def world_logger_def sample_opened_def Let_def
        split: prod.splits fault.splits list.splits)
qed (auto simp: sample_pgx_def sample_pool_def calm_def world_writer_def server_tables_def
    split: if_splits)

definition sample_life :: "world life" where
  "sample_life = \<lparr>while_serving = [Polled, Served acme_http], after_shutdown = [Polled],
     after_producer_close = [Polled], after_pool_close = [Polled]\<rparr>"

abbreviation sample_main :: "world life \<Rightarrow> (world, fatal, unit) io" where
  "sample_main \<equiv> api_main (\<lambda>f u s. 0) sample_pgx world_logger world_writer sample_jwt first_match
     healthz (\<lambda>d w. (None, w)) canonical_uuids world_runtime sample_environment"

lemma sample_life_allowed: "life_allowed lives_moves sample_life"
  by (simp add: life_allowed_def moves_allowed_def sample_life_def)

theorem data_survive_restarts_witness:
  "\<exists>l cfg. ledger_view canonical_uuids server_tables Background
        (run_lives sample_main [sample_life, sample_life] empty_world) = Some l
    \<and> distinct (map Name (members l))
    \<and> (\<forall>en\<in>set (outbox l). published_as canonical_uuids cfg (en_event en)
          \<in> set (broker (run_lives sample_main [sample_life, sample_life] empty_world))
        \<or> due (en_available en) en)"
proof -
  obtain cfg where cfg: "Load (\<lambda>f u s. 0) sample_environment = Inr cfg" by (rule sample_config)
  have "list_all (life_allowed lives_moves) [sample_life, sample_life]"
    by (simp add: sample_life_allowed)
  from data_survive_restarts [OF sample_program.program_world_axioms cfg empty_world_tables this refl]
  show ?thesis by blast
qed

theorem main_leaves_no_pool_open_witness:
  "\<exists>w'. sample_main sample_life empty_world = (Inr (), w') \<and> sample_opened w' = {}"
proof -
  obtain app cfg where start: "api_start (\<lambda>f u s. 0) sample_pgx world_logger world_writer sample_jwt
      first_match healthz canonical_uuids world_runtime sample_environment empty_world
      = (Inr app, start_world)"
    by (rule sample_start)
  obtain w' where run: "sample_main sample_life empty_world = (Inr (), w')"
    using start by (simp add: api_main_def)
  from main_leaves_no_pool_open [OF sample_program.program_world_axioms run sample_life_allowed] run
  show ?thesis by (simp add: sample_opened_def empty_world_def)
qed

end
