(* ===== verification/Progress.thy ===== *)
theory Progress
  imports Delivery UseCases
begin

text \<open>
  What happens when nothing goes wrong.  The contracts of the theories \<open>Server\<close> and \<open>Delivery\<close> leave
  every call free to fail; here a predicate \<open>healthy\<close> of the world tells when the database, the
  clock and the broker work, and then the operations may only fail for the reasons that lie in the
  data.  \<open>working_database\<close> is about the statements, \<open>working_service\<close> about the use cases,
  \<open>working_publisher\<close> about the batches.
\<close>

subsection \<open>A database that works\<close>

locale working_database = company_database pg tables now outside lib
  for pg :: "'w driver" and tables :: "executor \<Rightarrow> 'w \<Rightarrow> database option"
    and now :: "executor \<Rightarrow> 'w \<Rightarrow> time" and outside :: "'w \<Rightarrow> 's" and lib :: uuid_lib +
  fixes healthy :: "'w \<Rightarrow> bool"
  assumes ToSql_works: "ToSql pg st = None"
    and Exec_works: "healthy w \<Longrightarrow> tables x w = Some db \<Longrightarrow> Exec pg x st w = (r1, w') \<Longrightarrow>
      healthy w' \<and> (\<forall>e. r1 = Inl e \<longrightarrow> sql_exec (now x w) st db = Inl e)"
    and Query_works: "healthy w \<Longrightarrow> tables x w = Some db \<Longrightarrow> Query pg x st w = (r2, w') \<Longrightarrow>
      healthy w' \<and> (\<forall>e. r2 = Inl e \<longrightarrow> sql_exec (now x w) st db = Inl e)
      \<and> (\<forall>rows e. r2 \<noteq> Inr (rows, Some e))"
    and QueryRow_works: "healthy w \<Longrightarrow> tables x w = Some db \<Longrightarrow> QueryRow pg x st w = (r3, w') \<Longrightarrow>
      healthy w' \<and> (\<forall>e. r3 = Inl e \<longrightarrow> sql_exec (now x w) st db = Inl e
        \<or> e = ErrNoRows \<and> (\<exists>n db'. sql_exec (now x w) st db = Inr ([], n, db')))"
    and Begin_works: "healthy w \<Longrightarrow> Begin pg w = (r4, w') \<Longrightarrow> healthy w' \<and> (\<exists>t. r4 = Inr t)"
    and Commit_works: "healthy w \<Longrightarrow> tables (TxExecutor t) w \<noteq> None \<Longrightarrow>
      Commit pg t w = (r5, w') \<Longrightarrow> healthy w' \<and> r5 = None"
begin

text \<open>A statement without an error of its own, and a query of one row.\<close>

lemma exec_works:
  assumes "healthy w" and v: "view ctx w = Some l"
    and e: "Exec pg (executorFromContext ctx) st w = (r, w')"
    and out: "sql_exec (now (executorFromContext ctx) w) st (conc lib l) = Inr (rows, n, db)"
  shows "r = Inr n \<and> healthy w' \<and> outside w' = outside w"
proof -
  from v have t: "tables (executorFromContext ctx) w = Some (conc lib l)" by (simp add: view_Some)
  from Exec_works [OF assms(1) t e] out exec_view [OF v e]
    statements_outside(1) [of "executorFromContext ctx" st w] e
  show ?thesis by (cases r) (auto simp: exec_answer_def)
qed

lemma row_works:
  assumes "healthy w" and v: "view ctx w = Some l"
    and q: "QueryRow pg (executorFromContext ctx) st w = (r, w')"
    and out: "sql_exec (now (executorFromContext ctx) w) st (conc lib l) = Inr (rows, n, conc lib l)"
  shows "healthy w' \<and> outside w' = outside w
    \<and> (case rows of [] \<Rightarrow> r = Inl ErrNoRows | row # _ \<Rightarrow> r = Inr row)"
proof -
  from v have t: "tables (executorFromContext ctx) w = Some (conc lib l)" by (simp add: view_Some)
  from QueryRow_works [OF assms(1) t q] out row_view [OF v q]
    statements_outside(3) [of "executorFromContext ctx" st w] q
  show ?thesis by (cases r; cases rows) (auto simp: row_answer_def)
qed

subsection \<open>Repositories that work\<close>

lemma get_by_id_works:
  assumes "healthy w" and v: "view ctx w = Some l"
    and run: "CompanyRepository_GetByID pg ctx i w = (r, w')"
  shows "healthy w' \<and> outside w' = outside w \<and> (i \<in> ID ` set (members l) \<longrightarrow> (\<exists>c. r = Inr c))"
proof -
  obtain rq w1 where q: "QueryRow pg (executorFromContext ctx)
      (selectCompany [Eq ''id'' (VUuid i)]) w = (rq, w1)" by fastforce
  note works = row_works [OF assms(1) v q exec_select_company(1)]
  from run q ToSql_works have "w' = w1"
    by (auto simp: CompanyRepository_GetByID_def with_sql_def split: sum.splits)
  moreover have "\<exists>c. r = Inr c" if "i \<in> ID ` set (members l)"
  proof (rule ccontr)
    assume "\<nexists>c. r = Inr c"
    then obtain e where e: "r = Inl e" by (cases r) auto
    from that works obtain c where "rq = Inr (company_fields c)"
      by (cases "filter (\<lambda>c. ID c = i) (members l)") (auto simp: filter_empty_conv)
    with run q e show False
      by (auto simp: CompanyRepository_GetByID_def with_sql_def ToSql_works)
  qed
  ultimately show ?thesis using works by blast
qed

lemma get_member_works:
  assumes "healthy w" and v: "view ctx w = Some l" and c: "c \<in> set (members l)"
    and run: "CompanyRepository_GetByID pg ctx (ID c) w = (r, w')"
  shows "r = Inr c \<and> healthy w' \<and> outside w' = outside w \<and> view ctx w' = Some l"
proof -
  from get_by_id_works [OF assms(1) v run] c obtain d where d: "r = Inr d" "healthy w'"
    "outside w' = outside w" by auto
  from get_by_id_law [OF v run] d(1) have d': "d \<in> set (members l)" "ID d = ID c" "view ctx w' = Some l"
    by auto
  from v have "ledger_ok l" by (simp add: view_Some)
  from unique_id [OF this d'(1) c d'(2)] d d'(3) show ?thesis by simp
qed

lemma get_by_name_works:
  assumes "healthy w" and v: "view ctx w = Some l" and n: "text_ok n"
    and run: "CompanyRepository_GetByName pg ctx n w = (r, w')"
  shows "healthy w' \<and> outside w' = outside w
    \<and> (n \<notin> Name ` set (members l) \<longrightarrow> (\<exists>e. r = Inl e \<and> errors_Is e ErrNotFound))
    \<and> (n \<in> Name ` set (members l) \<longrightarrow> (\<exists>c. r = Inr c))"
proof -
  obtain rq w1 where q: "QueryRow pg (executorFromContext ctx)
      (selectCompany [Eq ''name'' (VText n)]) w = (rq, w1)" by fastforce
  note works = row_works [OF assms(1) v q exec_select_company(2) [OF n]]
  from run q ToSql_works have "w' = w1"
    by (auto simp: CompanyRepository_GetByName_def with_sql_def split: sum.splits)
  moreover have "\<exists>e. r = Inl e \<and> errors_Is e ErrNotFound" if "n \<notin> Name ` set (members l)"
  proof -
    from that have "filter (\<lambda>c. Name c = n) (members l) = []" by (auto simp: filter_empty_conv)
    with works have "rq = Inl ErrNoRows" by simp
    with run q show ?thesis
      by (auto simp: CompanyRepository_GetByName_def with_sql_def ToSql_works)
  qed
  moreover have "\<exists>c. r = Inr c" if "n \<in> Name ` set (members l)"
  proof -
    from that works obtain c where "rq = Inr (company_fields c)"
      by (cases "filter (\<lambda>c. Name c = n) (members l)") (auto simp: filter_empty_conv)
    with run q show ?thesis
      by (auto simp: CompanyRepository_GetByName_def with_sql_def ToSql_works)
  qed
  ultimately show ?thesis using works by blast
qed

text \<open>The three writes succeed when the data allows it; by their laws they then do what they say.\<close>

lemma create_works:
  assumes "healthy w" and v: "view ctx w = Some l"
    and c: "valid_company c" "storable c" "duplicate (members l) c = None"
    and run: "CompanyRepository_Create pg ctx c w = (r, w')"
  shows "r = None \<and> healthy w' \<and> outside w' = outside w \<and> view ctx w' = Some (with_company c l)"
proof -
  obtain re w1 where e: "Exec pg (executorFromContext ctx) (company_insert c) w = (re, w1)" by fastforce
  have "sql_exec (now (executorFromContext ctx) w) (company_insert c) (conc lib l)
      = Inr ([], 1, conc lib (with_company c l))"
    using c by (simp add: exec_company_insert)
  from exec_works [OF assms(1) v e this] e run
  have "r = None \<and> healthy w' \<and> outside w' = outside w"
    by (simp add: CompanyRepository_Create_def with_sql_def ToSql_works)
  with create_law [OF v c(1) run] show ?thesis by simp
qed

lemma update_works:
  assumes "healthy w" and v: "view ctx w = Some l" and c: "valid_company c" "storable c"
    and ids: "ID c \<in> ID ` set (members l)" "\<not> name_taken l (ID c) (Name c)"
    and run: "CompanyRepository_Update pg ctx c w = (r, w')"
  shows "r = None \<and> healthy w' \<and> outside w' = outside w \<and> view ctx w' = Some (with_revision c l)"
proof -
  obtain re w1 where e: "Exec pg (executorFromContext ctx) (company_update c) w = (re, w1)" by fastforce
  from v have l: "ledger_ok l" by (simp add: view_Some)
  have "sql_exec (now (executorFromContext ctx) w) (company_update c) (conc lib l)
      = Inr ([], 1, conc lib (with_revision c l))"
    using exec_company_update [OF l c] ids by simp
  from exec_works [OF assms(1) v e this] e run
  have "r = None \<and> healthy w' \<and> outside w' = outside w"
    by (simp add: CompanyRepository_Update_def with_sql_def ToSql_works)
  with update_law [OF v c(1) run] show ?thesis by simp
qed

lemma delete_works:
  assumes "healthy w" and v: "view ctx w = Some l" and i: "i \<in> ID ` set (members l)"
    and run: "CompanyRepository_Delete pg ctx i w = (r, w')"
  shows "r = None \<and> healthy w' \<and> outside w' = outside w \<and> view ctx w' = Some (without_company i l)"
proof -
  obtain re w1 where e: "Exec pg (executorFromContext ctx) (company_delete i) w = (re, w1)" by fastforce
  have "filter (\<lambda>c. ID c = i) (members l) \<noteq> []" using i by (auto simp: filter_empty_conv)
  with exec_works [OF assms(1) v e exec_company_delete] e run
  have "r = None \<and> healthy w' \<and> outside w' = outside w"
    by (simp add: CompanyRepository_Delete_def with_sql_def ToSql_works)
  with delete_law [OF v run] show ?thesis by simp
qed

lemma store_works:
  assumes "healthy w" and v: "view ctx w = Some l"
    and ev: "event_texts_ok ev" "json_safe_event ev" "e_ID ev \<notin> entry_id ` set (outbox l)"
    and run: "OutboxRepository_Store lib pg ctx ev w = (r, w')"
  shows "r = None \<and> healthy w' \<and> outside w' = outside w
    \<and> (\<exists>t. view ctx w' = Some (with_event t ev l))"
proof -
  note j = payload_eq(1) [OF lib_ok ev(2)]
  let ?st = "outbox_insert ev (payload lib ev)"
  obtain re w1 where e: "Exec pg (executorFromContext ctx) ?st w = (re, w1)" by fastforce
  have "sql_exec (now (executorFromContext ctx) w) ?st (conc lib l)
      = Inr ([], 1, conc lib (with_event (now (executorFromContext ctx) w) ev l))"
    using ev(3) by (simp add: exec_outbox_insert [OF lib_ok j ev(1)])
  from exec_works [OF assms(1) v e this] e run j
  have "r = None \<and> healthy w' \<and> outside w' = outside w"
    by (simp add: OutboxRepository_Store_def with_sql_def ToSql_works)
  with store_law [OF v ev(1) run] show ?thesis by simp
qed

subsection \<open>A transaction that works\<close>

text \<open>
  A function that succeeds in a transaction of its own succeeds through the transaction manager,
  and what its transaction has seen is what everybody sees afterwards.
\<close>

lemma transaction_works:
  assumes "healthy w" and v: "view Background w = Some l"
    and fn: "\<And>t w1. Begin pg w = (Inr t, w1) \<Longrightarrow> healthy w1 \<Longrightarrow> view (tx_ctx t) w1 = Some l \<Longrightarrow>
      outside w1 = outside w \<Longrightarrow>
      \<exists>a w2 l'. fn (tx_ctx t) w1 = (Inr a, w2) \<and> healthy w2 \<and> view (tx_ctx t) w2 = Some l' \<and> Q a l' (outside w2)"
    and run: "TransactionManager_WithinTransaction pg Background fn w = (r, w')"
  shows "\<exists>a l'. r = Inr a \<and> healthy w' \<and> view Background w' = Some l' \<and> Q a l' (outside w')"
proof -
  have ctx: "Background\<lparr>txContextKey := Some t\<rparr> = tx_ctx t" for t
    by (simp add: Background_def tx_ctx_def)
  obtain rb w1 where b: "Begin pg w = (rb, w1)" by fastforce
  from Begin_works [OF assms(1) b] obtain t where w1: "healthy w1" "rb = Inr t" by blast
  have out1: "outside w1 = outside w" using transactions_outside(1) [of w] b by simp
  have "view (tx_ctx t) w1 = Some l" using Begin_answer [OF b] v w1(2) by (simp add: ledger_view_def)
  from fn [OF b [unfolded w1(2)] w1(1) this out1] obtain a w2 l' where
    f: "fn (tx_ctx t) w1 = (Inr a, w2)" and w2: "healthy w2" "view (tx_ctx t) w2 = Some l'"
    and Q: "Q a l' (outside w2)" by blast
  from w2(2) have t2: "tables (TxExecutor t) w2 = Some (conc lib l')" by (simp add: view_Some)
  obtain rc w3 where c: "Commit pg t w2 = (rc, w3)" by fastforce
  from Commit_works [OF w2(1) _ c] t2 have w3: "healthy w3" "rc = None" by auto
  from Commit_answer [OF t2 c] w3(2) w2(2) have "view Background w3 = Some l'"
    by (simp add: view_Some)
  moreover have "outside w3 = outside w2" using transactions_outside(2) [of t w2] c by simp
  moreover from run b w1(2) f c w3(2) have "r = Inr a" "w' = w3"
    by (simp_all add: TransactionManager_WithinTransaction_def txFromContext_def ctx)
  ultimately show ?thesis using w3(1) Q by auto
qed

end

subsection \<open>Use cases that succeed\<close>

text \<open>An event about a company can be written down when the company's instants can.\<close>

definition writable :: "company \<Rightarrow> bool" where
  "writable c \<longleftrightarrow> json_time_ok (CreatedAt c) \<and> json_time_ok (UpdatedAt c)"

text \<open>
  The clock shows an instant that RFC 3339 can write, and \<open>draw\<close> tells what the random source will
  say next from what it depends on, the part \<open>outside\<close> of the world.
\<close>

locale working_service =
  service_database pg tables now outside lib rt + working_database pg tables now outside lib healthy
  for pg :: "'w driver" and tables :: "executor \<Rightarrow> 'w \<Rightarrow> database option"
    and now :: "executor \<Rightarrow> 'w \<Rightarrow> time" and outside :: "'w \<Rightarrow> 's" and lib :: uuid_lib
    and rt :: "'w runtime" and healthy :: "'w \<Rightarrow> bool" +
  fixes draw :: "'s \<Rightarrow> uuid"
  assumes clock_works: "healthy w \<Longrightarrow> time_Now rt w = (t, w') \<Longrightarrow>
      healthy w' \<and> outside w' = outside w \<and> json_time_ok t"
    and draw_works: "healthy w \<Longrightarrow> uuid_New rt w = (i, w') \<Longrightarrow> healthy w' \<and> i = draw (outside w)"
begin

abbreviation psvc :: "'w Service" where
  "psvc \<equiv> postgres_service lib pg rt"

lemma psvc_simps:
  "svc_repo psvc = NewCompanyRepository pg" "svc_outbox psvc = Some (NewOutboxRepository_Store lib pg)"
  "svc_now psvc = time_Now rt" "svc_newUUID psvc = uuid_New rt"
  "svc_tx psvc = Some (NewTransactionManager pg)"
  by (simp_all add: postgres_service_def NewServiceWithOutbox_def)

lemmas psvc_defs = psvc_simps NewCompanyRepository_def NewOutboxRepository_Store_def
  NewTransactionManager_def

lemmas inside_outcomes =
  service.create_in_tx_outcome [folded postgres_service_def]
  service.patch_in_tx_outcome [folded postgres_service_def]
  service.delete_in_tx_outcome [folded postgres_service_def]

lemma publish_works:
  assumes "healthy w" and v: "view ctx w = Some l"
    and c: "company_ok (stored (change_company ch))" "writable (change_company ch)"
    and fresh: "draw (outside w) \<notin> entry_id ` set (outbox l)"
  shows "\<exists>w'. Service_publish psvc ctx (change_type ch) (change_company ch) w = (None, w') \<and> healthy w'"
proof -
  obtain i w1 where i: "uuid_New rt w = (i, w1)" by fastforce
  from draw_works [OF assms(1) i] have w1: "healthy w1" "i = draw (outside w)" by auto
  obtain t w2 where t: "time_Now rt w1 = (t, w2)" by fastforce
  from clock_works [OF w1(1) t] have w2: "healthy w2" "json_time_ok t" by auto
  let ?ev = "\<lparr>e_ID = i, e_Type = change_type ch, OccurredAt = t,
    CompanyID = ID (change_company ch), Company = Some (change_company ch)\<rparr>"
  have "announces ?ev ch" by (simp add: announces_def)
  from announces_texts_ok [OF this c(1)] have texts: "event_texts_ok ?ev" .
  then have safe: "json_safe_event ?ev"
    using w2(2) c(2) by (simp add: json_safe_event_def json_safe_company_def event_texts_ok_def
        company_texts_ok_def text_ok_def writable_def)
  have v2: "view ctx w2 = Some l"
    using v time_leaves [of _ w1] uuid_leaves [of _ w] i t by (simp add: ledger_view_def)
  obtain r w3 where s: "OutboxRepository_Store lib pg ctx ?ev w2 = (r, w3)" by fastforce
  from store_works [OF w2(1) v2 texts safe _ s] fresh w1(2) have "r = None" "healthy w3" by auto
  with i t s show ?thesis by (simp add: Service_publish_def psvc_defs)
qed

lemma create_in_tx_works:
  assumes "healthy w" and v: "view ctx w = Some l" and tx: "txContextKey ctx \<noteq> None"
    and c: "valid_company c" "storable c" "duplicate (members l) c = None" "writable c"
    and fresh: "draw (outside w) \<notin> entry_id ` set (outbox l)"
  shows "\<exists>w' l'. create_in_tx psvc c ctx w = (Inr c, w') \<and> healthy w' \<and> view ctx w' = Some l'
    \<and> recorded (Created c) l l'"
proof -
  obtain rg w1 where g: "CompanyRepository_GetByName pg ctx (Name c) w = (rg, w1)" by fastforce
  have new: "Name c \<notin> Name ` set (members l)" "text_ok (Name c)"
    using c by (auto simp: duplicate_def storable_def split: if_splits)
  from get_by_name_works [OF assms(1) v new(2) g] new(1) obtain e where
    w1: "healthy w1" "outside w1 = outside w" and e: "rg = Inl e" "errors_Is e ErrNotFound" by auto
  from get_by_name_law [OF v g] e have v1: "view ctx w1 = Some l" by auto
  obtain rc w2 where cr: "CompanyRepository_Create pg ctx c w1 = (rc, w2)" by fastforce
  from create_works [OF w1(1) v1 c(1,2,3) cr] w1(2) have rc: "rc = None" and w2: "healthy w2"
    "outside w2 = outside w" "view ctx w2 = Some (with_company c l)" by auto
  have "company_ok (stored c)" "outbox (with_company c l) = outbox l"
    using w2(3) by (auto simp: view_Some ledger_ok_def with_company_def)
  with publish_works [OF w2(1,3), where ch = "Created c"] c(4) fresh w2(2) obtain w3 where
    p: "Service_publish psvc ctx EventCompanyCreated c w2 = (None, w3)" "healthy w3" by auto
  with g e cr rc have run: "create_in_tx psvc c ctx w = (Inr c, w3)"
    by (simp add: create_in_tx_def psvc_defs)
  from inside_outcomes(1) [OF v tx c(1) run] p(2) run show ?thesis
    by (auto simp: inside_outcome_def)
qed

lemma delete_in_tx_works:
  assumes "healthy w" and v: "view ctx w = Some l" and tx: "txContextKey ctx \<noteq> None"
    and c: "c \<in> set (members l)" "writable c"
    and fresh: "draw (outside w) \<notin> entry_id ` set (outbox l)"
  shows "\<exists>w' l'. delete_in_tx psvc (ID c) ctx w = (Inr c, w') \<and> healthy w' \<and> view ctx w' = Some l'
    \<and> recorded (Deleted c) l l'"
proof -
  from v have l: "ledger_ok l" by (simp add: view_Some)
  obtain rg w1 where g: "CompanyRepository_GetByID pg ctx (ID c) w = (rg, w1)" by fastforce
  from get_member_works [OF assms(1) v c(1) g] have d: "rg = Inr c"
    and w1: "healthy w1" "outside w1 = outside w" and v1: "view ctx w1 = Some l" by auto
  obtain rd w2 where del: "CompanyRepository_Delete pg ctx (ID c) w1 = (rd, w2)" by fastforce
  from delete_works [OF w1(1) v1 _ del] c(1) w1(2) have rd: "rd = None" and w2: "healthy w2"
    "outside w2 = outside w" "view ctx w2 = Some (without_company (ID c) l)" by auto
  have "company_ok (stored c)" using admissible_company_ok [OF l, of "Deleted c"] c(1) by simp
  moreover have "outbox (without_company (ID c) l) = outbox l" by (simp add: without_company_def)
  ultimately obtain w3 where
    p: "Service_publish psvc ctx EventCompanyDeleted c w2 = (None, w3)" "healthy w3"
    using publish_works [OF w2(1,3), where ch = "Deleted c"] c(2) fresh w2(2) by auto
  with g d del rd have run: "delete_in_tx psvc (ID c) ctx w = (Inr c, w3)"
    by (simp add: delete_in_tx_def psvc_defs)
  from inside_outcomes(3) [OF v tx run] p(2) run show ?thesis
    by (auto simp: inside_outcome_def did_delete_def)
qed

lemma name_is_free_works:
  assumes "healthy w" and v: "view ctx w = Some l"
    and n: "\<And>n. new_name = Some n \<Longrightarrow> text_ok (TrimSpace n) \<and> \<not> name_taken l i (TrimSpace n)"
  shows "\<exists>w'. name_is_free psvc ctx i new_name w = (None, w') \<and> healthy w' \<and> outside w' = outside w
    \<and> view ctx w' = Some l"
proof (cases new_name)
  case None
  with assms show ?thesis by (simp add: name_is_free_def)
next
  case (Some n)
  obtain rg w1 where g: "CompanyRepository_GetByName pg ctx (TrimSpace n) w = (rg, w1)" by fastforce
  note works = get_by_name_works [OF assms(1) v _ g] and law = get_by_name_law [OF v g]
  show ?thesis
  proof (cases rg)
    case (Inr d)
    with law n [OF Some] have "ID d = i" by (auto simp: name_taken_def)
    with Inr Some g works law n [OF Some] show ?thesis by (simp add: name_is_free_def psvc_defs)
  next
    case (Inl e)
    with works n [OF Some] have e: "errors_Is e ErrNotFound" by auto
    with law Inl have "view ctx w1 = Some l" by auto
    with e Inl Some g works n [OF Some] show ?thesis by (simp add: name_is_free_def psvc_defs)
  qed
qed

lemma patch_in_tx_works:
  assumes "healthy w" and v: "view ctx w = Some l" and tx: "txContextKey ctx \<noteq> None"
    and d: "d \<in> set (members l)" "json_time_ok (CreatedAt d)"
    and ok: "patch_error (patch_of_input input) = None" "storable (patched 0 (patch_of_input input) d)"
      "\<not> name_taken l (ID d) (Name (patched 0 (patch_of_input input) d))"
    and fresh: "draw (outside w) \<notin> entry_id ` set (outbox l)"
  shows "\<exists>t w' l'. patch_in_tx rt psvc (ID d) input ctx w = (Inr (patched t (patch_of_input input) d), w')
    \<and> healthy w' \<and> view ctx w' = Some l' \<and> recorded (Updated (patched t (patch_of_input input) d)) l l'"
proof -
  let ?p = "patch_of_input input"
  from v have l: "ledger_ok l" by (simp add: view_Some)
  obtain rg w1 where g: "CompanyRepository_GetByID pg ctx (ID d) w = (rg, w1)" by fastforce
  from get_member_works [OF assms(1) v d(1) g] have rg: "rg = Inr d"
    and w1: "healthy w1" "outside w1 = outside w" and v1: "view ctx w1 = Some l" by auto
  have "text_ok (TrimSpace n) \<and> \<not> name_taken l (ID d) (TrimSpace n)" if "pi_Name input = Some n" for n
    using ok(2,3) that by (simp add: storable_def patched_def patch_of_input_def)
  from name_is_free_works [OF w1(1) v1 this] obtain w2 where
    f: "name_is_free psvc ctx (ID d) (pi_Name input) w1 = (None, w2)"
    and w2: "healthy w2" "outside w2 = outside w" "view ctx w2 = Some l" using w1(2) by auto
  obtain t w3 where t: "time_Now rt w2 = (t, w3)" by fastforce
  let ?c = "patched t ?p d"
  from clock_works [OF w2(1) t] have w3: "healthy w3" "outside w3 = outside w" "json_time_ok t"
    using w2(2) by auto
  have v3: "view ctx w3 = Some l" using w2(3) time_leaves [of _ w2] t by (simp add: ledger_view_def)
  from l d(1) have valid: "valid_company d" by (simp add: ledger_ok_def company_ok_def)
  then have ap: "ApplyPatch t ?p d = (None, ?c)" using ok(1) by (simp add: ApplyPatch_None)
  have c: "valid_company ?c" "storable ?c" "\<not> name_taken l (ID ?c) (Name ?c)"
    using valid_patched [OF valid ok(1)] ok(2,3) by (simp_all add: storable_def patched_def)
  obtain ru w4 where u: "CompanyRepository_Update pg ctx ?c w3 = (ru, w4)" by fastforce
  from update_works [OF w3(1) v3 c(1,2) _ c(3) u] d(1) w3(2) have ru: "ru = None"
    and w4: "healthy w4" "outside w4 = outside w" "view ctx w4 = Some (with_revision ?c l)" by auto
  have "company_ok (stored ?c)" using admissible_company_ok [OF l, of "Updated ?c"] c d(1) by auto
  moreover have "outbox (with_revision ?c l) = outbox l" by (simp add: with_revision_def)
  ultimately obtain w5 where p: "Service_publish psvc ctx EventCompanyUpdated ?c w4 = (None, w5)" "healthy w5"
    using publish_works [OF w4(1,3), where ch = "Updated ?c"] d(2) w3(3) fresh w4(2)
    by (auto simp: writable_def)
  with g rg f t ap u ru have run: "patch_in_tx rt psvc (ID d) input ctx w = (Inr ?c, w5)"
    by (simp add: patch_in_tx_def psvc_defs)
  from inside_outcomes(2) [OF v tx run] p(2) run show ?thesis
    by (auto simp: inside_outcome_def did_patch_def)
qed

text \<open>The use cases: what succeeds in its transaction succeeds.\<close>

lemma within_transaction_works:
  assumes "healthy w" and v: "view Background w = Some l"
    and fn: "\<And>t w1. healthy w1 \<Longrightarrow> view (tx_ctx t) w1 = Some l \<Longrightarrow> outside w1 = outside w \<Longrightarrow>
      \<exists>c w2 l'. fn (tx_ctx t) w1 = (Inr c, w2) \<and> healthy w2 \<and> view (tx_ctx t) w2 = Some l'
        \<and> P c \<and> recorded (ch c) l l'"
    and run: "Service_withinTransaction psvc Background fn w = (r, w')"
  shows "\<exists>c l'. r = Inr c \<and> P c \<and> recorded (ch c) l l' \<and> view Background w' = Some l' \<and> healthy w'"
proof -
  from run have "TransactionManager_WithinTransaction pg Background fn w = (r, w')"
    by (simp add: Service_withinTransaction_def psvc_defs)
  from transaction_works [where Q = "\<lambda>c l' s. P c \<and> recorded (ch c) l l'", OF assms(1) v _ this] fn
  show ?thesis by fastforce
qed

lemma CreateCompany_works:
  assumes "healthy w" and v: "view Background w = Some l"
    and c: "NewWithID 0 (i_ID input) (i_Name input) (i_Description input)
        (i_AmountOfEmployees input) (i_Registered input) (i_Type input) = Inr c"
      "storable c" "duplicate (members l) c = None"
    and fresh: "draw (outside w) \<notin> entry_id ` set (outbox l)"
    and run: "CreateCompany rt psvc Background input w = (r, w')"
  shows "\<exists>t l'. r = Inr (c\<lparr>CreatedAt := t, UpdatedAt := t\<rparr>)
    \<and> recorded (Created (c\<lparr>CreatedAt := t, UpdatedAt := t\<rparr>)) l l'
    \<and> view Background w' = Some l' \<and> healthy w'"
proof -
  obtain t w1 where t: "time_Now rt w = (t, w1)" by fastforce
  from clock_works [OF assms(1) t] have w1: "healthy w1" "outside w1 = outside w" "json_time_ok t" by auto
  have v1: "view Background w1 = Some l" using v time_leaves [of _ w] t by (simp add: ledger_view_def)
  let ?c = "c\<lparr>CreatedAt := t, UpdatedAt := t\<rparr>"
  from c(1) have new: "NewWithID t (i_ID input) (i_Name input) (i_Description input)
        (i_AmountOfEmployees input) (i_Registered input) (i_Type input) = Inr ?c"
    by (auto simp: NewWithID_eq trimmed_def valid_company_def Let_def split: if_splits)
  then have valid: "valid_company ?c" by (auto simp: NewWithID_Inr)
  have "storable ?c" "duplicate (members l) ?c = None" "writable ?c"
    using c(2,3) w1(3) by (auto simp: storable_def duplicate_def writable_def split: if_splits)
  note c' = this
  have inside: "\<exists>c' w2 l'. create_in_tx psvc ?c (tx_ctx u) w3 = (Inr c', w2) \<and> healthy w2
      \<and> view (tx_ctx u) w2 = Some l' \<and> c' = ?c \<and> recorded (Created c') l l'"
    if w3: "healthy w3" "view (tx_ctx u) w3 = Some l" "outside w3 = outside w1" for u w3
  proof -
    from fresh w1(2) w3(3) have "draw (outside w3) \<notin> entry_id ` set (outbox l)" by simp
    from create_in_tx_works [OF w3(1,2) tx_ctx_key valid c' this] show ?thesis by blast
  qed
  from run t new have "Service_withinTransaction psvc Background (create_in_tx psvc ?c) w1 = (r, w')"
    by (simp add: CreateCompany_def)
  from within_transaction_works [where P = "\<lambda>c'. c' = ?c" and ch = Created,
      OF w1(1) v1 inside this] show ?thesis by blast
qed

lemma PatchCompany_works:
  assumes "healthy w" and v: "view Background w = Some l"
    and d: "d \<in> set (members l)" "json_time_ok (CreatedAt d)"
    and ok: "patch_error (patch_of_input input) = None" "storable (patched 0 (patch_of_input input) d)"
      "\<not> name_taken l (ID d) (Name (patched 0 (patch_of_input input) d))"
    and fresh: "draw (outside w) \<notin> entry_id ` set (outbox l)"
    and run: "PatchCompany rt psvc Background (ID d) input w = (r, w')"
  shows "\<exists>t l'. r = Inr (patched t (patch_of_input input) d)
    \<and> recorded (Updated (patched t (patch_of_input input) d)) l l'
    \<and> view Background w' = Some l' \<and> healthy w'"
proof -
  from ok(1) have "\<not> IsEmpty (patch_of_input input)" by (auto simp: patch_error_def)
  with run have run: "Service_withinTransaction psvc Background (patch_in_tx rt psvc (ID d) input) w = (r, w')"
    by (simp add: PatchCompany_def)
  let ?P = "\<lambda>c. \<exists>t. c = patched t (patch_of_input input) d"
  have "\<exists>c w2 l'. patch_in_tx rt psvc (ID d) input (tx_ctx u) w1 = (Inr c, w2) \<and> healthy w2
      \<and> view (tx_ctx u) w2 = Some l' \<and> ?P c \<and> recorded (Updated c) l l'"
    if w1: "healthy w1" "view (tx_ctx u) w1 = Some l" "outside w1 = outside w" for u w1
  proof -
    from fresh w1(3) have "draw (outside w1) \<notin> entry_id ` set (outbox l)" by simp
    from patch_in_tx_works [OF w1(1,2) tx_ctx_key d ok this] show ?thesis by blast
  qed
  from within_transaction_works [where P = ?P and ch = Updated, OF assms(1) v this run]
  show ?thesis by blast
qed

lemma DeleteCompany_works:
  assumes "healthy w" and v: "view Background w = Some l"
    and c: "c \<in> set (members l)" "writable c"
    and fresh: "draw (outside w) \<notin> entry_id ` set (outbox l)"
    and run: "DeleteCompany psvc Background (ID c) w = (r, w')"
  shows "r = None \<and> (\<exists>l'. recorded (Deleted c) l l' \<and> view Background w' = Some l') \<and> healthy w'"
proof -
  obtain r0 where t: "Service_withinTransaction psvc Background (delete_in_tx psvc (ID c)) w = (r0, w')"
    and r: "r = (case r0 of Inl e \<Rightarrow> Some e | Inr c \<Rightarrow> None)"
    using run by (auto simp: DeleteCompany_def split: sum.splits prod.splits)
  have "\<exists>c' w2 l'. delete_in_tx psvc (ID c) (tx_ctx u) w1 = (Inr c', w2) \<and> healthy w2
      \<and> view (tx_ctx u) w2 = Some l' \<and> c' = c \<and> recorded (Deleted c') l l'"
    if w1: "healthy w1" "view (tx_ctx u) w1 = Some l" "outside w1 = outside w" for u w1
  proof -
    from fresh w1(3) have "draw (outside w1) \<notin> entry_id ` set (outbox l)" by simp
    from delete_in_tx_works [OF w1(1,2) tx_ctx_key c this] show ?thesis by blast
  qed
  from within_transaction_works [where P = "\<lambda>c'. c' = c" and ch = Deleted, OF assms(1) v this t]
  obtain l' where "r0 = Inr c" "recorded (Deleted c) l l'" "view Background w' = Some l'" "healthy w'"
    by blast
  with r show ?thesis by simp
qed

end

subsection \<open>Batches that deliver\<close>

text \<open>What the outbox still has to deliver.\<close>

definition waiting :: "ledger \<Rightarrow> entry list" where
  "waiting l = filter (\<lambda>en. en_published en = None) (outbox l)"

definition all_marked_published :: "(uuid \<times> mark) list \<Rightarrow> bool" where
  "all_marked_published marks \<longleftrightarrow> (\<forall>im\<in>set marks. \<exists>t. snd im = MarkedPublished t)"

lemma waiting_apply_marks:
  assumes "distinct (map fst marks)" and "all_marked_published marks"
  shows "waiting (apply_marks marks l) = filter (\<lambda>en. entry_id en \<notin> fst ` set marks) (waiting l)"
proof -
  define f where "f en = (case map_of marks (entry_id en) of None \<Rightarrow> en | Some m \<Rightarrow> mark_entry m en)" for en
  have f: "if entry_id en \<in> fst ` set marks then en_published (f en) \<noteq> None else f en = en" for en
  proof (cases "map_of marks (entry_id en)")
    case None
    then have "entry_id en \<notin> fst ` set marks" by (simp add: map_of_eq_None_iff)
    with None show ?thesis by (simp add: f_def)
  next
    case (Some m)
    then have "(entry_id en, m) \<in> set marks" by (rule map_of_SomeD)
    with assms(2) obtain t where "m = MarkedPublished t" by (fastforce simp: all_marked_published_def)
    with Some \<open>(entry_id en, m) \<in> set marks\<close> show ?thesis
      by (force simp: f_def marked_published_def)
  qed
  have "filter (\<lambda>en. en_published en = None) (map f xs)
      = filter (\<lambda>en. entry_id en \<notin> fst ` set marks) (filter (\<lambda>en. en_published en = None) xs)" for xs
  proof (induction xs)
    case (Cons en xs)
    then show ?case using f [of en] by (cases "entry_id en \<in> fst ` set marks") simp_all
  qed simp
  then show ?thesis by (simp add: waiting_def outbox_apply_marks [OF assms(1)] flip: f_def)
qed

lemma waiting_less:
  assumes l: "ledger_ok l" and due: "\<forall>en\<in>set (waiting l). en_available en \<le> t"
    and marks: "map fst marks = map entry_id (pending t n l)" "all_marked_published marks"
  shows "set (waiting (apply_marks marks l)) \<subseteq> set (waiting l)"
    and "length (waiting (apply_marks marks l)) = length (waiting l) - n"
proof -
  have dist: "distinct (map fst marks)" using marks(1) distinct_pending [OF l] by simp
  note w = waiting_apply_marks [OF dist marks(2), of l]
  from w show "set (waiting (apply_marks marks l)) \<subseteq> set (waiting l)" by auto
  have ids: "inj_on entry_id (set (outbox l))" and dw: "distinct (waiting l)"
    using l by (auto simp: ledger_ok_def distinct_map comp_def waiting_def)
  have p: "pending t n l = take n (sort_key (\<lambda>en. micros (OccurredAt (en_event en))) (waiting l))"
  proof -
    have "filter (due t) (outbox l) = waiting l"
      using due by (auto simp: waiting_def due_def intro!: filter_cong)
    then show ?thesis by (simp add: pending_def)
  qed
  then have sub: "set (pending t n l) \<subseteq> set (waiting l)" by (auto dest: in_set_takeD)
  have "distinct (pending t n l)" using dw by (simp add: p)
  with p have card: "card (set (pending t n l)) = min n (length (waiting l))"
    by (simp add: distinct_card)
  have "fst ` set marks = entry_id ` set (pending t n l)"
    using marks(1) by (metis image_set)
  then have "set (waiting (apply_marks marks l)) = set (waiting l) - set (pending t n l)"
    using w sub ids by (auto simp: waiting_def inj_on_def)
  moreover have "distinct (waiting (apply_marks marks l))" using w dw by simp
  ultimately show "length (waiting (apply_marks marks l)) = length (waiting l) - n"
    using card sub dw by (simp add: card_Diff_subset distinct_card flip: distinct_card)
qed

text \<open>
  The broker takes every event that can be written down, and a transaction begins at \<open>moment\<close> or
  later.
\<close>

locale working_publisher =
  publisher_database pg tables now sent lib message producer interval batchSize
  + working_database pg tables now sent lib healthy
  for pg :: "'w driver" and tables :: "executor \<Rightarrow> 'w \<Rightarrow> database option"
    and now :: "executor \<Rightarrow> 'w \<Rightarrow> time" and sent :: "'w \<Rightarrow> 'm list" and lib :: uuid_lib
    and message :: "event \<Rightarrow> 'm" and producer :: "'w EventProducer" and interval :: int
    and batchSize :: int and healthy :: "'w \<Rightarrow> bool" +
  fixes moment :: time
  assumes Publish_works: "healthy w \<Longrightarrow> json_safe_event ev \<Longrightarrow>
      Publish producer ctx ev w = (r6, w') \<Longrightarrow> healthy w' \<and> r6 = None"
    and moment_passed: "healthy w \<Longrightarrow> Begin pg w = (Inr t, w') \<Longrightarrow> moment \<le> now (TxExecutor t) w'"
begin

abbreviation pub :: "'w Publisher" where
  "pub \<equiv> outbox_publisher lib pg producer interval batchSize"

abbreviation batch :: nat where
  "batch \<equiv> unat (pub_batch pub)"

lemma fetch_works:
  assumes "healthy w" and v: "view ctx w = Some l"
  shows "\<exists>w'. OutboxRepository_FetchPending lib pg ctx n w =
      (Inr (map outbox_event_of (pending (now (executorFromContext ctx) w) (unat n) l)), w')
    \<and> healthy w' \<and> view ctx w' = Some l"
proof -
  let ?x = "executorFromContext ctx" and ?es = "pending (now (executorFromContext ctx) w) (unat n) l"
  obtain rq w1 where q: "Query pg ?x (outbox_select (unat n)) w = (rq, w1)" by fastforce
  from v have t: "tables ?x w = Some (conc lib l)" and l: "ledger_ok l" by (simp_all add: view_Some)
  have "\<forall>en\<in>set ?es. entry_ok en" using l set_pending by (fastforce simp: ledger_ok_def)
  note scan = scan_outbox_entries [OF lib_ok this, of "[]"]
  from Query_works [OF assms(1) t q] Query_answer [OF t q] have w1: "healthy w1"
    and "rq = Inr (map (\<lambda>en. [VUuid (entry_id en), VJson (payload lib (en_event en)),
           VInt (en_attempts en)]) ?es, None)"
    by (auto simp: exec_outbox_select query_answer_def split: sum.splits option.splits)
  with q scan have run: "OutboxRepository_FetchPending lib pg ctx n w = (Inr (map outbox_event_of ?es), w1)"
    by (simp add: OutboxRepository_FetchPending_def with_sql_def ToSql_works)
  with fetch_law [OF v run] w1 show ?thesis by blast
qed

lemma mark_published_works:
  assumes "healthy w" and v: "view ctx w = Some l"
  shows "\<exists>t w'. OutboxRepository_MarkPublished pg ctx i w = (None, w') \<and> healthy w'
    \<and> view ctx w' = Some (apply_mark (i, MarkedPublished t) l)"
proof -
  let ?x = "executorFromContext ctx"
  obtain re w1 where e: "Exec pg ?x (outbox_published i) w = (re, w1)" by fastforce
  from v have "ledger_ok l" by (simp add: view_Some)
  from exec_outbox_published [OF this, of "now ?x w" i lib] exec_works [OF assms(1) v e]
  obtain n where "re = Inr n" "healthy w1" by blast
  with e have run: "OutboxRepository_MarkPublished pg ctx i w = (None, w1)"
    by (simp add: OutboxRepository_MarkPublished_def with_sql_def ToSql_works)
  from mark_published_law [OF v run] run \<open>healthy w1\<close> show ?thesis by blast
qed

lemma publish_events_works:
  assumes "healthy w" and "view ctx w = Some l" and "\<forall>ev\<in>set evs. json_safe_event (o_Event ev)"
  shows "\<exists>marks w'. publish_events pub ctx evs w = (Inr (), w') \<and> healthy w'
    \<and> map fst marks = map o_ID evs \<and> all_marked_published marks
    \<and> view ctx w' = Some (apply_marks marks l)"
  using assms
proof (induction evs arbitrary: w l)
  case Nil
  then show ?case by (auto simp: all_marked_published_def intro!: exI [of _ "[]"])
next
  case (Cons ev evs)
  obtain rp w1 where p: "Publish producer ctx (o_Event ev) w = (rp, w1)" by fastforce
  from Publish_works [OF Cons.prems(1) _ p] Cons.prems(3) have w1: "healthy w1" "rp = None" by auto
  have v1: "view ctx w1 = Some l"
    using Cons.prems(2) Publish_leaves [of _ ctx "o_Event ev" w] p by (simp add: ledger_view_def)
  from mark_published_works [OF w1(1) v1] obtain t w2 where
    m: "OutboxRepository_MarkPublished pg ctx (o_ID ev) w1 = (None, w2)" and w2: "healthy w2"
    "view ctx w2 = Some (apply_mark (o_ID ev, MarkedPublished t) l)" by blast
  from Cons.IH [OF w2] Cons.prems(3) obtain marks w3 where
    ih: "publish_events pub ctx evs w2 = (Inr (), w3)" "healthy w3" "map fst marks = map o_ID evs"
      "all_marked_published marks"
      "view ctx w3 = Some (apply_marks marks (apply_mark (o_ID ev, MarkedPublished t) l))" by auto
  from p w1(2) m ih(1) have "publish_events pub ctx (ev # evs) w = (Inr (), w3)"
    by (simp add: publisher.p NewOutboxRepository_Queue_def)
  with ih(2-) show ?case
    by (intro exI [of _ "(o_ID ev, MarkedPublished t) # marks"] exI [of _ w3])
      (simp add: all_marked_published_def)
qed

text \<open>One batch takes its share of what waits.\<close>

lemma batch_works:
  assumes "healthy w" and v: "view Background w = Some l"
    and due: "\<forall>en\<in>set (waiting l). en_available en \<le> moment"
    and run: "ProcessBatch pub Background w = (r, w')"
  shows "\<exists>l'. r = Inr () \<and> healthy w' \<and> view Background w' = Some l'
    \<and> set (waiting l') \<subseteq> set (waiting l) \<and> length (waiting l') = length (waiting l) - batch
    \<and> members l' = members l \<and> map en_event (outbox l') = map en_event (outbox l)"
proof -
  from v have l: "ledger_ok l" by (simp add: view_Some)
  let ?Q = "\<lambda>a l' s. \<exists>u marks. moment \<le> u \<and> map fst marks = map entry_id (pending u batch l)
    \<and> all_marked_published marks \<and> l' = apply_marks marks l"
  have inside: "\<exists>a w2 l'. processBatch pub (tx_ctx t) w1 = (Inr a, w2) \<and> healthy w2
      \<and> view (tx_ctx t) w2 = Some l' \<and> ?Q a l' (sent w2)"
    if w1: "Begin pg w = (Inr t, w1)" "healthy w1" "view (tx_ctx t) w1 = Some l" for t w1
  proof -
    let ?es = "pending (now (TxExecutor t) w1) batch l"
    from fetch_works [OF w1(2,3), of "pub_batch pub"] obtain w2 where
      f: "OutboxRepository_FetchPending lib pg (tx_ctx t) (pub_batch pub) w1
        = (Inr (map outbox_event_of ?es), w2)" "healthy w2" "view (tx_ctx t) w2 = Some l" by auto
    have "json_safe_event (o_Event ev)" if "ev \<in> set (map outbox_event_of ?es)" for ev
      using that l set_pending by (fastforce simp: ledger_ok_def entry_ok_def outbox_event_of_def)
    then obtain marks w3 where p: "publish_events pub (tx_ctx t) (map outbox_event_of ?es) w2 = (Inr (), w3)"
      "healthy w3" "map fst marks = map o_ID (map outbox_event_of ?es)" "all_marked_published marks"
      "view (tx_ctx t) w3 = Some (apply_marks marks l)"
      using publish_events_works [OF f(2,3)] by blast
    have "processBatch pub (tx_ctx t) w1 = (Inr (), w3)"
      using f(1) p(1) by (simp add: processBatch_def publisher.p NewOutboxRepository_Queue_def)
    moreover have "map fst marks = map entry_id ?es" using p(3) by (simp add: outbox_event_of_def)
    ultimately show ?thesis using p(2,4,5) moment_passed [OF assms(1) w1(1)] by blast
  qed
  from run have "TransactionManager_WithinTransaction pg Background (processBatch pub) w = (r, w')"
    by (simp add: ProcessBatch_def publisher.p NewTransactionManager_def)
  from transaction_works [where Q = ?Q, OF assms(1) v inside this] obtain u marks where
    r: "r = Inr ()" "healthy w'" "view Background w' = Some (apply_marks marks l)" "moment \<le> u"
    "map fst marks = map entry_id (pending u batch l)" "all_marked_published marks" by fastforce
  have "\<forall>en\<in>set (waiting l). en_available en \<le> u" using due r(4) by fastforce
  from waiting_less [OF l this r(5,6)] r(1-3) show ?thesis by auto
qed

text \<open>Batch by batch the outbox empties, and everything that was in it has been sent.\<close>

lemma ticks_work:
  assumes "healthy w" and "view Background w = Some l" and "delivered message l (sent w)"
    and "\<forall>en\<in>set (waiting l). en_available en \<le> moment"
  shows "\<exists>l'. healthy (run_loop pub Background (replicate k Tick) w)
    \<and> view Background (run_loop pub Background (replicate k Tick) w) = Some l'
    \<and> delivered message l' (sent (run_loop pub Background (replicate k Tick) w))
    \<and> length (waiting l') = length (waiting l) - k * batch
    \<and> members l' = members l \<and> map en_event (outbox l') = map en_event (outbox l)"
  using assms
proof (induction k arbitrary: w l)
  case (Suc k)
  obtain r w1 where run: "ProcessBatch pub Background w = (r, w1)" by fastforce
  from batch_works [OF Suc.prems(1,2,4) run] obtain l1 where w1: "healthy w1" "view Background w1 = Some l1"
    and l1: "set (waiting l1) \<subseteq> set (waiting l)" "length (waiting l1) = length (waiting l) - batch"
      "members l1 = members l" "map en_event (outbox l1) = map en_event (outbox l)" by blast
  from Suc.prems(2) have "ledger_ok l" by (simp add: view_Some)
  from publisher.ProcessBatch_outcome [OF Suc.prems(2) this Suc.prems(3) run] w1(2)
  have "delivered message l1 (sent w1)" by auto
  from Suc.IH [OF w1 this] l1(1) Suc.prems(4) obtain l2 where
    "healthy (run_loop pub Background (replicate k Tick) w1)"
    "view Background (run_loop pub Background (replicate k Tick) w1) = Some l2"
    "delivered message l2 (sent (run_loop pub Background (replicate k Tick) w1))"
    "length (waiting l2) = length (waiting l1) - k * batch" "members l2 = members l1"
    "map en_event (outbox l2) = map en_event (outbox l1)" by blast
  with run l1 show ?case by (auto simp: processAndLog_def)
qed auto

lemma Run_works:
  assumes "healthy w" and "view Background w = Some l" and "delivered message l (sent w)"
    and "\<forall>en\<in>set (waiting l). en_available en \<le> moment" and "length (waiting l) \<le> Suc k * batch"
    and w': "w' = Run pub Background (replicate k Tick) w"
  shows "\<exists>l'. view Background w' = Some l' \<and> members l' = members l
    \<and> map en_event (outbox l') = map en_event (outbox l)
    \<and> (\<forall>en\<in>set (outbox l'). en_published en \<noteq> None \<and> message (en_event en) \<in> set (sent w'))"
proof -
  have "w' = run_loop pub Background (replicate (Suc k) Tick) w" by (simp add: w' Run_def)
  with ticks_work [OF assms(1-4), of "Suc k"] assms(5) obtain l' where
    l': "view Background w' = Some l'" "delivered message l' (sent w')" "waiting l' = []"
      "members l' = members l" "map en_event (outbox l') = map en_event (outbox l)" by auto
  then have "\<forall>en\<in>set (outbox l'). en_published en \<noteq> None" by (auto simp: waiting_def filter_empty_conv)
  with l' show ?thesis by (auto simp: delivered_def)
qed

end

end
