(* ===== verification/Liveness.thy ===== *)
theory Liveness
  imports Progress
begin

text \<open>
  The use cases and the publisher get their work done when nothing is in the way: the properties,
  and the reference world without faults as a world to which they apply.
\<close>

subsection \<open>The reference world without faults\<close>

definition world_healthy :: "time \<Rightarrow> world \<Rightarrow> bool" where
  "world_healthy moment w \<longleftrightarrow> faults w = [] \<and> broker_faults w = [] \<and> json_time_ok (wall_clock w)
     \<and> moment \<le> db_clock w"

lemma world_healthy_put_tables:
  "world_healthy m (put_tables x d w) \<longleftrightarrow> world_healthy m w"
  by (simp add: world_healthy_def put_tables_def split: executor.split option.split)

text \<open>A statement runs, or is refused for its own fault.\<close>

lemma run_works:
  assumes "world_healthy m w" and "server_tables x w = Some db" and "run x st w = (r, w')"
  shows "world_healthy m w' \<and> (\<forall>e. r = Inl e \<longrightarrow> sql_exec (server_now x w) st db = Inl e)
    \<and> (\<forall>rows n. r = Inr (rows, n) \<longrightarrow> (\<exists>db'. sql_exec (server_now x w) st db = Inr (rows, n, db')))"
proof -
  from assms(1) have "next_fault w = (Works, w)" by (simp add: next_fault_def world_healthy_def)
  with assms show ?thesis
    by (auto simp: run_def world_healthy_put_tables split: sum.splits)
qed

lemma reference_database_works:
  assumes "company_database reference_driver server_tables server_now f canonical_uuids"
  shows "working_database reference_driver server_tables server_now f canonical_uuids (world_healthy m)"
proof (intro working_database.intro working_database_axioms.intro assms)
  show "ToSql reference_driver st = None" for st :: stmt
    by (simp add: reference_driver_def)
next
  fix w w' :: world and x st db and r :: "goerr + nat"
  assume w: "world_healthy m w" "server_tables x w = Some db"
    and e: "Exec reference_driver x st w = (r, w')"
  obtain r0 w1 where "run x st w = (r0, w1)" by fastforce
  with run_works [OF w this] e
  show "world_healthy m w' \<and> (\<forall>e. r = Inl e \<longrightarrow> sql_exec (server_now x w) st db = Inl e)"
    by (cases r0) (auto simp: reference_driver_def map_result_def)
next
  fix w w' :: world and x st db and r :: "goerr + sqlval list list \<times> goerr option"
  assume w: "world_healthy m w" "server_tables x w = Some db"
    and e: "Query reference_driver x st w = (r, w')"
  obtain r0 w1 where "run x st w = (r0, w1)" by fastforce
  with run_works [OF w this] e
  show "world_healthy m w' \<and> (\<forall>e. r = Inl e \<longrightarrow> sql_exec (server_now x w) st db = Inl e)
      \<and> (\<forall>rows e. r \<noteq> Inr (rows, Some e))"
    by (cases r0) (auto simp: reference_driver_def map_result_def)
next
  fix w w' :: world and x st db and r :: "goerr + sqlval list"
  assume w: "world_healthy m w" "server_tables x w = Some db"
    and e: "QueryRow reference_driver x st w = (r, w')"
  obtain r0 w1 where "run x st w = (r0, w1)" by fastforce
  with run_works [OF w this] e
  show "world_healthy m w' \<and> (\<forall>e. r = Inl e \<longrightarrow> sql_exec (server_now x w) st db = Inl e
      \<or> e = ErrNoRows \<and> (\<exists>n db'. sql_exec (server_now x w) st db = Inr ([], n, db')))"
    by (cases r0) (auto simp: reference_driver_def map_result_def split: list.splits)
next
  fix w w' :: world and r
  assume "world_healthy m w" "Begin reference_driver w = (r, w')"
  then show "world_healthy m w' \<and> (\<exists>t. r = Inr t)"
    by (auto simp: reference_driver_def server_begin_def next_fault_def world_healthy_def)
next
  fix w w' :: world and t r
  assume "world_healthy m w" "server_tables (TxExecutor t) w \<noteq> None"
    "Commit reference_driver t w = (r, w')"
  then show "world_healthy m w' \<and> r = None"
    by (auto simp: reference_driver_def server_commit_def next_fault_def world_healthy_def Let_def)
qed

interpretation reference_drawing: company_database reference_driver server_tables server_now
    "uuid_count :: world \<Rightarrow> nat" canonical_uuids
  by (rule reference_database) (rule uuid_count_more)

interpretation reference_working: working_service reference_driver server_tables server_now
    uuid_count canonical_uuids world_runtime "world_healthy m" "\<lambda>n. of_nat (Suc n)" for m
proof (intro working_service.intro working_service_axioms.intro)
  show "service_database reference_driver server_tables server_now uuid_count canonical_uuids world_runtime"
    by unfold_locales (simp_all add: world_runtime_def)
  show "working_database reference_driver server_tables server_now uuid_count canonical_uuids (world_healthy m)"
    by (rule reference_database_works) (rule reference_drawing.company_database_axioms)
qed (auto simp: world_runtime_def world_healthy_def json_time_ok_def last_instant_def)

lemma world_producer_works:
  assumes "world_healthy m w" and "json_safe_event ev" and "Publish world_producer ctx ev w = (r, w')"
  shows "world_healthy m w' \<and> r = None"
proof -
  from assms(2) obtain v where "marshal_kafkaEvent (toKafkaEvent canonical_uuids ev) = Inr v"
    by (cases "marshal_kafkaEvent (toKafkaEvent canonical_uuids ev)")
      (auto simp: marshal_kafkaEvent_def toKafkaEvent_def json_safe_event_def json_safe_company_def
        marshal_time_def marshal_eventCompany_def split: option.splits if_splits sum.splits)
  with assms(1,3) show ?thesis
    by (auto simp: world_producer_def kafka_event_producer_def NewKafkaProducer_def
        KafkaProducer_Publish_def world_writer_def world_write_def world_healthy_def Let_def try_cmd_def
        split: prod.splits option.splits)
qed

interpretation reference_delivering: working_publisher reference_driver server_tables server_now broker
    canonical_uuids world_message world_producer interval batchSize "world_healthy m" m
    for interval batchSize :: int and m
proof (intro working_publisher.intro working_publisher_axioms.intro)
  show "publisher_database reference_driver server_tables server_now broker canonical_uuids
      world_message world_producer"
    by (rule reference_broker.publisher_database_axioms)
  show "working_database reference_driver server_tables server_now broker canonical_uuids (world_healthy m)"
    by (rule reference_database_works) (rule reference_sent.company_database_axioms)
  show "m \<le> server_now (TxExecutor t) w'"
    if "world_healthy m w" "Begin reference_driver w = (Inr t, w')" for w w' :: world and t
    using that by (auto simp: reference_driver_def server_begin_def next_fault_def world_healthy_def
        server_now_def)
qed (use world_producer_works in blast)+

subsection \<open>The use cases succeed\<close>

text \<open>The laws for any working service and any working publisher.\<close>

lemmas create_success = working_service.CreateCompany_works
lemmas patch_success = working_service.PatchCompany_works
lemmas delete_success = working_service.DeleteCompany_works
lemmas run_success = working_publisher.Run_works

lemma not_duplicate:
  "ID c \<notin> ID ` set cs \<Longrightarrow> Name c \<notin> Name ` set cs \<Longrightarrow> duplicate cs c = None"
  by (simp add: duplicate_def)

text \<open>
  When database and clock work, creating a company with acceptable fields succeeds:
  if the fields satisfy the rules of the domain, the server can hold them, neither the id nor the
  name is taken, and the random source draws an unused id for the event, then the answer is the
  company, and it and its event are stored.
\<close>

theorem CreateCompany_completes:
  assumes "working_service pg tables now outside lib rt healthy draw"
    and "healthy w" and "ledger_view lib tables Background w = Some l"
    and "NewWithID 0 (i_ID input) (i_Name input) (i_Description input)
        (i_AmountOfEmployees input) (i_Registered input) (i_Type input) = Inr c"
    and "storable c" and "ID c \<notin> ID ` set (members l)" and "Name c \<notin> Name ` set (members l)"
    and "draw (outside w) \<notin> entry_id ` set (outbox l)"
    and "CreateCompany rt (postgres_service lib pg rt) Background input w = (r, w')"
  shows "\<exists>t l'. r = Inr (c\<lparr>CreatedAt := t, UpdatedAt := t\<rparr>)
    \<and> recorded (Created (c\<lparr>CreatedAt := t, UpdatedAt := t\<rparr>)) l l'
    \<and> ledger_view lib tables Background w' = Some l' \<and> healthy w'"
  by (rule create_success [OF assms(1-5) not_duplicate [OF assms(6,7)] assms(8,9)])

text \<open>
  When database and clock work, patching succeeds: if the company is there, there is
  nothing to complain about in the patch, the server can hold the result, its name belongs to no
  other company, and the event gets an unused id, then the answer is the company with the supplied
  fields replaced, and the revision and its event are stored.
\<close>

theorem PatchCompany_completes:
  assumes "working_service pg tables now outside lib rt healthy draw"
    and "healthy w" and "ledger_view lib tables Background w = Some l"
    and "d \<in> set (members l)" and "json_time_ok (CreatedAt d)"
    and "patch_error (patch_of_input input) = None"
    and "storable (patched 0 (patch_of_input input) d)"
    and "\<not> name_taken l (ID d) (Name (patched 0 (patch_of_input input) d))"
    and "draw (outside w) \<notin> entry_id ` set (outbox l)"
    and "PatchCompany rt (postgres_service lib pg rt) Background (ID d) input w = (r, w')"
  shows "\<exists>t l'. r = Inr (patched t (patch_of_input input) d)
    \<and> recorded (Updated (patched t (patch_of_input input) d)) l l'
    \<and> ledger_view lib tables Background w' = Some l' \<and> healthy w'"
  by (rule patch_success [OF assms])

text \<open>
  When database and clock work, deleting a company that is there succeeds, and its
  event is stored.
\<close>

theorem DeleteCompany_completes:
  assumes "working_service pg tables now outside lib rt healthy draw"
    and "healthy w" and "ledger_view lib tables Background w = Some l"
    and "c \<in> set (members l)" and "writable c"
    and "draw (outside w) \<notin> entry_id ` set (outbox l)"
    and "DeleteCompany (postgres_service lib pg rt) Background (ID c) w = (r, w')"
  shows "r = None
    \<and> (\<exists>l'. recorded (Deleted c) l l' \<and> ledger_view lib tables Background w' = Some l') \<and> healthy w'"
  by (rule delete_success [OF assms])

subsection \<open>The outbox empties\<close>

text \<open>
  When database and broker work, the publisher empties the outbox.  If everything that
  waits is due when a batch begins and the first batch and \<open>k\<close> ticks have room for all of it, then
  after them every event of the outbox has been sent, and every entry is marked as published; the
  companies and the recorded events are what they were.
\<close>

theorem Run_empties_outbox:
  assumes "working_publisher pg tables now sent lib message producer healthy moment"
    and "healthy w" and "ledger_view lib tables Background w = Some l"
    and "delivered message l (sent w)"
    and "\<forall>en\<in>set (waiting l). en_available en \<le> moment"
    and "length (waiting l)
      \<le> Suc k * unat (pub_batch (outbox_publisher lib pg producer interval batchSize))"
    and "w' = Run (outbox_publisher lib pg producer interval batchSize) Background (replicate k Tick) w"
  shows "\<exists>l'. ledger_view lib tables Background w' = Some l' \<and> members l' = members l
    \<and> map en_event (outbox l') = map en_event (outbox l)
    \<and> (\<forall>en\<in>set (outbox l'). en_published en \<noteq> None \<and> message (en_event en) \<in> set (sent w'))"
  by (rule run_success [OF assms])

subsection \<open>In the world with one company\<close>

lemma acme_world_healthy [simp]: "world_healthy 0 acme_world"
  by (simp add: world_healthy_def acme_world_def empty_world_def json_time_ok_def)

lemma acme_world_draws:
  "(\<lambda>n. of_nat (Suc n)) (uuid_count acme_world) \<notin> entry_id ` set (outbox acme_ledger)"
  by (simp add: acme_world_def acme_ledger_def acme_entry_def)

lemmas reference_working_service = reference_working.working_service_axioms
lemmas reference_working_publisher = reference_delivering.working_publisher_axioms

theorem CreateCompany_completes_witness:
  "\<exists>r w' t l'. CreateCompany world_runtime world_service Background bolt_input acme_world = (r, w')
    \<and> r = Inr (bolt\<lparr>CreatedAt := t, UpdatedAt := t\<rparr>)
    \<and> recorded (Created (bolt\<lparr>CreatedAt := t, UpdatedAt := t\<rparr>)) acme_ledger l'
    \<and> ledger_view canonical_uuids server_tables Background w' = Some l' \<and> world_healthy 0 w'"
proof -
  obtain r w' where run: "CreateCompany world_runtime world_service Background bolt_input acme_world = (r, w')"
    by fastforce
  have "NewWithID 0 (i_ID bolt_input) (i_Name bolt_input) (i_Description bolt_input)
      (i_AmountOfEmployees bolt_input) (i_Registered bolt_input) (i_Type bolt_input) = Inr bolt"
    by (simp add: NewWithID_Inr trimmed_def bolt_input_def bolt_def valid_company_def valid_name_def
        valid_description_def IsValid_iff type_defs)
  moreover have "storable bolt"
    by (simp add: storable_def text_ok_def bolt_def byte_def int4_ok_def)
  moreover have "ID bolt \<notin> ID ` set (members acme_ledger)" "Name bolt \<notin> Name ` set (members acme_ledger)"
    by (simp_all add: bolt_def acme_ledger_def acme_def)
  ultimately show ?thesis
    using CreateCompany_completes [OF reference_working_service acme_world_healthy acme_view _ _ _ _
        acme_world_draws run] run by blast
qed

theorem PatchCompany_completes_witness:
  "\<exists>r w' t l'. PatchCompany world_runtime world_service Background 1 acme_patch_input acme_world = (r, w')
    \<and> r = Inr (acme\<lparr>Name := ''Bolt'', AmountOfEmployees := 0, UpdatedAt := t\<rparr>)
    \<and> recorded (Updated (acme\<lparr>Name := ''Bolt'', AmountOfEmployees := 0, UpdatedAt := t\<rparr>)) acme_ledger l'
    \<and> ledger_view canonical_uuids server_tables Background w' = Some l' \<and> world_healthy 0 w'"
proof -
  let ?p = "patch_of_input acme_patch_input"
  have id: "ID acme = 1" by (simp add: acme_def)
  obtain r w' where run: "PatchCompany world_runtime world_service Background 1 acme_patch_input acme_world = (r, w')"
    by fastforce
  have patched: "patched t ?p acme = acme\<lparr>Name := ''Bolt'', AmountOfEmployees := 0, UpdatedAt := t\<rparr>" for t
    by (simp add: patched_def patch_of_input_def acme_patch_input_def acme_def)
  have "storable (acme\<lparr>Name := ''Bolt'', AmountOfEmployees := 0, UpdatedAt := 0\<rparr>)"
    by (simp add: storable_def text_ok_def acme_def byte_def int4_ok_def)
  then have "storable (patched 0 ?p acme)" by (simp only: patched)
  moreover have "\<not> name_taken acme_ledger (ID acme) (Name (patched 0 ?p acme))"
    by (simp add: name_taken_def acme_ledger_def)
  moreover have "acme \<in> set (members acme_ledger)" "json_time_ok (CreatedAt acme)"
    by (simp_all add: acme_ledger_def acme_def json_time_ok_def)
  moreover have "patch_error ?p = None"
    by (simp add: patch_error_None patch_of_input_def acme_patch_input_def IsEmpty_def complaint_Nil
        valid_name_def)
  ultimately show ?thesis
    using PatchCompany_completes [OF reference_working_service acme_world_healthy acme_view _ _ _ _ _
        acme_world_draws, of acme acme_patch_input] run unfolding id patched by blast
qed

theorem DeleteCompany_completes_witness:
  "\<exists>w' l'. DeleteCompany world_service Background 1 acme_world = (None, w')
    \<and> recorded (Deleted acme) acme_ledger l'
    \<and> ledger_view canonical_uuids server_tables Background w' = Some l' \<and> world_healthy 0 w'"
proof -
  have id: "ID acme = 1" by (simp add: acme_def)
  obtain r w' where run: "DeleteCompany world_service Background 1 acme_world = (r, w')" by fastforce
  have "acme \<in> set (members acme_ledger)" "writable acme"
    by (simp_all add: acme_ledger_def acme_def json_time_ok_def writable_def)
  then show ?thesis
    using DeleteCompany_completes [OF reference_working_service acme_world_healthy acme_view _ _
        acme_world_draws, of acme] run unfolding id by blast
qed

theorem Run_empties_outbox_witness:
  "\<exists>l'. ledger_view canonical_uuids server_tables Background (Run (outbox_publisher canonical_uuids
        reference_driver world_producer 0 10) Background [] acme_world) = Some l'
    \<and> members l' = [acme] \<and> map en_event (outbox l') = [en_event acme_entry]
    \<and> (\<forall>en\<in>set (outbox l'). en_published en \<noteq> None \<and> world_message (en_event en) \<in> set (broker
        (Run (outbox_publisher canonical_uuids reference_driver world_producer 0 10) Background []
          acme_world)))"
proof -
  have l: "members acme_ledger = [acme]" "map en_event (outbox acme_ledger) = [en_event acme_entry]"
    "outbox acme_ledger = [acme_entry]" by (simp_all add: acme_ledger_def)
  have "delivered world_message acme_ledger (broker acme_world)"
    by (simp add: delivered_def l acme_entry_def)
  moreover have "\<forall>en\<in>set (waiting acme_ledger). en_available en \<le> 0" "length (waiting acme_ledger) \<le> 10"
    by (simp_all add: waiting_def l acme_entry_def new_entry_def micros_def)
  moreover have "unat (pub_batch (outbox_publisher canonical_uuids reference_driver world_producer 0 10)) = 10"
    by (simp add: outbox_publisher_def NewPublisher_def)
  ultimately show ?thesis
    using Run_empties_outbox [where interval = 0 and batchSize = 10 and k = 0,
        OF reference_working_publisher acme_world_healthy acme_view _ _ _ refl] by (simp add: l)
qed

end
