(* ===== verification/Recovery.thy ===== *)
theory Recovery
  imports Lives Liveness
begin

text \<open>
  Recovery: whatever the program has been through in its former lives, once it is started with a
  working database and a working producer, its publisher sends what they have left behind.
\<close>

text \<open>
  Property C16: no event is lost for good.  The program has been started and stopped any number of
  times, with any failures, from a database with sound data; now it is started again.  If the
  database and the producer work from here on, what waits is due, and the first batch and \<open>k\<close> ticks
  of \<^verbatim>\<open>Run\<close> have room for it, then every event that any of its lives has recorded has been sent and
  is marked as published; the companies and the recorded events are what the former lives left.
\<close>

theorem every_event_is_sent_in_the_end:
  assumes world: "program_world pg tables now sent lib new_writer logger rt env jwt chi matches_path
      swagger ping pgx opened handle server_Shutdown"
    and cfg: "Load fl environment = Inr cfg"
    and sound: "data_sound lib tables (published_as lib (Events cfg)) sent w0"
    and lives: "list_all (life_allowed env) lives"
      "run_lives (api_main fl pgx logger new_writer jwt chi swagger server_Shutdown lib rt environment)
        lives w0 = w"
    and start: "api_start fl pgx logger new_writer jwt chi swagger lib rt environment w = (Inr app, w1)"
    and works: "working_publisher pg tables now sent lib (published_as lib (Events cfg))
      (app_producer app) healthy moment" "healthy w1"
    and led: "ledger_view lib tables Background w = Some l"
    and due: "\<forall>en\<in>set (waiting l). en_available en \<le> moment"
    and room: "length (waiting l) \<le> Suc k * unat (pub_batch (app_publisher app))"
    and run: "w' = Run (app_publisher app) Background (replicate k Tick) w1"
  shows "\<exists>l'. ledger_view lib tables Background w' = Some l' \<and> members l' = members l
    \<and> map en_event (outbox l') = map en_event (outbox l)
    \<and> (\<forall>en\<in>set (outbox l'). en_published en \<noteq> None
        \<and> published_as lib (Events cfg) (en_event en) \<in> set (sent w'))"
proof -
  let ?sound = "data_sound lib tables (published_as lib (Events cfg)) sent"
  have "?sound w" using program_world.run_lives_kept [OF world cfg lives(1) sound] lives(2) by simp
  moreover have calm: "calm tables sent w w1"
    using program_world.api_start_calm [OF world, of w fl environment] start by simp
  ultimately have "?sound w1" by (blast intro: calm_sound)
  moreover have led1: "ledger_view lib tables Background w1 = Some l"
    using calm led by (simp add: calm_def ledger_view_def)
  ultimately have delivered: "delivered (published_as lib (Events cfg)) l (sent w1)"
    by (auto simp: data_sound_def sound_def)
  from api_start_Inr [OF start] cfg have np: "NewPool pgx Background (Database cfg) w = (Inr (app_pool app), w1)"
    and pub: "app_publisher app = outbox_publisher lib (pool_driver (app_pool app)) (app_producer app)
      (OutboxPollInterval (Events cfg)) (OutboxBatchSize (Events cfg))"
    by (metis sum.inject(2))+
  from program_world.pool_parts(1) [OF world np] pub have
    pub': "app_publisher app = outbox_publisher lib pg (app_producer app)
      (OutboxPollInterval (Events cfg)) (OutboxBatchSize (Events cfg))" by simp
  show ?thesis
    using run_success [OF works(1) works(2) led1 delivered due room [unfolded pub'] run [unfolded pub']] .
qed

subsection \<open>In the world with one company\<close>

lemma acme_world_data:
  "data_sound canonical_uuids server_tables message broker acme_world"
  by (auto simp: data_sound_def sound_def)

lemma logging_works:
  assumes "Producer cfg = ''log''"
  shows "working_publisher reference_driver server_tables server_now broker canonical_uuids
    (published_as canonical_uuids cfg) (NewLogProducer canonical_uuids world_logger) (world_healthy m) m"
proof (intro working_publisher.intro working_publisher_axioms.intro)
  show "publisher_database reference_driver server_tables server_now broker canonical_uuids
      (published_as canonical_uuids cfg) (NewLogProducer canonical_uuids world_logger)"
    by (rule reference_configured.configured) (rule sample_log_producer [OF assms])
  show "working_database reference_driver server_tables server_now broker canonical_uuids (world_healthy m)"
    by (rule reference_database_works) (rule reference_sent.company_database_axioms)
  show "m \<le> server_now (TxExecutor t) w'"
    if "world_healthy m w" "Begin reference_driver w = (Inr t, w')" for w w' :: world and t
    using that by (auto simp: reference_driver_def server_begin_def next_fault_def world_healthy_def
        server_now_def)
  show "world_healthy m w' \<and> r = None"
    if "world_healthy m w" "Publish (NewLogProducer canonical_uuids world_logger) ctx ev w = (r, w')"
    for w w' r ctx ev
    using that by (auto simp: LogProducer_Publish_def world_logger_def world_healthy_def)
qed

theorem every_event_is_sent_in_the_end_witness:
  "\<exists>app w1 l' (cfg :: Config). api_start (\<lambda>f u s. 0) sample_pgx world_logger world_writer sample_jwt first_match
        healthz canonical_uuids world_runtime sample_environment acme_world = (Inr app, w1)
    \<and> ledger_view canonical_uuids server_tables Background
        (Run (app_publisher app) Background [] w1) = Some l'
    \<and> map en_event (outbox l') = [en_event acme_entry]
    \<and> (\<forall>en\<in>set (outbox l'). published_as canonical_uuids (Events cfg) (en_event en)
        \<in> set (broker (Run (app_publisher app) Background [] w1)))"
proof -
  obtain cfg where cfg: "Load (\<lambda>f u s. 0) sample_environment = Inr cfg" "Producer (Events cfg) = ''log''"
    by (rule sample_config)
  let ?w1 = "acme_world\<lparr>open_pools := 1\<rparr>"
  have "NewPool sample_pgx Background (Database cfg) acme_world = (Inr sample_pool, ?w1)"
    by (simp add: NewPool_def sample_pgx_def sample_pool_def acme_world_def empty_world_def Let_def)
  with cfg(1) sample_log_producer [OF cfg(2), of canonical_uuids world_logger world_writer]
  obtain app where start: "api_start (\<lambda>f u s. 0) sample_pgx world_logger world_writer sample_jwt first_match
      healthz canonical_uuids world_runtime sample_environment acme_world = (Inr app, ?w1)"
    and producer: "app_producer app = NewLogProducer canonical_uuids world_logger"
    and pub: "app_publisher app = outbox_publisher canonical_uuids reference_driver
      (NewLogProducer canonical_uuids world_logger) (OutboxPollInterval (Events cfg))
      (OutboxBatchSize (Events cfg))"
    by (simp add: api_start_def Let_def sample_pool_def)
  have "OutboxBatchSize (Events cfg) = 10"
    using cfg(1) by (auto simp: Load_def sample_environment_def getInt_def Let_def)
  with pub have "unat (pub_batch (app_publisher app)) = 10"
    by (simp add: outbox_publisher_def NewPublisher_def)
  moreover have l: "map en_event (outbox acme_ledger) = [en_event acme_entry]"
    "waiting acme_ledger = [acme_entry]" "en_available acme_entry \<le> 0"
    by (simp_all add: acme_ledger_def waiting_def acme_entry_def new_entry_def micros_def)
  moreover have "world_healthy 0 ?w1"
    using acme_world_healthy by (simp add: world_healthy_def acme_world_def)
  ultimately obtain l' where "ledger_view canonical_uuids server_tables Background
        (Run (app_publisher app) Background [] ?w1) = Some l'"
      "map en_event (outbox l') = [en_event acme_entry]"
      "\<forall>en\<in>set (outbox l'). published_as canonical_uuids (Events cfg) (en_event en)
        \<in> set (broker (Run (app_publisher app) Background [] ?w1))"
    using every_event_is_sent_in_the_end [where k = 0 and lives = "[]", OF sample_program.program_world_axioms
        cfg(1) acme_world_data _ _ start logging_works [OF cfg(2), of 0, folded producer] _ acme_view _ _ refl]
    by (auto simp: run_lives_def)
  with start show ?thesis by (intro exI [of _ app] exI [of _ ?w1] exI [of _ l'] exI [of _ cfg] conjI)
qed

end
