(* ===== verification/HttpPromises.thy ===== *)
theory HttpPromises
  imports HttpHandlers System
begin

text \<open>
  What the four handlers of \<^verbatim>\<open>internal/interfaces/http/handlers.go\<close> answer, in full: for every
  request the status, the document of the body and what has become of the data.  Each promise is an
  inductive predicate with one rule per documented answer; it is stated over the request, the ledger
  and the documents, without the handlers' own conversions.
\<close>

subsection \<open>Documents\<close>

text \<open>The document of a company, an error, and an error with complaints about fields.\<close>

definition company_document :: "uuid_lib \<Rightarrow> company \<Rightarrow> json" where
  "company_document lib c = JObj
     [(''id'', JStr (uuid_String lib (ID c))), (''name'', JStr (Name c)),
      (''description'', JStr (Description c)), (''amount_of_employees'', JInt (AmountOfEmployees c)),
      (''registered'', JBool (Registered c)), (''type'', JStr (Type c)),
      (''created_at'', JTime (CreatedAt c)), (''updated_at'', JTime (UpdatedAt c))]"

definition error_document :: "string \<Rightarrow> json" where
  "error_document message = JObj [(''error'', JStr message)]"

definition complaints_document :: "(string \<rightharpoonup> string) \<Rightarrow> json \<Rightarrow> bool" where
  "complaints_document complaints d \<longleftrightarrow>
     (\<exists>fs. d = JObj [(''error'', JStr ''validation failed''),
         (''fields'', JObj (map (\<lambda>(k, v). (k, JStr v)) fs))]
       \<and> sorted (map fst fs) \<and> distinct (map fst fs) \<and> map_of fs = complaints)"

lemma error_body [simp]:
  assumes "ascii msg"
  shows "error_message msg = Some (Inr (error_document msg))"
  using assms by (simp add: error_message_def encode_error_def error_document_def ValidString_ascii)

text \<open>The complaints are plain texts, each field named once.\<close>

definition plain_fields :: "fields \<Rightarrow> bool" where
  "plain_fields fs \<longleftrightarrow> distinct (map fst fs) \<and> (\<forall>(k, v)\<in>set fs. ascii k \<and> ascii v)"

lemma set_set_field: "set (set_field k v fs) \<subseteq> insert (k, v) (set fs)"
  by (induction fs) (auto simp: set_field_def)

lemma plain_fields_Nil [simp]: "plain_fields []"
  by (simp add: plain_fields_def)

lemma plain_set_field [simp]:
  "plain_fields fs \<Longrightarrow> ascii k \<Longrightarrow> ascii v \<Longrightarrow> plain_fields (set_field k v fs)"
  using set_set_field [of k v fs] by (auto simp: plain_fields_def set_field_def distinct_update)

lemma plain_validation_fields [simp]:
  "plain_fields fs \<Longrightarrow> plain_fields (validateName n fs)"
  "plain_fields fs \<Longrightarrow> plain_fields (validateDescription d fs)"
  "plain_fields fs \<Longrightarrow> plain_fields (validateAmountOfEmployees a fs)"
  "plain_fields fs \<Longrightarrow> plain_fields (validateType t fs)"
  by (simp_all add: validateName_def validateDescription_def validateAmountOfEmployees_def
      validateType_def byte_def)

lemma plain_violations [simp]: "plain_fields (validation_fields c)"
  unfolding validation_fields_def by (intro plain_validation_fields) (simp add: plain_fields_def byte_def)

lemma plain_patch_error: "patch_error p = Some (ValidationError fs) \<Longrightarrow> plain_fields fs \<and> fs \<noteq> []"
  by (auto simp: patch_error_def complaint_defs split: if_splits option.splits)

lemma complaints_document_fields:
  assumes "plain_fields fs" and "fs \<noteq> []"
  shows "\<exists>d. encode_error \<lparr>er_Error = ''validation failed'', er_Fields = fs\<rparr> = Inr d
    \<and> complaints_document (map_of fs) d"
proof -
  let ?fs = "sort_key fst fs"
  have "map (\<lambda>(k, v). (ToValidUTF8 k, JStr (ToValidUTF8 v))) ?fs = map (\<lambda>(k, v). (k, JStr v)) ?fs"
    using assms(1) by (auto simp: plain_fields_def ValidString_ascii)
  then have doc: "encode_fields fs = JObj (map (\<lambda>(k, v). (k, JStr v)) ?fs)"
    by (simp only: encode_fields_def)
  have names: "distinct (map fst ?fs)"
    using assms(1) by (simp add: plain_fields_def distinct_map)
  then have same: "map_of ?fs = map_of fs"
    using assms(1) by (intro map_of_inject_set [THEN iffD2]) (simp_all add: plain_fields_def)
  have "complaints_document (map_of fs) (JObj [(''error'', JStr ''validation failed''),
      (''fields'', JObj (map (\<lambda>(k, v). (k, JStr v)) ?fs))])"
    unfolding complaints_document_def using names same by (intro exI [of _ ?fs]) simp
  with assms(2) doc show ?thesis
    by (simp add: encode_error_def ValidString_ascii byte_def)
qed

text \<open>What a company that is stored or recorded looks like.\<close>

lemma company_body:
  assumes "uuid_lib_ok lib" and "json_safe_company c"
  shows "encode_company (toCompanyResponse lib c) = Inr (company_document lib c)"
  using assms by (simp add: encode_company_def toCompanyResponse_def company_document_def
      marshal_time_def json_safe_company_def)

lemma recorded_json_safe: "recorded ch l l' \<Longrightarrow> json_safe_company (change_company ch)"
  by (auto simp: recorded_def announces_def json_safe_event_def)

subsection \<open>Errors\<close>

lemma app_error_answers:
  "root_cause e = ErrEmptyPatch \<Longrightarrow>
     writeAppError e = writeJSON 400 (Some (Inr (error_document ''empty patch body'')))"
  "root_cause e = ErrNotFound \<Longrightarrow>
     writeAppError e = writeJSON 404 (Some (Inr (error_document ''company not found'')))"
  "root_cause e = ErrDuplicateID \<Longrightarrow>
     writeAppError e = writeJSON 409 (Some (Inr (error_document ''company id already exists'')))"
  "root_cause e = ErrDuplicateName \<Longrightarrow>
     writeAppError e = writeJSON 409 (Some (Inr (error_document ''company name already exists'')))"
  "opaque_error e \<Longrightarrow>
     writeAppError e = writeJSON 500 (Some (Inr (error_document ''internal server error'')))"
  by (auto simp: writeAppError_def errors_Is_iff opaque_error_def byte_def
      errors_As_ValidationError_iff split: option.split)

lemma validation_answer:
  assumes "root_cause e = ValidationError fs" and "plain_fields fs" and "fs \<noteq> []"
  shows "\<exists>d. writeAppError e = writeJSON 400 (Some (Inr d)) \<and> complaints_document (map_of fs) d"
proof -
  from assms(1) have "errors_As_ValidationError e = Some fs" by (simp add: errors_As_ValidationError_iff)
  with complaints_document_fields [OF assms(2,3)] show ?thesis by (auto simp: writeAppError_def)
qed

subsection \<open>POST /companies\<close>

text \<open>
  The company a request asks for, at the time \<open>t\<close>: its fields are those of the request, name and
  description without the spaces around them, and an empty description when none is given.
\<close>

definition asks_for :: "uuid_lib \<Rightarrow> createCompanyRequest \<Rightarrow> time \<Rightarrow> company \<Rightarrow> bool" where
  "asks_for lib req t c \<longleftrightarrow>
     (\<exists>s n a b ty. cr_ID req = Some s \<and> cr_Name req = Some n \<and> cr_AmountOfEmployees req = Some a
        \<and> cr_Registered req = Some b \<and> cr_Type req = Some ty
        \<and> uuid_Parse lib s = Inr (ID c)
        \<and> c = \<lparr>ID = ID c, Name = TrimSpace n,
               Description = TrimSpace (case cr_Description req of None \<Rightarrow> '''' | Some d \<Rightarrow> d),
               AmountOfEmployees = a, Registered = b, Type = ty, CreatedAt = t, UpdatedAt = t\<rparr>)"

inductive post_answer ::
    "uuid_lib \<Rightarrow> request \<Rightarrow> ledger \<Rightarrow> nat \<Rightarrow> json list \<Rightarrow> ledger \<Rightarrow> bool"
  for lib r l where
  undecodable: "decodeJSON set_create_field r zero_create = Inl e \<Longrightarrow>
    post_answer lib r l 400 [error_document ''invalid JSON body''] l"
| incomplete: "decodeJSON set_create_field r zero_create = Inr req \<Longrightarrow> missing req k \<Longrightarrow>
    complaints_document (\<lambda>k. if missing req k then Some ''is required'' else None) d \<Longrightarrow>
    post_answer lib r l 400 [d] l"
| no_uuid: "decodeJSON set_create_field r zero_create = Inr req \<Longrightarrow> \<forall>k. \<not> missing req k \<Longrightarrow>
    cr_ID req = Some s \<Longrightarrow> uuid_Parse lib s = Inl e \<Longrightarrow>
    complaints_document [''id'' \<mapsto> ''must be a valid uuid''] d \<Longrightarrow>
    post_answer lib r l 400 [d] l"
| invalid: "decodeJSON set_create_field r zero_create = Inr req \<Longrightarrow> asks_for lib req t c \<Longrightarrow>
    \<not> valid_company c \<Longrightarrow> complaints_document (violation c) d \<Longrightarrow>
    post_answer lib r l 400 [d] l"
| same_id: "decodeJSON set_create_field r zero_create = Inr req \<Longrightarrow> asks_for lib req t c \<Longrightarrow>
    valid_company c \<Longrightarrow> ID c \<in> ID ` set (members l) \<Longrightarrow>
    post_answer lib r l 409 [error_document ''company id already exists''] l"
| same_name: "decodeJSON set_create_field r zero_create = Inr req \<Longrightarrow> asks_for lib req t c \<Longrightarrow>
    valid_company c \<Longrightarrow> Name c \<in> Name ` set (members l) \<Longrightarrow>
    post_answer lib r l 409 [error_document ''company name already exists''] l"
| created: "decodeJSON set_create_field r zero_create = Inr req \<Longrightarrow> asks_for lib req t c \<Longrightarrow>
    recorded (Created c) l l' \<Longrightarrow> post_answer lib r l 201 [company_document lib c] l'"
| create_failed: "decodeJSON set_create_field r zero_create = Inr req \<Longrightarrow> asks_for lib req t c \<Longrightarrow>
    valid_company c \<Longrightarrow> l' = l \<or> recorded (Created c) l l' \<Longrightarrow>
    post_answer lib r l 500 [error_document ''internal server error''] l'"

lemma create_error_answer:
  assumes "create_toInput lib req = Inl err" and "decodeJSON set_create_field r zero_create = Inr req"
  shows "\<exists>d. writeAppError err = writeJSON 400 (Some (Inr d)) \<and> post_answer lib r l 400 [d] l"
proof -
  have out: "\<exists>fs. err = ValidationError fs \<and> fs \<noteq> [] \<and>
      (if \<exists>k. missing req k
       then \<forall>k. map_of fs k = (if missing req k then Some ''is required'' else None)
       else fs = [(''id'', ''must be a valid uuid'')]
         \<and> (\<exists>s e. cr_ID req = Some s \<and> uuid_Parse lib s = Inl e))"
    using create_toInput_outcome [of req lib] assms(1) by simp
  then obtain fs where fs: "err = ValidationError fs" "fs \<noteq> []" by blast
  have "plain_fields fs"
    using assms(1) fs(1) by (auto simp: create_toInput_def require_def NewValidationError_def Let_def
        plain_fields_def byte_def split: option.splits sum.splits if_splits)
  with validation_answer [of err fs] fs obtain d where d: "writeAppError err = writeJSON 400 (Some (Inr d))"
    "complaints_document (map_of fs) d" by auto
  show ?thesis
  proof (cases "\<exists>k. missing req k")
    case True
    with out fs have "map_of fs = (\<lambda>k. if missing req k then Some ''is required'' else None)" by auto
    with d True assms(2) show ?thesis by (auto intro: incomplete)
  next
    case False
    with out fs d assms(2) show ?thesis by (auto intro: no_uuid)
  qed
qed

lemma input_asked_for:
  assumes "create_toInput lib req = Inr input"
  shows "asks_for lib req t (trimmed t (i_ID input) (i_Name input) (i_Description input)
    (i_AmountOfEmployees input) (i_Registered input) (i_Type input))"
  using create_toInput_outcome [of req lib] assms
  by (auto simp: asks_for_def trimmed_def split: option.split)

lemma all_or_nothing_answers:
  assumes aon: "all_or_nothing led did errs l rc w'"
  obtains
    (made) c ch l' where "rc = Inr c" "did c ch" "recorded ch l l'" "led Background w' = Some l'"
  | (refused) e where "rc = Inl e" "root_cause e \<in> errs" "led Background w' = Some l"
  | (failed) e l' where "rc = Inl e" "opaque_error e" "led Background w' = Some l'"
      "l' = l \<or> (\<exists>c ch. did c ch \<and> recorded ch l l')"
  using aon by (cases rc) (auto simp: all_or_nothing_def)

lemma post_handler_answer:
  assumes sys: "service_database pg tables now outside lib rt"
    and led: "ledger_view lib tables Background w = Some l"
    and run: "Handler_CreateCompany lib rt (postgres_service lib pg rt) r fresh_writer w = (wr', w')"
  shows "\<exists>st l'. status_sent wr' = Some st \<and> ledger_view lib tables Background w' = Some l'
    \<and> post_answer lib r l st (body_sent wr') l'"
proof (cases "decodeJSON set_create_field r zero_create")
  case (Inl err)
  with run led show ?thesis
    by (auto simp: Handler_CreateCompany_def byte_def intro: undecodable)
next
  case req: (Inr req)
  show ?thesis
  proof (cases "create_toInput lib req")
    case (Inl err)
    from create_error_answer [OF Inl req] obtain d where
      "writeAppError err = writeJSON 400 (Some (Inr d))" "post_answer lib r l 400 [d] l" by blast
    with Inl req run led show ?thesis by (auto simp: Handler_CreateCompany_def)
  next
    case (Inr input)
    obtain rc w1 where c: "CreateCompany rt (postgres_service lib pg rt) Background input w = (rc, w1)"
      by fastforce
    let ?c = "\<lambda>t. trimmed t (i_ID input) (i_Name input) (i_Description input)
      (i_AmountOfEmployees input) (i_Registered input) (i_Type input)"
    note asked = input_asked_for [OF Inr]
    from create_outcome [OF sys led c] obtain t where
      "case NewWithID t (i_ID input) (i_Name input) (i_Description input)
          (i_AmountOfEmployees input) (i_Registered input) (i_Type input) of
        Inl e \<Rightarrow> rc = Inl (wrap ''create company'' e) \<and> ledger_view lib tables Background w1 = Some l
      | Inr d \<Rightarrow> all_or_nothing (ledger_view lib tables) (\<lambda>d' ch. d' = d \<and> ch = Created d)
          (create_refusals l d) l rc w1" by blast
    then have out: "if valid_company (?c t)
       then all_or_nothing (ledger_view lib tables) (\<lambda>d ch. d = ?c t \<and> ch = Created (?c t))
         (create_refusals l (?c t)) l rc w1
       else rc = Inl (wrap ''create company'' (ValidationError (validation_fields (?c t))))
         \<and> ledger_view lib tables Background w1 = Some l"
      by (simp add: NewWithID_eq Let_def split: if_splits)
    have lib: "uuid_lib_ok lib"
      using sys by (simp add: service_database_def company_database_def company_database_axioms_def)
    show ?thesis
    proof (cases "valid_company (?c t)")
      case False
      with out have rc: "rc = Inl (wrap ''create company'' (ValidationError (validation_fields (?c t))))"
        "ledger_view lib tables Background w1 = Some l" by auto
      from False validation_answer [of "wrap ''create company'' (ValidationError (validation_fields (?c t)))"
          "validation_fields (?c t)"]
      obtain d where "writeAppError (wrap ''create company''
          (ValidationError (validation_fields (?c t)))) = writeJSON 400 (Some (Inr d))"
        "complaints_document (violation (?c t)) d"
        by (auto simp: map_of_validation_fields)
      with rc c req Inr run invalid [OF req asked False] show ?thesis
        by (auto simp: Handler_CreateCompany_def)
    next
      case True
      with out have "all_or_nothing (ledger_view lib tables) (\<lambda>d ch. d = ?c t \<and> ch = Created (?c t))
         (create_refusals l (?c t)) l rc w1" by simp
      then show ?thesis
      proof (cases rule: all_or_nothing_answers)
        case (made d ch l')
        then have "encode_company (toCompanyResponse lib (?c t)) = Inr (company_document lib (?c t))"
          using recorded_json_safe [OF made(3)] by (auto intro: company_body [OF lib])
        with made c req Inr run created [OF req asked] show ?thesis
          by (auto simp: Handler_CreateCompany_def)
      next
        case (refused e)
        with c req Inr run same_id [OF req asked True] same_name [OF req asked True] show ?thesis
          by (auto simp: Handler_CreateCompany_def create_refusals_def app_error_answers)
      next
        case (failed e l')
        with c req Inr run create_failed [OF req asked True] show ?thesis
          by (auto simp: Handler_CreateCompany_def app_error_answers)
      qed
    qed
  qed
qed

subsection \<open>PATCH /companies/{id}\<close>

text \<open>The patch a request asks for, and the company of the path it is for.\<close>

definition patch_asked :: "uuid_lib \<Rightarrow> request \<Rightarrow> uuid \<Rightarrow> patch \<Rightarrow> bool" where
  "patch_asked lib r i p \<longleftrightarrow> uuid_Parse lib (URLParam r ''id'') = Inr i
     \<and> (\<exists>req. decodeJSON set_patch_field r zero_patch = Inr req
          \<and> p = \<lparr>p_Name = pr_Name req, p_Description = pr_Description req,
                 p_AmountOfEmployees = pr_AmountOfEmployees req, p_Registered = pr_Registered req,
                 p_Type = pr_Type req\<rparr>)"

inductive patch_answer ::
    "uuid_lib \<Rightarrow> request \<Rightarrow> ledger \<Rightarrow> nat \<Rightarrow> json list \<Rightarrow> ledger \<Rightarrow> bool"
  for lib r l where
  patch_no_id: "uuid_Parse lib (URLParam r ''id'') = Inl e \<Longrightarrow>
    patch_answer lib r l 400 [error_document ''invalid company id''] l"
| patch_undecodable: "uuid_Parse lib (URLParam r ''id'') = Inr i \<Longrightarrow>
    decodeJSON set_patch_field r zero_patch = Inl e \<Longrightarrow>
    patch_answer lib r l 400 [error_document ''invalid JSON body''] l"
| patch_empty: "patch_asked lib r i p \<Longrightarrow>
    p = \<lparr>p_Name = None, p_Description = None, p_AmountOfEmployees = None, p_Registered = None,
         p_Type = None\<rparr> \<Longrightarrow>
    patch_answer lib r l 400 [error_document ''empty patch body''] l"
| patch_invalid: "patch_asked lib r i p \<Longrightarrow> patch_error p = Some (ValidationError fs) \<Longrightarrow>
    complaints_document (map_of fs) d \<Longrightarrow> patch_answer lib r l 400 [d] l"
| patch_absent: "patch_asked lib r i p \<Longrightarrow> i \<notin> ID ` set (members l) \<Longrightarrow>
    patch_answer lib r l 404 [error_document ''company not found''] l"
| patch_same_name: "patch_asked lib r i p \<Longrightarrow> p_Name p = Some n \<Longrightarrow> c \<in> set (members l) \<Longrightarrow>
    ID c \<noteq> i \<Longrightarrow> Name c = TrimSpace n \<Longrightarrow>
    patch_answer lib r l 409 [error_document ''company name already exists''] l"
| revised: "patch_asked lib r i p \<Longrightarrow> patch_error p = None \<Longrightarrow> c \<in> set (members l) \<Longrightarrow> ID c = i \<Longrightarrow>
    recorded (Updated (patched t p c)) l l' \<Longrightarrow>
    patch_answer lib r l 200 [company_document lib (patched t p c)] l'"
| patch_failed: "patch_asked lib r i p \<Longrightarrow>
    l' = l \<or> patch_error p = None
      \<and> (\<exists>c t. c \<in> set (members l) \<and> ID c = i \<and> recorded (Updated (patched t p c)) l l') \<Longrightarrow>
    patch_answer lib r l 500 [error_document ''internal server error''] l'"

lemma patch_error_cases:
  "patch_error p = Some e \<Longrightarrow> e = ErrEmptyPatch \<and> IsEmpty p \<or> (\<exists>fs. e = ValidationError fs)"
  by (auto simp: patch_error_def split: if_splits)

lemma patch_refusal_answer:
  assumes "patch_asked lib r i p" and "root_cause e \<in> patch_refusals l i p"
  shows "\<exists>st d. writeAppError e = writeJSON st (Some (Inr d)) \<and> patch_answer lib r l st [d] l"
proof -
  from assms(2) consider (absent) "root_cause e = ErrNotFound" "i \<notin> ID ` set (members l)"
    | (same) n c where "root_cause e = ErrDuplicateName" "p_Name p = Some n" "c \<in> set (members l)"
        "ID c \<noteq> i" "Name c = TrimSpace n"
    | (complaint) "patch_error p = Some (root_cause e)"
    by (auto simp: patch_refusals_def name_taken_def)
  then show ?thesis
  proof cases
    case absent
    with patch_absent [OF assms(1)] show ?thesis by (auto simp: app_error_answers)
  next
    case same
    with patch_same_name [OF assms(1) same(2-5)] show ?thesis by (auto simp: app_error_answers)
  next
    case complaint
    from patch_error_cases [OF this] show ?thesis
    proof (elim disjE conjE exE)
      assume 1: "root_cause e = ErrEmptyPatch" "IsEmpty p"
      then have "p = \<lparr>p_Name = None, p_Description = None, p_AmountOfEmployees = None,
          p_Registered = None, p_Type = None\<rparr>" by (cases p) (simp add: IsEmpty_def)
      with patch_empty [OF assms(1)] 1(1) show ?thesis by (auto simp: app_error_answers)
    next
      fix fs assume fs: "root_cause e = ValidationError fs"
      with complaint have err: "patch_error p = Some (ValidationError fs)" by simp
      from plain_patch_error [OF err] validation_answer [OF fs] obtain d where
        "writeAppError e = writeJSON 400 (Some (Inr d))" "complaints_document (map_of fs) d" by blast
      with patch_invalid [OF assms(1) err] show ?thesis by blast
    qed
  qed
qed

lemma patch_handler_answer:
  assumes sys: "service_database pg tables now outside lib rt"
    and led: "ledger_view lib tables Background w = Some l"
    and run: "Handler_PatchCompany lib rt (postgres_service lib pg rt) r fresh_writer w = (wr', w')"
  shows "\<exists>st l'. status_sent wr' = Some st \<and> ledger_view lib tables Background w' = Some l'
    \<and> patch_answer lib r l st (body_sent wr') l'"
proof (cases "uuid_Parse lib (URLParam r ''id'')")
  case (Inl err)
  with run led show ?thesis
    by (auto simp: Handler_PatchCompany_def parseID_def byte_def intro: patch_no_id)
next
  case i: (Inr i)
  show ?thesis
  proof (cases "decodeJSON set_patch_field r zero_patch")
    case (Inl err)
    with i run led show ?thesis
      by (auto simp: Handler_PatchCompany_def parseID_def byte_def intro: patch_undecodable)
  next
    case (Inr req)
    obtain input where input: "patch_toInput req = Inr input" by (simp add: patch_toInput_def)
    let ?p = "patch_of_input input"
    have asked: "patch_asked lib r i ?p"
      using i Inr input by (auto simp: patch_asked_def patch_toInput_def patch_of_input_def)
    have lib: "uuid_lib_ok lib"
      using sys by (simp add: service_database_def company_database_def company_database_axioms_def)
    obtain rp w1 where p: "PatchCompany rt (postgres_service lib pg rt) Background i input w = (rp, w1)"
      by fastforce
    from patch_outcome [OF sys led p] show ?thesis
    proof (cases rule: all_or_nothing_answers)
      case (made c ch l')
      then obtain d t where d: "patch_error ?p = None" "d \<in> set (members l)" "ID d = i" "c = patched t ?p d"
        "ch = Updated c" by (auto simp: did_patch_def)
      with made have "encode_company (toCompanyResponse lib c) = Inr (company_document lib c)"
        using recorded_json_safe [OF made(3)] by (auto intro: company_body [OF lib])
      with made d i Inr input p run revised [OF asked d(1-3)] show ?thesis
        by (auto simp: Handler_PatchCompany_def parseID_def)
    next
      case (refused e)
      from patch_refusal_answer [OF asked refused(2)] obtain st d where
        "writeAppError e = writeJSON st (Some (Inr d))" "patch_answer lib r l st [d] l" by blast
      with refused i Inr input p run show ?thesis
        by (auto simp: Handler_PatchCompany_def parseID_def)
    next
      case (failed e l')
      then have "l' = l \<or> patch_error ?p = None
        \<and> (\<exists>c t. c \<in> set (members l) \<and> ID c = i \<and> recorded (Updated (patched t ?p c)) l l')"
        by (auto simp: did_patch_def)
      from patch_failed [OF asked this] failed i Inr input p run show ?thesis
        by (auto simp: Handler_PatchCompany_def parseID_def app_error_answers)
    qed
  qed
qed

subsection \<open>DELETE and GET /companies/{id}\<close>

inductive delete_answer ::
    "uuid_lib \<Rightarrow> request \<Rightarrow> ledger \<Rightarrow> nat \<Rightarrow> json list \<Rightarrow> ledger \<Rightarrow> bool"
  for lib r l where
  delete_no_id: "uuid_Parse lib (URLParam r ''id'') = Inl e \<Longrightarrow>
    delete_answer lib r l 400 [error_document ''invalid company id''] l"
| delete_absent: "uuid_Parse lib (URLParam r ''id'') = Inr i \<Longrightarrow> i \<notin> ID ` set (members l) \<Longrightarrow>
    delete_answer lib r l 404 [error_document ''company not found''] l"
| deleted: "uuid_Parse lib (URLParam r ''id'') = Inr (ID c) \<Longrightarrow> c \<in> set (members l) \<Longrightarrow>
    recorded (Deleted c) l l' \<Longrightarrow> delete_answer lib r l 204 [] l'"
| delete_failed: "uuid_Parse lib (URLParam r ''id'') = Inr i \<Longrightarrow>
    l' = l \<or> (\<exists>c. c \<in> set (members l) \<and> ID c = i \<and> recorded (Deleted c) l l') \<Longrightarrow>
    delete_answer lib r l 500 [error_document ''internal server error''] l'"

inductive get_answer :: "uuid_lib \<Rightarrow> request \<Rightarrow> ledger \<Rightarrow> nat \<Rightarrow> json list \<Rightarrow> bool"
  for lib r l where
  get_no_id: "uuid_Parse lib (URLParam r ''id'') = Inl e \<Longrightarrow>
    get_answer lib r l 400 [error_document ''invalid company id'']"
| get_absent: "uuid_Parse lib (URLParam r ''id'') = Inr i \<Longrightarrow> i \<notin> ID ` set (members l) \<Longrightarrow>
    get_answer lib r l 404 [error_document ''company not found'']"
| found: "uuid_Parse lib (URLParam r ''id'') = Inr (ID c) \<Longrightarrow> c \<in> set (members l) \<Longrightarrow>
    get_answer lib r l 200 [company_document lib c]"
| get_failed: "uuid_Parse lib (URLParam r ''id'') = Inr i \<Longrightarrow>
    get_answer lib r l 500 [error_document ''internal server error'']"

lemma delete_handler_answer:
  assumes sys: "service_database pg tables now outside lib rt"
    and led: "ledger_view lib tables Background w = Some l"
    and run: "Handler_DeleteCompany lib (postgres_service lib pg rt) r fresh_writer w = (wr', w')"
  shows "\<exists>st l'. status_sent wr' = Some st \<and> ledger_view lib tables Background w' = Some l'
    \<and> delete_answer lib r l st (body_sent wr') l'"
proof (cases "uuid_Parse lib (URLParam r ''id'')")
  case (Inl err)
  with run led show ?thesis
    by (auto simp: Handler_DeleteCompany_def parseID_def byte_def intro: delete_no_id)
next
  case (Inr i)
  obtain rd w1 where d: "DeleteCompany (postgres_service lib pg rt) Background i w = (rd, w1)"
    by fastforce
  from delete_outcome [OF sys led d] obtain r0 where r0: "rd = (case r0 of Inl e \<Rightarrow> Some e | Inr c \<Rightarrow> None)"
    "all_or_nothing (ledger_view lib tables) (did_delete l i) (delete_refusals l i) l r0 w1" by blast
  from r0(2) show ?thesis
  proof (cases rule: all_or_nothing_answers)
    case (made c ch l')
    then have "uuid_Parse lib (URLParam r ''id'') = Inr (ID c)" "c \<in> set (members l)"
      "recorded (Deleted c) l l'" using Inr by (auto simp: did_delete_def)
    from deleted [OF this] made r0(1) Inr d run show ?thesis
      by (auto simp: Handler_DeleteCompany_def parseID_def WriteHeader_def)
  next
    case (refused e)
    with delete_absent [OF Inr] r0(1) Inr d run show ?thesis
      by (auto simp: Handler_DeleteCompany_def parseID_def delete_refusals_def app_error_answers)
  next
    case (failed e l')
    then have "l' = l \<or> (\<exists>c. c \<in> set (members l) \<and> ID c = i \<and> recorded (Deleted c) l l')"
      by (auto simp: did_delete_def)
    from delete_failed [OF Inr this] failed r0(1) Inr d run show ?thesis
      by (auto simp: Handler_DeleteCompany_def parseID_def app_error_answers)
  qed
qed

text \<open>Where the events tell the whole story, every stored company can be written as a document.\<close>

lemma json_time_ok_micros: "json_time_ok t \<Longrightarrow> json_time_ok (micros t)"
proof -
  have "- 62167219200 * 1000000000 \<le> t \<Longrightarrow> - 62167219200000000 \<le> t div 1000" for t :: int by simp
  then show "json_time_ok t \<Longrightarrow> json_time_ok (micros t)"
    unfolding json_time_ok_def micros_def by fastforce
qed

lemma json_safe_stored: "json_safe_company c \<Longrightarrow> json_safe_company (stored c)"
  by (simp add: json_safe_company_def stored_def json_time_ok_micros)

lemma replay_origin:
  "foldl replay_event m evs i = Some c \<Longrightarrow>
   m i = Some c \<or> (\<exists>ev\<in>set evs. \<exists>d. Company ev = Some d \<and> c = stored d)"
proof (induction evs arbitrary: m)
  case (Cons ev evs)
  from Cons.IH [of "replay_event m ev"] Cons.prems
  have "replay_event m ev i = Some c \<or> (\<exists>ev\<in>set evs. \<exists>d. Company ev = Some d \<and> c = stored d)" by simp
  then show ?case by (auto simp: replay_event_def split: if_splits option.splits)
qed simp

lemma complete_json_safe:
  assumes "ledger_ok l" and "events_complete l" and "c \<in> set (members l)"
  shows "json_safe_company c"
proof -
  from assms have "replay (events_of l) (ID c) = Some c"
    by (simp add: events_complete_def company_table_Some)
  then obtain en d where en: "en \<in> set (outbox l)" "Company (en_event en) = Some d" "c = stored d"
    using replay_origin [of Map.empty "events_of l" "ID c" c] by (auto simp: replay_def events_of_def)
  with assms(1) have "json_safe_event (en_event en)" by (simp add: ledger_ok_def entry_ok_def)
  with en show ?thesis by (simp add: json_safe_event_def json_safe_stored)
qed

lemma get_handler_answer:
  assumes sys: "service_database pg tables now outside lib rt"
    and led: "ledger_view lib tables Background w = Some l" and complete: "events_complete l"
    and run: "Handler_GetCompany lib (postgres_service lib pg rt) r fresh_writer w = (wr', w')"
  shows "\<exists>st. status_sent wr' = Some st \<and> ledger_view lib tables Background w' = Some l
    \<and> get_answer lib r l st (body_sent wr')"
proof (cases "uuid_Parse lib (URLParam r ''id'')")
  case (Inl err)
  with run led show ?thesis
    by (auto simp: Handler_GetCompany_def parseID_def byte_def intro: get_no_id)
next
  case i: (Inr i)
  obtain rg w1 where g: "GetCompany (postgres_service lib pg rt) Background i w = (rg, w1)"
    by fastforce
  note out = get_outcome [OF sys led g]
  have lib: "uuid_lib_ok lib"
    using sys by (simp add: service_database_def company_database_def company_database_axioms_def)
  show ?thesis
  proof (cases rg)
    case (Inl e)
    from out Inl consider "opaque_error e" | "root_cause e = ErrNotFound" "i \<notin> ID ` set (members l)"
      by auto
    then show ?thesis
      by cases (use Inl i g out run get_failed [OF i] get_absent [OF i] in
        \<open>auto simp: Handler_GetCompany_def parseID_def app_error_answers\<close>)
  next
    case (Inr c)
    with out i have c: "c \<in> set (members l)" "uuid_Parse lib (URLParam r ''id'') = Inr (ID c)" by auto
    have "ledger_ok l" using led by (simp add: ledger_view_Some [OF lib])
    from company_body [OF lib complete_json_safe [OF this complete c(1)]] found [OF c(2,1)] Inr i g out run
    show ?thesis by (auto simp: Handler_GetCompany_def parseID_def)
  qed
qed

subsection \<open>What the clients see\<close>

text \<open>
  Property C21: what POST /companies answers, on every path.  A body that cannot be decoded is
  answered 400; a request with required fields missing 400 with exactly these fields, one whose id is
  no UUID 400 with that complaint, one whose company breaks a rule of the domain 400 with exactly the
  broken rules; an id or a name that is taken 409; and then nothing has happened.  201 means that the
  company asked for, its fields those of the request, is stored with its event and is the document
  answered.  500 means that nothing happened, or the whole of it.  There is no other answer.
\<close>

theorem create_handler_keeps_its_promises:
  assumes "service_database pg tables now outside lib rt"
    and "ledger_view lib tables Background w = Some l"
    and "Handler_CreateCompany lib rt (postgres_service lib pg rt) r fresh_writer w = (wr', w')"
  shows "\<exists>st l'. status_sent wr' = Some st \<and> ledger_view lib tables Background w' = Some l'
    \<and> post_answer lib r l st (body_sent wr') l'"
  using assms by (rule post_handler_answer)

text \<open>
  Property C22: what PATCH /companies/{id} answers, on every path.  No UUID in the path, a body that
  cannot be decoded, an empty patch and a patch with an unacceptable field are answered 400, the last
  with the first complaint about the patch; an id that no company has 404; a name that another company
  has 409; and then nothing has happened.  200 means that the company with the id of the path has been
  revised, the supplied fields replaced and the others kept, that its event is recorded, and that the
  document answered is the revised company's.  500 means that nothing happened, or the whole of it.
\<close>

theorem patch_handler_keeps_its_promises:
  assumes "service_database pg tables now outside lib rt"
    and "ledger_view lib tables Background w = Some l"
    and "Handler_PatchCompany lib rt (postgres_service lib pg rt) r fresh_writer w = (wr', w')"
  shows "\<exists>st l'. status_sent wr' = Some st \<and> ledger_view lib tables Background w' = Some l'
    \<and> patch_answer lib r l st (body_sent wr') l'"
  using assms by (rule patch_handler_answer)

text \<open>
  Property C23: what DELETE /companies/{id} answers, on every path.  No UUID in the path is answered
  400, an id that no company has 404, and then nothing has happened.  204, without a body, means that
  the company with the id of the path has been deleted, no other, and its event recorded.  500 means
  that nothing happened, or the whole of it.
\<close>

theorem delete_handler_keeps_its_promises:
  assumes "service_database pg tables now outside lib rt"
    and "ledger_view lib tables Background w = Some l"
    and "Handler_DeleteCompany lib (postgres_service lib pg rt) r fresh_writer w = (wr', w')"
  shows "\<exists>st l'. status_sent wr' = Some st \<and> ledger_view lib tables Background w' = Some l'
    \<and> delete_answer lib r l st (body_sent wr') l'"
  using assms by (rule delete_handler_answer)

text \<open>
  Property C24: what GET /companies/{id} answers, on every path.  It changes nothing.  No UUID in the
  path is answered 400, an id that no company has 404, a failure below 500, and otherwise the answer is
  200 with the document of the stored company that has the id of the path, all of its fields.  (The
  events tell the whole story, as they do in every reachable state: so the instants of every
  stored company can be written.)
\<close>

theorem get_handler_reads:
  assumes "service_database pg tables now outside lib rt"
    and "ledger_view lib tables Background w = Some l" and "events_complete l"
    and "Handler_GetCompany lib (postgres_service lib pg rt) r fresh_writer w = (wr', w')"
  shows "\<exists>st. status_sent wr' = Some st \<and> ledger_view lib tables Background w' = Some l
    \<and> get_answer lib r l st (body_sent wr')"
  using assms by (rule get_handler_answer)

subsection \<open>Requests to the world with one company\<close>

theorem create_handler_keeps_its_promises_witness:
  "\<exists>wr' w' st l'. Handler_CreateCompany canonical_uuids world_runtime world_service acme_http
        fresh_writer acme_world = (wr', w')
    \<and> status_sent wr' = Some st \<and> ledger_view canonical_uuids server_tables Background w' = Some l'
    \<and> post_answer canonical_uuids acme_http acme_ledger st (body_sent wr') l'"
proof -
  obtain wr' w' where run: "Handler_CreateCompany canonical_uuids world_runtime world_service
      acme_http fresh_writer acme_world = (wr', w')" by fastforce
  from create_handler_keeps_its_promises [OF reference_service acme_view run] run show ?thesis by blast
qed

theorem patch_handler_keeps_its_promises_witness:
  "\<exists>wr' w' st l'. Handler_PatchCompany canonical_uuids world_runtime world_service (by_id 1 acme_http)
        fresh_writer acme_world = (wr', w')
    \<and> status_sent wr' = Some st \<and> ledger_view canonical_uuids server_tables Background w' = Some l'
    \<and> patch_answer canonical_uuids (by_id 1 acme_http) acme_ledger st (body_sent wr') l'"
proof -
  obtain wr' w' where run: "Handler_PatchCompany canonical_uuids world_runtime world_service
      (by_id 1 acme_http) fresh_writer acme_world = (wr', w')" by fastforce
  from patch_handler_keeps_its_promises [OF reference_service acme_view run] run show ?thesis by blast
qed

lemma by_id_parses [simp]: "uuid_Parse canonical_uuids (URLParam (by_id i r) ''id'') = Inr i"
  by (simp add: by_id_def URLParam_def)

theorem delete_handler_keeps_its_promises_witness:
  "\<exists>wr' w' l'. Handler_DeleteCompany canonical_uuids world_service (by_id 1 acme_http) fresh_writer acme_world
      = (wr', w')
    \<and> ledger_view canonical_uuids server_tables Background w' = Some l'
    \<and> (status_sent wr' = Some 204 \<and> recorded (Deleted acme) acme_ledger l'
       \<or> status_sent wr' = Some 500 \<and> (l' = acme_ledger \<or> recorded (Deleted acme) acme_ledger l'))"
proof -
  obtain wr' w' where run: "Handler_DeleteCompany canonical_uuids world_service (by_id 1 acme_http)
      fresh_writer acme_world = (wr', w')" by fastforce
  have only: "c = acme" if "c \<in> set (members acme_ledger)" for c
    using that by (simp add: acme_ledger_def)
  have there: "1 \<in> ID ` set (members acme_ledger)" by (simp add: acme_ledger_def acme_def)
  from delete_handler_keeps_its_promises [OF reference_service acme_view run] obtain st l' where
    "status_sent wr' = Some st" "ledger_view canonical_uuids server_tables Background w' = Some l'"
    "delete_answer canonical_uuids (by_id 1 acme_http) acme_ledger st (body_sent wr') l'" by blast
  with run show ?thesis using there by (auto elim!: delete_answer.cases dest: only)
qed

theorem get_handler_reads_witness:
  "\<exists>wr' w'. Handler_GetCompany canonical_uuids world_service (by_id 1 acme_http) fresh_writer acme_world
      = (wr', w')
    \<and> ledger_view canonical_uuids server_tables Background w' = Some acme_ledger
    \<and> (status_sent wr' = Some 200 \<and> body_sent wr' = [company_document canonical_uuids acme]
       \<or> status_sent wr' = Some 500)"
proof -
  obtain wr' w' where run: "Handler_GetCompany canonical_uuids world_service (by_id 1 acme_http) fresh_writer acme_world
      = (wr', w')" by fastforce
  have only: "c = acme" if "c \<in> set (members acme_ledger)" for c
    using that by (simp add: acme_ledger_def)
  have there: "1 \<in> ID ` set (members acme_ledger)" by (simp add: acme_ledger_def acme_def)
  from get_handler_reads [OF reference_service acme_view acme_complete run] obtain st where
    "status_sent wr' = Some st" "ledger_view canonical_uuids server_tables Background w' = Some acme_ledger"
    "get_answer canonical_uuids (by_id 1 acme_http) acme_ledger st (body_sent wr')" by blast
  with run show ?thesis using there by (auto elim!: get_answer.cases dest: only)
qed

end
