(* ===== verification/HttpAnswers.thy ===== *)
theory HttpAnswers
  imports Liveness HttpPromises
begin

text \<open>
  What a client gets for a request that asks for something possible, and for one that the domain
  accepts but the database cannot store.
\<close>

subsection \<open>Documents\<close>

text \<open>The document of a company whose instants can be written.\<close>

definition document :: "uuid_lib \<Rightarrow> company \<Rightarrow> json" where
  "document lib c = (case encode_company (toCompanyResponse lib c) of Inr d \<Rightarrow> d | Inl _ \<Rightarrow> JNull)"

lemma encode_document:
  "writable c \<Longrightarrow> encode_company (toCompanyResponse lib c) = Inr (document lib c)"
  by (simp add: document_def encode_company_def toCompanyResponse_def writable_def marshal_time_def)

lemma writable_stored: "writable c \<Longrightarrow> writable (stored c)"
  by (simp add: writable_def stored_def json_time_ok_micros)

lemma recorded_writable:
  assumes "recorded (Created c) l l'"
  shows "writable c"
proof -
  from assms obtain ev where "announces ev (Created c)" "json_safe_event ev"
    by (auto simp: recorded_def)
  then show ?thesis
    by (simp add: announces_def json_safe_event_def json_safe_company_def writable_def)
qed

lemma recorded_created_member:
  "recorded (Created c) l l' \<Longrightarrow> stored c \<in> set (members l')"
  by (auto simp: recorded_def with_event_def with_company_def)

text \<open>What a handler has written when it is done with a document.\<close>

lemma writeJSON_fresh [simp]:
  "status_sent (writeJSON st (Some (Inr d)) fresh_writer) = Some st"
  "body_sent (writeJSON st (Some (Inr d)) fresh_writer) = [d]"
  by (simp_all add: writeJSON_def WriteHeader_def fresh_writer_def)

context working_service
begin

lemma GetCompany_works:
  assumes "healthy w" and "view Background w = Some l" and "c \<in> set (members l)"
  shows "\<exists>w'. GetCompany psvc Background (ID c) w = (Inr c, w')"
proof -
  obtain r w' where g: "CompanyRepository_GetByID pg Background (ID c) w = (r, w')" by fastforce
  from get_member_works [OF assms g] g show ?thesis by (simp add: GetCompany_def psvc_defs)
qed

lemma post_then_get:
  assumes w: "healthy w" and v: "view Background w = Some l"
    and req: "decodeJSON set_create_field r1 zero_create = Inr req" "create_toInput lib req = Inr input"
    and c: "NewWithID 0 (i_ID input) (i_Name input) (i_Description input)
        (i_AmountOfEmployees input) (i_Registered input) (i_Type input) = Inr c"
      "storable c" "duplicate (members l) c = None"
    and fresh: "draw (outside w) \<notin> entry_id ` set (outbox l)"
    and post: "Handler_CreateCompany lib rt psvc r1 fresh_writer w = (wr1, w1)"
    and id: "uuid_Parse lib (URLParam r2 ''id'') = Inr (ID c)"
    and get: "Handler_GetCompany lib psvc r2 fresh_writer w1 = (wr2, w2)"
  shows "\<exists>t. status_sent wr1 = Some 201 \<and> body_sent wr1 = [document lib (c\<lparr>CreatedAt := t, UpdatedAt := t\<rparr>)]
    \<and> status_sent wr2 = Some 200
    \<and> body_sent wr2 = [document lib (c\<lparr>CreatedAt := micros t, UpdatedAt := micros t\<rparr>)]"
proof -
  obtain rc w1' where run: "CreateCompany rt psvc Background input w = (rc, w1')" by fastforce
  from CreateCompany_works [OF w v c fresh run] obtain t l' where
    t: "rc = Inr (c\<lparr>CreatedAt := t, UpdatedAt := t\<rparr>)"
    "recorded (Created (c\<lparr>CreatedAt := t, UpdatedAt := t\<rparr>)) l l'"
    "view Background w1' = Some l'" "healthy w1'" by blast
  let ?c = "c\<lparr>CreatedAt := t, UpdatedAt := t\<rparr>"
  note writable = recorded_writable [OF t(2)]
  from post req run t(1) encode_document [OF writable, of lib] have
    wr1: "w1 = w1'" "wr1 = writeJSON StatusCreated (Some (Inr (document lib ?c))) fresh_writer"
    by (simp_all add: Handler_CreateCompany_def)
  from GetCompany_works [OF t(4,3) recorded_created_member [OF t(2)]] obtain w3 where
    "GetCompany psvc Background (ID c) w1' = (Inr (stored ?c), w3)" by (auto simp: stored_def)
  with get id wr1(1) encode_document [OF writable_stored [OF writable], of lib] have
    "wr2 = writeJSON StatusOK (Some (Inr (document lib (stored ?c)))) fresh_writer"
    by (simp add: Handler_GetCompany_def parseID_def)
  with wr1(2) show ?thesis by (intro exI [of _ t]) (simp add: stored_def)
qed

end

subsection \<open>A company can be read as soon as its creation is answered\<close>

lemmas post_get_success = working_service.post_then_get

text \<open>
  Property C17: when database and clock work, a well-formed POST /companies with acceptable fields is
  answered 201 with the document of the company, and the next GET /companies/{id} with its id is
  answered 200 with the document of the same company, its instants cut to microseconds.
\<close>

theorem created_company_is_served:
  assumes "working_service pg tables now outside lib rt healthy draw"
    and "healthy w" and "ledger_view lib tables Background w = Some l"
    and "decodeJSON set_create_field r1 zero_create = Inr req" and "create_toInput lib req = Inr input"
    and "NewWithID 0 (i_ID input) (i_Name input) (i_Description input)
        (i_AmountOfEmployees input) (i_Registered input) (i_Type input) = Inr c"
    and "storable c" and "ID c \<notin> ID ` set (members l)" and "Name c \<notin> Name ` set (members l)"
    and "draw (outside w) \<notin> entry_id ` set (outbox l)"
    and "Handler_CreateCompany lib rt (postgres_service lib pg rt) r1 fresh_writer w = (wr1, w1)"
    and "uuid_Parse lib (URLParam r2 ''id'') = Inr (ID c)"
    and "Handler_GetCompany lib (postgres_service lib pg rt) r2 fresh_writer w1 = (wr2, w2)"
  shows "\<exists>t. status_sent wr1 = Some 201 \<and> body_sent wr1 = [document lib (c\<lparr>CreatedAt := t, UpdatedAt := t\<rparr>)]
    \<and> status_sent wr2 = Some 200
    \<and> body_sent wr2 = [document lib (c\<lparr>CreatedAt := micros t, UpdatedAt := micros t\<rparr>)]"
  by (rule post_get_success [OF assms(1-7) not_duplicate [OF assms(8,9)] assms(10-13)])

subsection \<open>What the domain accepts and the database cannot store\<close>

lemma unstorable_create:
  assumes sys: "service_database pg tables now outside lib rt"
    and led: "ledger_view lib tables Background w = Some l"
    and c: "NewWithID 0 (i_ID input) (i_Name input) (i_Description input)
        (i_AmountOfEmployees input) (i_Registered input) (i_Type input) = Inr c" "\<not> storable c"
    and free: "ID c \<notin> ID ` set (members l)" "Name c \<notin> Name ` set (members l)"
    and run: "CreateCompany rt (postgres_service lib pg rt) Background input w = (rc, w')"
  shows "\<exists>e. rc = Inl e \<and> opaque_error e \<and> ledger_view lib tables Background w' = Some l"
proof -
  from create_outcome [OF sys led run] obtain t where out:
    "case NewWithID t (i_ID input) (i_Name input) (i_Description input)
        (i_AmountOfEmployees input) (i_Registered input) (i_Type input) of
      Inl e \<Rightarrow> rc = Inl (wrap ''create company'' e) \<and> ledger_view lib tables Background w' = Some l
    | Inr c \<Rightarrow> all_or_nothing (ledger_view lib tables) (\<lambda>d ch. d = c \<and> ch = Created c)
        (create_refusals l c) l rc w'" by blast
  let ?c = "c\<lparr>CreatedAt := t, UpdatedAt := t\<rparr>"
  from c(1) have "NewWithID t (i_ID input) (i_Name input) (i_Description input)
        (i_AmountOfEmployees input) (i_Registered input) (i_Type input) = Inr ?c"
    by (auto simp: NewWithID_eq trimmed_def valid_company_def Let_def split: if_splits)
  with out have aon: "all_or_nothing (ledger_view lib tables) (\<lambda>d ch. d = ?c \<and> ch = Created ?c)
      (create_refusals l ?c) l rc w'" by simp
  have "\<not> storable ?c" using c(2) by (simp add: storable_def)
  then have "\<not> recorded (Created ?c) l l'" for l' by (simp add: recorded_def)
  moreover have "create_refusals l ?c = {}" using free by (simp add: create_refusals_def)
  ultimately show ?thesis using aon by (auto simp: all_or_nothing_def split: sum.splits)
qed

text \<open>
  Property C38: a number of employees beyond 32 bits passes the rules of the domain, but the column
  is an \<^verbatim>\<open>integer\<close>: whatever else happens, the request is answered 500, not 400, and nothing is
  stored.
\<close>

theorem wide_amount_is_a_server_error:
  assumes "service_database pg tables now outside lib rt"
    and "ledger_view lib tables Background w = Some l"
    and "decodeJSON set_create_field r zero_create = Inr req" and "create_toInput lib req = Inr input"
    and "NewWithID 0 (i_ID input) (i_Name input) (i_Description input)
        (i_AmountOfEmployees input) (i_Registered input) (i_Type input) = Inr c"
    and "2 ^ 31 \<le> AmountOfEmployees c"
    and "ID c \<notin> ID ` set (members l)" and "Name c \<notin> Name ` set (members l)"
    and "Handler_CreateCompany lib rt (postgres_service lib pg rt) r fresh_writer w = (wr', w')"
  shows "status_sent wr' = Some 500 \<and> ledger_view lib tables Background w' = Some l"
proof -
  obtain rc w1 where run: "CreateCompany rt (postgres_service lib pg rt) Background input w = (rc, w1)"
    by fastforce
  have "\<not> storable c" using assms(6) by (simp add: storable_def int4_ok_def)
  from unstorable_create [OF assms(1,2,5) this assms(7,8) run] run assms(3,4,9)
  show ?thesis by (auto simp: Handler_CreateCompany_def)
qed

subsection \<open>Requests to the world with one company\<close>

definition bolt_request :: "int \<Rightarrow> createCompanyRequest" where
  "bolt_request n = \<lparr>cr_ID = Some (uuid_String canonical_uuids 2), cr_Name = Some ''Bolt'',
     cr_Description = Some ''x'', cr_AmountOfEmployees = Some n, cr_Registered = Some True,
     cr_Type = Some TypeNonProfit\<rparr>"

definition bolt_http :: "int \<Rightarrow> request" where
  "bolt_http n = \<lparr>r_Method = ''POST'', r_Path = ''/companies'', r_Authorization = ''Bearer x'',
     r_Body = Some [Inr (create_document (bolt_request n))], r_Params = []\<rparr>"

lemma bolt_http_decodes:
  assumes "is_go_int n"
  shows "decodeJSON set_create_field (bolt_http n) zero_create = Inr (bolt_request n)"
proof (rule create_document_decodes)
  show "r_Body (bolt_http n) = Some [Inr (create_document (bolt_request n))]" by (simp add: bolt_http_def)
qed (use assms in \<open>simp add: bolt_request_def\<close>)

lemma bolt_request_input:
  "create_toInput canonical_uuids (bolt_request n) = Inr (bolt_input\<lparr>i_AmountOfEmployees := n\<rparr>)"
  by (simp add: create_toInput_def bolt_request_def bolt_input_def canonical_uuids_ok NewValidationError_def
      require_def)

lemma bolt_valid:
  assumes "0 \<le> n"
  shows "NewWithID 0 2 ''Bolt'' ''x'' n True TypeNonProfit = Inr (bolt\<lparr>AmountOfEmployees := n\<rparr>)"
  using assms by (simp add: NewWithID_Inr trimmed_def bolt_input_def bolt_def valid_company_def valid_name_def
      valid_description_def IsValid_iff type_defs)

lemma bolt_storable: "n < 2 ^ 31 \<Longrightarrow> 0 \<le> n \<Longrightarrow> storable (bolt\<lparr>AmountOfEmployees := n\<rparr>)"
  by (simp add: storable_def text_ok_def bolt_def byte_def int4_ok_def)

lemma bolt_free:
  "ID (bolt\<lparr>AmountOfEmployees := n\<rparr>) \<notin> ID ` set (members acme_ledger)"
  "Name (bolt\<lparr>AmountOfEmployees := n\<rparr>) \<notin> Name ` set (members acme_ledger)"
  by (simp_all add: bolt_def acme_ledger_def acme_def)

lemma bolt_input_valid:
  assumes "0 \<le> n"
  defines "input \<equiv> bolt_input\<lparr>i_AmountOfEmployees := n\<rparr>"
  shows "NewWithID 0 (i_ID input) (i_Name input) (i_Description input)
    (i_AmountOfEmployees input) (i_Registered input) (i_Type input) = Inr (bolt\<lparr>AmountOfEmployees := n\<rparr>)"
  using bolt_valid [OF assms(1)] by (simp add: input_def bolt_input_def)

theorem created_company_is_served_witness:
  "\<exists>wr1 w1 wr2 w2 t. Handler_CreateCompany canonical_uuids world_runtime world_service (bolt_http 3)
        fresh_writer acme_world = (wr1, w1)
    \<and> Handler_GetCompany canonical_uuids world_service (by_id 2 acme_http) fresh_writer w1 = (wr2, w2)
    \<and> status_sent wr1 = Some 201
    \<and> body_sent wr1 = [document canonical_uuids (bolt\<lparr>AmountOfEmployees := 3, CreatedAt := t, UpdatedAt := t\<rparr>)]
    \<and> status_sent wr2 = Some 200
    \<and> body_sent wr2 = [document canonical_uuids
         (bolt\<lparr>AmountOfEmployees := 3, CreatedAt := micros t, UpdatedAt := micros t\<rparr>)]"
proof -
  obtain wr1 w1 where post: "Handler_CreateCompany canonical_uuids world_runtime world_service
      (bolt_http 3) fresh_writer acme_world = (wr1, w1)" by fastforce
  obtain wr2 w2 where get: "Handler_GetCompany canonical_uuids world_service (by_id 2 acme_http)
      fresh_writer w1 = (wr2, w2)" by fastforce
  have id: "uuid_Parse canonical_uuids (URLParam (by_id 2 acme_http) ''id'')
      = Inr (ID (bolt\<lparr>AmountOfEmployees := 3\<rparr>))"
    by (simp add: by_id_def URLParam_def canonical_uuids_ok bolt_def)
  have "is_go_int 3" by (simp add: is_go_int_def int_min_def int_max_def)
  from created_company_is_served [OF reference_working_service acme_world_healthy acme_view
      bolt_http_decodes [OF this] bolt_request_input bolt_input_valid bolt_storable bolt_free
      acme_world_draws post id get] post get
  show ?thesis by simp
qed

theorem wide_amount_is_a_server_error_witness:
  "\<exists>wr' w'. Handler_CreateCompany canonical_uuids world_runtime world_service (bolt_http 3000000000)
        fresh_writer acme_world = (wr', w')
    \<and> status_sent wr' = Some 500
    \<and> ledger_view canonical_uuids server_tables Background w' = Some acme_ledger"
proof -
  obtain wr' w' where run: "Handler_CreateCompany canonical_uuids world_runtime world_service
      (bolt_http 3000000000) fresh_writer acme_world = (wr', w')" by fastforce
  have "is_go_int 3000000000" by (simp add: is_go_int_def int_min_def int_max_def)
  from wide_amount_is_a_server_error [OF reference_service acme_view
      bolt_http_decodes [OF this] bolt_request_input bolt_input_valid _ bolt_free run] run
  show ?thesis by simp
qed

end
