(* ===== verification/Traces.thy ===== *)
theory Traces
  imports UseCases
begin

text \<open>
  A use case seen from outside: the calls it makes, one by one, for whatever answers it gets.

  The world here is a script: the answers that are going to be given, and the log of the calls made
  so far.  Running the code on a script of answers gives its trace; the traces for all answers are
  the behaviours of the code as one of many clients of a server (theory \<open>Concurrency\<close>).  A small logic
  of triples shows what holds of the log whenever a call is made.
\<close>

subsection \<open>Scripts\<close>

datatype call =
    CNow | CUuid | CBegin
  | CExec executor stmt | CQuery executor stmt | CQueryRow executor stmt
  | CCommit tx_handle | CRollback tx_handle | CPublish event

datatype answer =
    ATime time | AUuid uuid | ATx "goerr + tx_handle" | ACount "goerr + nat"
  | ARows "goerr + sqlval list list \<times> goerr option" | ARow "goerr + sqlval list"
  | ADone "goerr option"

type_synonym trace = "(call \<times> answer) list"

record script =
  answers :: "answer list"
  log :: trace

text \<open>
  A call takes the next answer and is logged with it.  When there is none, or it is not an answer to
  this call, the script has come to its end: nothing is logged any more.
\<close>

definition ask :: "call \<Rightarrow> (answer \<Rightarrow> 'b option) \<Rightarrow> 'b \<Rightarrow> script \<Rightarrow> 'b \<times> script" where
  "ask c read stopped s =
     (case answers s of
        [] \<Rightarrow> (stopped, s)
      | a # as \<Rightarrow>
          (case read a of
             None \<Rightarrow> (stopped, s\<lparr>answers := []\<rparr>)
           | Some r \<Rightarrow> (r, s\<lparr>answers := as, log := log s @ [(c, a)]\<rparr>)))"

fun time_of where "time_of (ATime t) = Some t" | "time_of _ = None"
fun uuid_of where "uuid_of (AUuid u) = Some u" | "uuid_of _ = None"
fun tx_of where "tx_of (ATx r) = Some r" | "tx_of _ = None"
fun count_of where "count_of (ACount r) = Some r" | "count_of _ = None"
fun rows_answer where "rows_answer (ARows r) = Some r" | "rows_answer _ = None"
fun done_of where "done_of (ADone r) = Some r" | "done_of _ = None"

text \<open>A row that answers a query satisfies the query's condition.\<close>

fun row_fits :: "stmt \<Rightarrow> goerr + sqlval list \<Rightarrow> bool" where
  "row_fits (Select cols name [Eq c v] order limit suffix) (Inr row) \<longleftrightarrow> map_of (zip cols row) c = Some v"
| "row_fits _ _ \<longleftrightarrow> True"

fun row_answer_of :: "stmt \<Rightarrow> answer \<Rightarrow> (goerr + sqlval list) option" where
  "row_answer_of st (ARow r) = (if row_fits st r then Some r else None)"
| "row_answer_of st _ = None"

lemma answer_of_Some [simp]:
  "time_of a = Some t \<longleftrightarrow> a = ATime t" "uuid_of a = Some u \<longleftrightarrow> a = AUuid u"
  "tx_of a = Some x \<longleftrightarrow> a = ATx x" "count_of a = Some n \<longleftrightarrow> a = ACount n"
  "rows_answer a = Some rs \<longleftrightarrow> a = ARows rs" "row_answer_of st a = Some r \<longleftrightarrow> a = ARow r \<and> row_fits st r"
  "done_of a = Some d \<longleftrightarrow> a = ADone d"
  by (cases a; auto)+

definition end_of_script :: goerr where
  "end_of_script = OtherError ''end of script''"

definition script_driver :: "(stmt \<Rightarrow> goerr option) \<Rightarrow> script driver" where
  "script_driver tosql =
     \<lparr>ToSql = tosql,
      Exec = (\<lambda>x st. ask (CExec x st) count_of (Inl end_of_script)),
      Query = (\<lambda>x st. ask (CQuery x st) rows_answer (Inl end_of_script)),
      QueryRow = (\<lambda>x st. ask (CQueryRow x st) (row_answer_of st) (Inl end_of_script)),
      Begin = ask CBegin tx_of (Inl end_of_script),
      Commit = (\<lambda>t. ask (CCommit t) done_of (Some end_of_script)),
      Rollback = (\<lambda>t. ask (CRollback t) done_of (Some end_of_script))\<rparr>"

definition script_producer :: "script EventProducer" where
  "script_producer =
     \<lparr>Publish = (\<lambda>ctx ev. ask (CPublish ev) done_of (Some end_of_script)),
      Close = (\<lambda>ctx s. (None, s))\<rparr>"

definition script_runtime :: "script runtime" where
  "script_runtime = \<lparr>time_Now = ask CNow time_of 0, uuid_New = ask CUuid uuid_of 0\<rparr>"

lemma script_driver_simps:
  "ToSql (script_driver tosql) = tosql"
  "Exec (script_driver tosql) x st = ask (CExec x st) count_of (Inl end_of_script)"
  "Query (script_driver tosql) x st = ask (CQuery x st) rows_answer (Inl end_of_script)"
  "QueryRow (script_driver tosql) x st = ask (CQueryRow x st) (row_answer_of st) (Inl end_of_script)"
  "Begin (script_driver tosql) = ask CBegin tx_of (Inl end_of_script)"
  "Commit (script_driver tosql) t = ask (CCommit t) done_of (Some end_of_script)"
  "Rollback (script_driver tosql) t = ask (CRollback t) done_of (Some end_of_script)"
  "time_Now script_runtime = ask CNow time_of 0" "uuid_New script_runtime = ask CUuid uuid_of 0"
  "Publish script_producer ctx ev = ask (CPublish ev) done_of (Some end_of_script)"
  by (simp_all add: script_driver_def script_runtime_def script_producer_def)

subsection \<open>Triples\<close>

text \<open>A log obeys a protocol when each of its calls is allowed after the calls before it.\<close>

definition obeys :: "(trace \<Rightarrow> call \<Rightarrow> bool) \<Rightarrow> trace \<Rightarrow> bool" where
  "obeys I L \<longleftrightarrow> (\<forall>k<length L. I (take k L) (fst (L ! k)))"

lemma obeys_Nil [simp]: "obeys I []"
  by (simp add: obeys_def)

lemma obeys_snoc [simp]: "obeys I (L @ [ca]) \<longleftrightarrow> obeys I L \<and> I L (fst ca)"
  by (auto simp: obeys_def nth_append less_Suc_eq)

text \<open>
  The triple: from a log that obeys the protocol and satisfies \<open>P\<close>, the log goes on to obey it, and
  satisfies \<open>Q\<close> for the result, unless the script has come to its end.
\<close>

definition along ::
    "(trace \<Rightarrow> call \<Rightarrow> bool) \<Rightarrow> (trace \<Rightarrow> bool) \<Rightarrow> (script \<Rightarrow> 'b \<times> script) \<Rightarrow> ('b \<Rightarrow> trace \<Rightarrow> bool) \<Rightarrow> bool" where
  "along I P m Q \<longleftrightarrow>
     (\<forall>s. answers s = [] \<longrightarrow> snd (m s) = s) \<and>
     (\<forall>s r s'. obeys I (log s) \<longrightarrow> P (log s) \<longrightarrow> m s = (r, s') \<longrightarrow>
        obeys I (log s') \<and> (answers s' = [] \<or> Q r (log s')))"

named_theorems along_intros \<open>rules for the constructs of the code\<close>

lemma along_ask:
  assumes "\<And>L. P L \<Longrightarrow> I L c" and "\<And>L a r. P L \<Longrightarrow> read a = Some r \<Longrightarrow> Q r (L @ [(c, a)])"
  shows "along I P (ask c read d) Q"
  using assms by (auto simp: along_def ask_def split: list.splits option.splits)

lemma along_return [along_intros]:
  "(\<And>L. P L \<Longrightarrow> Q r L) \<Longrightarrow> along I P (\<lambda>s. (r, s)) Q"
  by (auto simp: along_def)

lemma alongI:
  assumes "\<And>s. answers s = [] \<Longrightarrow> snd (m s) = s"
    and "\<And>s r s'. obeys I (log s) \<Longrightarrow> P (log s) \<Longrightarrow> m s = (r, s') \<Longrightarrow>
      obeys I (log s') \<and> (answers s' = [] \<or> Q r (log s'))"
  shows "along I P m Q"
  using assms unfolding along_def by blast

lemma alongD:
  assumes "along I P m Q" and "obeys I (log s)" and "P (log s)" and "m s = (r, s')"
  shows "obeys I (log s')" and "answers s' = [] \<or> Q r (log s')"
  using assms unfolding along_def by blast+

lemma along_stopped: "along I P m Q \<Longrightarrow> answers s = [] \<Longrightarrow> m s = (r, s') \<Longrightarrow> s' = s"
  unfolding along_def by (metis snd_conv)

lemma along_bind:
  assumes m: "along I P m M" and k: "\<And>a. along I (M a) (k a) Q"
  shows "along I P (\<lambda>s. case m s of (a, s) \<Rightarrow> k a s) Q"
proof (rule alongI)
  fix s :: script assume "answers s = []"
  then show "snd (case m s of (a, s) \<Rightarrow> k a s) = s"
    using along_stopped [OF m] along_stopped [OF k] by (auto split: prod.split) (metis prod.collapse)
next
  fix s s' :: script and r assume s: "obeys I (log s)" "P (log s)"
    and run: "(case m s of (a, s) \<Rightarrow> k a s) = (r, s')"
  obtain a s1 where a: "m s = (a, s1)" by fastforce
  with run have then_k: "k a s1 = (r, s')" by simp
  note s1 = alongD [OF m s a]
  show "obeys I (log s') \<and> (answers s' = [] \<or> Q r (log s'))"
  proof (cases "answers s1 = []")
    case True
    with along_stopped [OF k True then_k] s1 show ?thesis by simp
  next
    case False
    with s1 alongD [OF k s1(1) _ then_k] show ?thesis by blast
  qed
qed

text \<open>What does not depend on the log is kept.\<close>

lemma along_keep: "(b \<Longrightarrow> along I P m Q) \<Longrightarrow> along I P m (\<lambda>r L. True) \<Longrightarrow>
  along I (\<lambda>L. P L \<and> b) m (\<lambda>r L. Q r L \<and> b)"
  unfolding along_def by blast

lemma along_pre: "along I P m Q \<Longrightarrow> (\<And>L. P' L \<Longrightarrow> P L) \<Longrightarrow> along I P' m Q"
  unfolding along_def by blast

text \<open>
  An early return: nothing is asked on it, so it is enough that its result satisfies the
  postcondition.
\<close>

lemma along_result: "(\<And>L. P L \<Longrightarrow> Q r L) \<Longrightarrow> along I P (Pair r) Q"
  by (auto simp: along_def)

lemma along_try_io:
  assumes "along I P m M" and "\<And>e L. M (Inl e) L \<Longrightarrow> Q (h e) L" and "\<And>a. along I (M (Inr a)) (k a) Q"
  shows "along I P (try_io m h k) Q"
proof -
  have "along I (M x) (case x of Inl e \<Rightarrow> Pair (h e) | Inr a \<Rightarrow> k a) Q" for x
    using assms(2,3) by (cases x) (simp_all add: along_result)
  from along_bind [OF assms(1) this]
  have "along I P (\<lambda>s. case m s of (x, s) \<Rightarrow> (case x of Inl e \<Rightarrow> Pair (h e) | Inr a \<Rightarrow> k a) s) Q" .
  moreover have "(\<lambda>s. case m s of (x, s) \<Rightarrow> (case x of Inl e \<Rightarrow> Pair (h e) | Inr a \<Rightarrow> k a) s) = try_io m h k"
    by (simp add: try_io_def fun_eq_iff split: prod.split sum.split)
  ultimately show ?thesis by simp
qed

lemma along_try_cmd:
  assumes "along I P m M" and "\<And>e L. M (Some e) L \<Longrightarrow> Q (h e) L" and "along I (M None) k Q"
  shows "along I P (try_cmd m h k) Q"
proof -
  have "along I (M x) (case x of None \<Rightarrow> k | Some e \<Rightarrow> Pair (h e)) Q" for x
    using assms(2,3) by (cases x) (simp_all add: along_result)
  from along_bind [OF assms(1) this]
  have "along I P (\<lambda>s. case m s of (x, s) \<Rightarrow> (case x of None \<Rightarrow> k | Some e \<Rightarrow> Pair (h e)) s) Q" .
  moreover have "(\<lambda>s. case m s of (x, s) \<Rightarrow> (case x of None \<Rightarrow> k | Some e \<Rightarrow> Pair (h e)) s) = try_cmd m h k"
    by (simp add: try_cmd_def fun_eq_iff split: prod.split option.split)
  ultimately show ?thesis by simp
qed

lemma along_with_sql:
  assumes "\<And>e L. P L \<Longrightarrow> Q (h e) L" and "along I P (k st) Q"
  shows "along I P (with_sql pg st h k) Q"
proof -
  have "with_sql pg st h k = (case ToSql pg st of Some e \<Rightarrow> Pair (h e) | None \<Rightarrow> k st)"
    by (simp add: with_sql_def [abs_def] fun_eq_iff split: option.split)
  with assms show ?thesis by (simp add: along_result split: option.split)
qed

lemma along_post: "along I P m Q \<Longrightarrow> (\<And>r L. Q r L \<Longrightarrow> Q' r L) \<Longrightarrow> along I P m Q'"
  unfolding along_def by blast

lemma along_if [along_intros]:
  "(b \<Longrightarrow> along I P m Q) \<Longrightarrow> (\<not> b \<Longrightarrow> along I P k Q) \<Longrightarrow> along I P (\<lambda>s. if b then m s else k s) Q"
  by (cases b) simp_all

lemma along_case_sum [along_intros]:
  "(\<And>e. x = Inl e \<Longrightarrow> along I P (m1 e) Q) \<Longrightarrow> (\<And>a. x = Inr a \<Longrightarrow> along I P (m2 a) Q) \<Longrightarrow>
   along I P (\<lambda>s. case x of Inl e \<Rightarrow> m1 e s | Inr a \<Rightarrow> m2 a s) Q"
  by (cases x) simp_all

lemma along_case_option [along_intros]:
  "(x = None \<Longrightarrow> along I P m1 Q) \<Longrightarrow> (\<And>a. x = Some a \<Longrightarrow> along I P (m2 a) Q) \<Longrightarrow>
   along I P (\<lambda>s. case x of None \<Rightarrow> m1 s | Some a \<Rightarrow> m2 a s) Q"
  by (cases x) simp_all

lemma along_case_prod [along_intros]:
  "(\<And>a b. x = (a, b) \<Longrightarrow> along I P (m a b) Q) \<Longrightarrow> along I P (\<lambda>s. case x of (a, b) \<Rightarrow> m a b s) Q"
  by (cases x) simp

end
