(* ===== verification/Isolation.thy ===== *)
theory Isolation
  imports Traces
begin

text \<open>
  A database server shared by many clients, at the isolation level that the program runs at: READ
  COMMITTED, PostgreSQL's default.

  A transaction sees the committed rows of the moment together with its own writes.  A write locks
  the rows that it changes and the entries of their unique keys, old and new, until the end of its
  transaction; whoever needs a lock that another transaction holds has to wait.  A statement takes its
  locks at once here, where PostgreSQL takes them one by one: the waiting inside of a statement, and a
  deadlock in it, is not modelled, its failure is.  A \<^verbatim>\<open>SELECT ... FOR
  UPDATE SKIP LOCKED\<close> leaves out the locked rows and locks the ones it returns.  Every call may fail,
  which ends the transaction, and the answer of a call that was carried out may be lost.
\<close>

subsection \<open>Locks\<close>

type_synonym key = "string \<times> string \<times> sqlval"

text \<open>A row is locked under its unique keys.\<close>

definition row_keys :: "string \<Rightarrow> row \<Rightarrow> key list" where
  "row_keys name r =
     (case table_of name of None \<Rightarrow> [] | Some t \<Rightarrow> map (\<lambda>(_, c). (name, c, col r c)) (unique_keys t))"

definition matched :: "time \<Rightarrow> string \<Rightarrow> sqlcond list \<Rightarrow> database \<Rightarrow> row list" where
  "matched now name conds db =
     (case table_of name of
        None \<Rightarrow> []
      | Some t \<Rightarrow>
          (case bind_conds t conds of Inl e \<Rightarrow> [] | Inr cs \<Rightarrow> filter (matches now cs) (rows_of name db)))"

definition picked ::
    "time \<Rightarrow> string \<Rightarrow> sqlcond list \<Rightarrow> string option \<Rightarrow> nat option \<Rightarrow> database \<Rightarrow> row list" where
  "picked now name conds order limit db =
     (case table_of name of
        None \<Rightarrow> []
      | Some t \<Rightarrow>
          (case bind_conds t conds of
             Inl e \<Rightarrow> [] | Inr cs \<Rightarrow> selected now cs order limit (rows_of name db)))"

definition new_rows :: "string \<Rightarrow> database \<Rightarrow> database \<Rightarrow> row list" where
  "new_rows name db db' = filter (\<lambda>r. r \<notin> set (rows_of name db)) (rows_of name db')"

text \<open>The keys that a statement locks, from the tables before and after it.\<close>

fun keys_of :: "time \<Rightarrow> stmt \<Rightarrow> database \<Rightarrow> database \<Rightarrow> key list" where
  "keys_of now (Insert name cols vals) db db' = concat (map (row_keys name) (new_rows name db db'))"
| "keys_of now (UpdateSet name sets conds) db db' =
     concat (map (row_keys name) (matched now name conds db @ new_rows name db db'))"
| "keys_of now (DeleteFrom name conds) db db' = concat (map (row_keys name) (matched now name conds db))"
| "keys_of now (Select cols name conds order limit suffix) db db' =
     (if suffix = '''' then [] else concat (map (row_keys name) (picked now name conds order limit db)))"

subsection \<open>The shared server\<close>

record tx =
  since :: time
    \<comment> \<open>what \<^verbatim>\<open>now()\<close> is in the transaction\<close>
  did :: "(stmt \<times> nat) list"
    \<comment> \<open>its writes so far, with the numbers of rows\<close>
  held :: "key list"

record cluster =
  base :: database
    \<comment> \<open>what is committed\<close>
  active :: "tx_handle \<Rightarrow> tx option"
  next_handle :: tx_handle
  sent_events :: "event list"
    \<comment> \<open>what the broker has taken\<close>

text \<open>The writes of a transaction on top of what is committed now.\<close>

fun redo :: "time \<Rightarrow> (stmt \<times> nat) list \<Rightarrow> database \<Rightarrow> database option" where
  "redo now [] db = Some db"
| "redo now ((st, n) # ws) db =
     (if n = 0 then redo now ws db
      else
        (case sql_exec now st db of
           Inl e \<Rightarrow> None
         | Inr (rows, m, db') \<Rightarrow> if m = n then redo now ws db' else None))"

definition view_of :: "tx \<Rightarrow> cluster \<Rightarrow> database option" where
  "view_of a s = redo (since a) (did a) (base s)"

text \<open>Nobody but the executor itself holds one of the keys.\<close>

definition unlocked :: "executor \<Rightarrow> key list \<Rightarrow> cluster \<Rightarrow> bool" where
  "unlocked x ks s \<longleftrightarrow>
     list_all (\<lambda>t. x = TxExecutor t
       \<or> (case active s t of None \<Rightarrow> True | Some a \<Rightarrow> list_all (\<lambda>k. k \<notin> set (held a)) ks))
       [0..<next_handle s]"

text \<open>The tables that a query works on.\<close>

fun readable :: "executor \<Rightarrow> stmt \<Rightarrow> cluster \<Rightarrow> database \<Rightarrow> database" where
  "readable x (Select cols name conds order limit suffix) s db =
     (if suffix = ''FOR UPDATE SKIP LOCKED''
      then set_rows name (filter (\<lambda>r. unlocked x (row_keys name r) s) (rows_of name db)) db
      else db)"
| "readable x st s db = db"

definition locking :: "tx_handle \<Rightarrow> key list \<Rightarrow> cluster \<Rightarrow> cluster" where
  "locking t ks s =
     s\<lparr>active := (active s)(t := map_option (\<lambda>a. a\<lparr>held := held a @ ks\<rparr>) (active s t))\<rparr>"

definition writing :: "tx_handle \<Rightarrow> stmt \<Rightarrow> nat \<Rightarrow> cluster \<Rightarrow> cluster" where
  "writing t st n s =
     s\<lparr>active := (active s)(t := map_option (\<lambda>a. a\<lparr>did := did a @ [(st, n)]\<rparr>) (active s t))\<rparr>"

definition ending :: "tx_handle \<Rightarrow> cluster \<Rightarrow> cluster" where
  "ending t s = s\<lparr>active := (active s)(t := None)\<rparr>"

text \<open>A query: the rows it returns and the locks it takes.\<close>

inductive reads :: "cluster \<Rightarrow> executor \<Rightarrow> stmt \<Rightarrow> sqlval list list \<Rightarrow> cluster \<Rightarrow> bool" where
  by_pool: "st = Select cols name conds order limit suffix \<Longrightarrow>
    sql_exec now st (readable PoolExecutor st s (base s)) = Inr (rows, n, db') \<Longrightarrow>
    reads s PoolExecutor st rows s"
| by_tx: "st = Select cols name conds order limit suffix \<Longrightarrow>
    active s t = Some a \<Longrightarrow> view_of a s = Some db \<Longrightarrow>
    sql_exec (since a) st (readable (TxExecutor t) st s db) = Inr (rows, n, db') \<Longrightarrow>
    ks = keys_of (since a) st (readable (TxExecutor t) st s db) db' \<Longrightarrow>
    unlocked (TxExecutor t) ks s \<Longrightarrow>
    reads s (TxExecutor t) st rows (locking t ks s)"

text \<open>Failing answers, and the errors that they may tell of.\<close>

fun failure_of :: "call \<Rightarrow> answer \<Rightarrow> goerr option" where
  "failure_of CBegin (ATx (Inl e)) = Some e"
| "failure_of (CExec x st) (ACount (Inl e)) = Some e"
| "failure_of (CQuery x st) (ARows (Inl e)) = Some e"
| "failure_of (CQuery x st) (ARows (Inr (rows, Some e))) = Some e"
| "failure_of (CQueryRow x st) (ARow (Inl e)) = Some e"
| "failure_of (CCommit t) (ADone (Some e)) = Some e"
| "failure_of (CRollback t) (ADone (Some e)) = Some e"
| "failure_of (CPublish ev) (ADone (Some e)) = Some e"
| "failure_of _ _ = None"

fun executor_of :: "call \<Rightarrow> executor" where
  "executor_of (CExec x st) = x"
| "executor_of (CQuery x st) = x"
| "executor_of (CQueryRow x st) = x"
| "executor_of (CCommit t) = TxExecutor t"
| "executor_of (CRollback t) = TxExecutor t"
| "executor_of _ = PoolExecutor"

fun stmt_of :: "call \<Rightarrow> stmt option" where
  "stmt_of (CExec x st) = Some st"
| "stmt_of (CQuery x st) = Some st"
| "stmt_of (CQueryRow x st) = Some st"
| "stmt_of _ = None"

text \<open>An error from below, of the broker, or the statement's own error in some state of the tables.\<close>

definition may_fail :: "call \<Rightarrow> goerr \<Rightarrow> bool" where
  "may_fail c e \<longleftrightarrow>
     internal_error e \<or> (\<exists>ev. c = CPublish ev)
     \<or> (\<exists>st now db. stmt_of c = Some st \<and> sql_exec now st db = Inl e)"

definition dropped :: "call \<Rightarrow> cluster \<Rightarrow> cluster" where
  "dropped c s = (case executor_of c of PoolExecutor \<Rightarrow> s | TxExecutor t \<Rightarrow> ending t s)"

text \<open>The answer of a call that was carried out: it may get lost.\<close>

definition acknowledges :: "goerr option \<Rightarrow> bool" where
  "acknowledges d \<longleftrightarrow> (case d of None \<Rightarrow> True | Some e \<Rightarrow> internal_error e)"

text \<open>One call: its answer and what it does to the server.\<close>

inductive serve :: "cluster \<Rightarrow> call \<Rightarrow> answer \<Rightarrow> cluster \<Rightarrow> bool" where
  clock: "serve s CNow (ATime now) s"
| random: "serve s CUuid (AUuid u) s"
| begins: "serve s CBegin (ATx (Inr (next_handle s)))
    (s\<lparr>active := (active s)(next_handle s \<mapsto> \<lparr>since = now, did = [], held = []\<rparr>),
       next_handle := Suc (next_handle s)\<rparr>)"
| writes_in_tx: "active s t = Some a \<Longrightarrow> view_of a s = Some db \<Longrightarrow>
    sql_exec (since a) st db = Inr (rows, n, db') \<Longrightarrow> ks = keys_of (since a) st db db' \<Longrightarrow>
    unlocked (TxExecutor t) ks s \<Longrightarrow>
    serve s (CExec (TxExecutor t) st) (ACount (Inr n)) (writing t st n (locking t ks s))"
| writes_alone: "sql_exec now st (base s) = Inr (rows, n, db') \<Longrightarrow>
    unlocked PoolExecutor (keys_of now st (base s) db') s \<Longrightarrow>
    r = Inr n \<or> (\<exists>e. r = Inl e \<and> internal_error e) \<Longrightarrow>
    serve s (CExec PoolExecutor st) (ACount r) (s\<lparr>base := db'\<rparr>)"
| query: "reads s x st rows s' \<Longrightarrow> serve s (CQuery x st) (ARows (Inr (rows, None))) s'"
| query_row: "reads s x st rows s' \<Longrightarrow>
    r = (case rows of [] \<Rightarrow> Inl ErrNoRows | row # _ \<Rightarrow> Inr row) \<Longrightarrow>
    serve s (CQueryRow x st) (ARow r) s'"
| commits: "active s t = Some a \<Longrightarrow> view_of a s = Some db \<Longrightarrow> acknowledges d \<Longrightarrow>
    serve s (CCommit t) (ADone d) (ending t (s\<lparr>base := db\<rparr>))"
| rolls_back: "serve s (CRollback t) (ADone None) (ending t s)"
| publishes: "acknowledges d \<Longrightarrow>
    serve s (CPublish ev) (ADone d) (s\<lparr>sent_events := sent_events s @ [ev]\<rparr>)"
| fails: "failure_of c a = Some e \<Longrightarrow> may_fail c e \<Longrightarrow> serve s c a (dropped c s)"

end
