(* ===== verification/Protocols.thy ===== *)
theory Protocols
  imports Traces
begin

text \<open>
  Which calls a request makes of the database and in which order, for whatever answers it gets: the
  protocols that the use cases follow, proved for the code with the triples of \<open>Traces\<close>.
\<close>

subsection \<open>The protocol of a request\<close>

text \<open>The successful writes of a transaction, with the numbers of rows.\<close>

fun write_of :: "tx_handle \<Rightarrow> call \<times> answer \<Rightarrow> (stmt \<times> nat) list" where
  "write_of t (CExec (TxExecutor u) st, ACount (Inr n)) = (if u = t then [(st, n)] else [])"
| "write_of t _ = []"

definition writes :: "tx_handle \<Rightarrow> trace \<Rightarrow> (stmt \<times> nat) list" where
  "writes t L = concat (map (write_of t) L)"

definition begun :: "tx_handle \<Rightarrow> trace \<Rightarrow> bool" where
  "begun t L \<longleftrightarrow> (CBegin, ATx (Inr t)) \<in> set L"

lemma writes_snoc [simp]: "writes t (L @ [ca]) = writes t L @ write_of t ca" "writes t [] = []"
  by (simp_all add: writes_def)

lemma begun_snoc [simp]: "begun t (L @ [ca]) \<longleftrightarrow> begun t L \<or> ca = (CBegin, ATx (Inr t))" "\<not> begun t []"
  by (auto simp: begun_def)

text \<open>The statement of a change, and what a company in a change rests on.\<close>

fun write_stmt :: "change \<Rightarrow> stmt" where
  "write_stmt (Created c) = company_insert c"
| "write_stmt (Updated c) = company_update c"
| "write_stmt (Deleted c) = company_delete (ID c)"

definition scanned :: "trace \<Rightarrow> company \<Rightarrow> bool" where
  "scanned L c \<longleftrightarrow>
     (\<exists>x st row. (CQueryRow x st, ARow (Inr row)) \<in> set L \<and> scanCompany (Inr row) = Inr c)"

fun grounded :: "trace \<Rightarrow> change \<Rightarrow> bool" where
  "grounded L (Created c) = valid_company c"
| "grounded L (Updated c) = valid_company c"
| "grounded L (Deleted c) = scanned L c"

lemma scanned_snoc: "scanned L c \<Longrightarrow> scanned (L @ [ca]) c"
  by (auto simp: scanned_def)

lemma grounded_snoc: "grounded L ch \<Longrightarrow> grounded (L @ [ca]) ch"
  by (cases ch) (simp_all add: scanned_snoc)

definition is_created :: "change \<Rightarrow> bool" where
  "is_created ch \<longleftrightarrow> (\<exists>c. ch = Created c)"

text \<open>One change of a company, and then the event that announces it.\<close>

definition wrote_change :: "trace \<Rightarrow> change \<Rightarrow> (stmt \<times> nat) list \<Rightarrow> bool" where
  "wrote_change L ch ws \<longleftrightarrow>
     grounded L ch \<and> (\<exists>n. ws = [(write_stmt ch, n)] \<and> (n \<noteq> 0 \<or> is_created ch))"

definition wrote_event :: "uuid_lib \<Rightarrow> trace \<Rightarrow> change \<Rightarrow> event \<Rightarrow> (stmt \<times> nat) list \<Rightarrow> bool" where
  "wrote_event lib L ch ev ws \<longleftrightarrow>
     grounded L ch \<and> announces ev ch
     \<and> (\<exists>n m j. ws = [(write_stmt ch, n), (outbox_insert ev j, m)] \<and> (n \<noteq> 0 \<or> is_created ch)
          \<and> marshal_event lib ev = Inr j)"

definition may_write :: "uuid_lib \<Rightarrow> trace \<Rightarrow> (stmt \<times> nat) list \<Rightarrow> stmt \<Rightarrow> bool" where
  "may_write lib L ws st \<longleftrightarrow>
     ws = [] \<and> (\<exists>ch. st = write_stmt ch \<and> grounded L ch)
     \<or> (\<exists>ch ev j. wrote_change L ch ws \<and> announces ev ch \<and> marshal_event lib ev = Inr j
          \<and> st = outbox_insert ev j)"

fun protocol :: "uuid_lib \<Rightarrow> trace \<Rightarrow> call \<Rightarrow> bool" where
  "protocol lib L (CExec x st) =
     (\<exists>t. x = TxExecutor t \<and> begun t L \<and> may_write lib L (writes t L) st)"
| "protocol lib L (CQueryRow x st) =
     (\<exists>key. st = selectCompany [key] \<and> ((\<exists>i. key = Eq ''id'' (VUuid i)) \<or> (\<exists>n. key = Eq ''name'' (VText n))))"
| "protocol lib L (CQuery x st) = False"
| "protocol lib L (CCommit t) = (begun t L \<and> (\<exists>ch ev. wrote_event lib L ch ev (writes t L)))"
| "protocol lib L _ = True"

text \<open>The stages of a transaction.\<close>

definition stage0 :: "tx_handle \<Rightarrow> trace \<Rightarrow> bool" where
  "stage0 t L \<longleftrightarrow> begun t L \<and> writes t L = []"

definition stage1 :: "tx_handle \<Rightarrow> change \<Rightarrow> trace \<Rightarrow> bool" where
  "stage1 t ch L \<longleftrightarrow> begun t L \<and> wrote_change L ch (writes t L)"

definition stage2 :: "uuid_lib \<Rightarrow> tx_handle \<Rightarrow> change \<Rightarrow> event \<Rightarrow> trace \<Rightarrow> bool" where
  "stage2 lib t ch ev L \<longleftrightarrow> begun t L \<and> wrote_event lib L ch ev (writes t L)"

lemma stage_snoc:
  "stage0 t L \<Longrightarrow> write_of t ca = [] \<Longrightarrow> stage0 t (L @ [ca])"
  "stage1 t ch L \<Longrightarrow> write_of t ca = [] \<Longrightarrow> stage1 t ch (L @ [ca])"
  by (auto simp: stage0_def stage1_def wrote_change_def grounded_snoc)

subsection \<open>The repositories\<close>

lemmas along_ask_rules =
  along_ask [where read = time_of, unfolded answer_of_Some]
  along_ask [where read = uuid_of, unfolded answer_of_Some]
  along_ask [where read = tx_of, unfolded answer_of_Some]
  along_ask [where read = count_of, unfolded answer_of_Some]
  along_ask [where read = "row_answer_of st" for st, unfolded answer_of_Some]
  along_ask [where read = done_of, unfolded answer_of_Some]

text \<open>A read keeps every property of the log that reads keep, and gives what it has scanned.\<close>

definition kept_by_reads :: "(trace \<Rightarrow> bool) \<Rightarrow> bool" where
  "kept_by_reads P \<longleftrightarrow> (\<forall>L c a. P L \<longrightarrow> (\<forall>x st. c \<noteq> CExec x st) \<longrightarrow> P (L @ [(c, a)]))"

lemma write_of_other: "(\<forall>x st. c \<noteq> CExec x st) \<Longrightarrow> write_of t (c, a) = []"
  by (cases c; cases a) auto

lemma kept_by_readsD: "kept_by_reads P \<Longrightarrow> P L \<Longrightarrow> \<forall>x st. c \<noteq> CExec x st \<Longrightarrow> P (L @ [(c, a)])"
  by (simp add: kept_by_reads_def)

lemma kept_stage0 [simp]: "kept_by_reads (stage0 t)"
  by (simp add: kept_by_reads_def stage_snoc write_of_other)

lemma kept_stage1 [simp]: "kept_by_reads (stage1 t ch)"
  by (simp add: kept_by_reads_def stage_snoc write_of_other)

lemma kept_scanned [simp]:
  "kept_by_reads P \<Longrightarrow> kept_by_reads (\<lambda>L. P L \<and> scanned L c)"
  "kept_by_reads P \<Longrightarrow> kept_by_reads (\<lambda>L. P L \<and> scanned L c \<and> b)"
  by (simp_all add: kept_by_reads_def scanned_snoc)

lemma kept_true [simp]: "kept_by_reads (\<lambda>L. True)"
  by (simp add: kept_by_reads_def)

text \<open>The query of one company, by id or by name.\<close>

lemma scanned_id:
  "scanCompany r = Inr c \<Longrightarrow> row_fits (selectCompany [Eq ''id'' (VUuid i)]) r \<Longrightarrow> ID c = i"
  by (auto simp: scanCompany_def selectCompany_def split: sum.splits if_splits list.splits sqlval.splits)

lemma along_select:
  assumes P: "kept_by_reads P"
    and key: "(\<exists>i. key = Eq ''id'' (VUuid i)) \<or> (\<exists>n. key = Eq ''name'' (VText n))"
  shows "along (protocol lib) P (ask (CQueryRow x (selectCompany [key])) (row_answer_of (selectCompany [key])) d)
    (\<lambda>r L. P L \<and> (\<forall>c. scanCompany r = Inr c \<longrightarrow> scanned L c \<and> (\<forall>i. key = Eq ''id'' (VUuid i) \<longrightarrow> ID c = i)))"
proof (rule along_ask_rules)
  let ?c = "CQueryRow x (selectCompany [key])"
  fix L a and r :: "goerr + sqlval list" assume "P L" and a: "a = ARow r \<and> row_fits (selectCompany [key]) r"
  then have "P (L @ [(?c, a)])" using P kept_by_readsD by blast
  moreover have "scanned (L @ [(?c, a)]) c" if "scanCompany r = Inr c" for c
  proof -
    from that obtain row where "r = Inr row" by (cases r) (auto simp: scanCompany_def split: if_splits)
    with that a show ?thesis by (auto simp: scanned_def)
  qed
  moreover have "ID c = i" if "scanCompany r = Inr c" "key = Eq ''id'' (VUuid i)" for c i
    using that a scanned_id by blast
  ultimately show "P (L @ [(?c, a)]) \<and> (\<forall>c. scanCompany r = Inr c \<longrightarrow> scanned (L @ [(?c, a)]) c
      \<and> (\<forall>i. key = Eq ''id'' (VUuid i) \<longrightarrow> ID c = i))"
    by blast
qed (use key in auto)

lemma along_GetByID:
  assumes "kept_by_reads P"
  shows "along (protocol lib) P (CompanyRepository_GetByID (script_driver tosql) ctx i)
    (\<lambda>r L. P L \<and> (\<forall>c. r = Inr c \<longrightarrow> scanned L c \<and> ID c = i))"
  unfolding CompanyRepository_GetByID_def script_driver_simps
  by (rule along_with_sql, simp, rule along_bind, rule along_select [OF assms])
    (auto intro!: along_intros)

lemma along_GetByName:
  assumes "kept_by_reads P"
  shows "along (protocol lib) P (CompanyRepository_GetByName (script_driver tosql) ctx n)
    (\<lambda>r L. P L \<and> (\<forall>c. r = Inr c \<longrightarrow> scanned L c))"
  unfolding CompanyRepository_GetByName_def script_driver_simps
  by (rule along_with_sql, simp, rule along_bind, rule along_select [OF assms])
    (auto intro!: along_intros)

text \<open>A write of a company, from the first stage to the second.\<close>

lemma along_write:
  assumes st: "st = write_stmt ch" and P: "\<And>L. P L \<Longrightarrow> stage0 t L \<and> grounded L ch"
  shows "along (protocol lib) P (ask (CExec (TxExecutor t) st) count_of d)
    (\<lambda>r L. \<forall>n. r = Inr n \<longrightarrow> n \<noteq> 0 \<or> is_created ch \<longrightarrow> stage1 t ch L)"
proof (rule along_ask_rules)
  show "protocol lib L (CExec (TxExecutor t) st)" if "P L" for L
    using P [OF that] st by (auto simp: stage0_def may_write_def)
  show "\<forall>n. r = Inr n \<longrightarrow> n \<noteq> 0 \<or> is_created ch \<longrightarrow> stage1 t ch (L @ [(CExec (TxExecutor t) st, a)])"
    if "P L" "a = ACount r" for L a and r :: "goerr + nat"
    using P [OF that(1)] that(2) st by (auto simp: stage0_def stage1_def wrote_change_def grounded_snoc)
qed

lemma along_Create:
  assumes "valid_company c"
  shows "along (protocol lib) (stage0 t) (CompanyRepository_Create (script_driver tosql) (tx_ctx t) c)
    (\<lambda>r L. r = None \<longrightarrow> stage1 t (Created c) L)"
  unfolding CompanyRepository_Create_def script_driver_simps executor_simps
  by (rule along_with_sql, simp, rule along_try_io, rule along_write [where ch = "Created c"])
    (auto intro!: along_intros simp: is_created_def assms)

lemma along_Update:
  assumes "valid_company c"
  shows "along (protocol lib) (stage0 t) (CompanyRepository_Update (script_driver tosql) (tx_ctx t) c)
    (\<lambda>r L. r = None \<longrightarrow> stage1 t (Updated c) L)"
  unfolding CompanyRepository_Update_def script_driver_simps executor_simps
  by (rule along_with_sql, simp, rule along_try_io, rule along_write [where ch = "Updated c"])
    (auto intro!: along_intros simp: assms)

lemma along_Delete:
  "along (protocol lib) (\<lambda>L. stage0 t L \<and> scanned L c \<and> ID c = i)
     (CompanyRepository_Delete (script_driver tosql) (tx_ctx t) i)
     (\<lambda>r L. r = None \<longrightarrow> stage1 t (Deleted c) L)"
proof (cases "ID c = i")
  case True
  then have st: "company_delete i = write_stmt (Deleted c)" by simp
  show ?thesis
    unfolding CompanyRepository_Delete_def script_driver_simps executor_simps
    by (rule along_with_sql, simp, rule along_try_io, rule along_write [OF st])
      (auto intro!: along_intros)
next
  case False
  have "along (protocol lib) (\<lambda>L. False) (CompanyRepository_Delete (script_driver tosql) (tx_ctx t) i)
      (\<lambda>r L. False)"
    unfolding CompanyRepository_Delete_def script_driver_simps
    by (rule along_with_sql, simp, rule along_try_io, rule along_ask [where Q = "\<lambda>r L. False"])
      (auto intro!: along_intros)
  then show ?thesis by (rule along_post [OF along_pre]) (use False in auto)
qed

text \<open>Storing the event, from the second stage to the third.\<close>

lemma along_Store:
  assumes "announces ev ch"
  shows "along (protocol lib) (stage1 t ch) (OutboxRepository_Store lib (script_driver tosql) (tx_ctx t) ev)
    (\<lambda>r L. r = None \<longrightarrow> stage2 lib t ch ev L)"
proof (cases "marshal_event lib ev")
  case (Inl e)
  then show ?thesis
    unfolding OutboxRepository_Store_def [abs_def] by (auto intro!: along_intros)
next
  case (Inr j)
  have "along (protocol lib) (stage1 t ch) (ask (CExec (TxExecutor t) (outbox_insert ev j)) count_of d)
      (\<lambda>r L. \<forall>n. r = Inr n \<longrightarrow> stage2 lib t ch ev L)" for d
  proof (rule along_ask_rules)
    show "protocol lib L (CExec (TxExecutor t) (outbox_insert ev j))" if "stage1 t ch L" for L
      using that assms Inr by (auto simp: stage1_def may_write_def)
    show "\<forall>n. r = Inr n \<longrightarrow> stage2 lib t ch ev (L @ [(CExec (TxExecutor t) (outbox_insert ev j), a)])"
      if "stage1 t ch L" "a = ACount r" for L a and r :: "goerr + nat"
      using that assms Inr by (auto simp: stage1_def stage2_def wrote_change_def wrote_event_def grounded_snoc)
  qed
  note store = this
  have "along (protocol lib) (stage1 t ch)
      (with_sql (script_driver tosql) (outbox_insert ev j)
        (\<lambda>e. Some (wrap ''build store outbox event query'' e))
        (\<lambda>query. try_io (Exec (script_driver tosql) (executorFromContext (tx_ctx t)) query)
           (\<lambda>e. Some (wrap ''store outbox event'' e)) (\<lambda>_ w. (None, w))))
      (\<lambda>r L. r = None \<longrightarrow> stage2 lib t ch ev L)"
    unfolding script_driver_simps executor_simps
    by (rule along_with_sql, simp, rule along_try_io, rule store) (auto intro!: along_intros)
  with Inr show ?thesis by (simp add: OutboxRepository_Store_def [abs_def])
qed

subsection \<open>The use cases\<close>

abbreviation script_service :: "uuid_lib \<Rightarrow> (stmt \<Rightarrow> goerr option) \<Rightarrow> script Service" where
  "script_service lib tosql \<equiv> postgres_service lib (script_driver tosql) script_runtime"

lemma script_service_simps:
  "svc_repo (script_service lib tosql) = NewCompanyRepository (script_driver tosql)"
  "svc_outbox (script_service lib tosql) = Some (NewOutboxRepository_Store lib (script_driver tosql))"
  "svc_tx (script_service lib tosql) = Some (NewTransactionManager (script_driver tosql))"
  "svc_now (script_service lib tosql) = ask CNow time_of 0"
  "svc_newUUID (script_service lib tosql) = ask CUuid uuid_of 0"
  by (simp_all add: postgres_service_def NewServiceWithOutbox_def script_driver_simps)

lemmas script_service_defs = script_service_simps NewCompanyRepository_def NewOutboxRepository_Store_def
  NewTransactionManager_def Repository.simps OutboxStore.simps TransactionRunner.simps

lemma along_kept_ask:
  assumes "kept_by_reads P" and "\<And>L. protocol lib L c" and "\<forall>x st. c \<noteq> CExec x st"
  shows "along (protocol lib) P (ask c read d) (\<lambda>r. P)"
  by (rule along_ask) (use assms kept_by_readsD in blast)+

lemma along_publish:
  "along (protocol lib) (stage1 t ch)
     (Service_publish (script_service lib tosql) (tx_ctx t) (change_type ch) (change_company ch))
     (\<lambda>r L. r = None \<longrightarrow> (\<exists>ev. stage2 lib t ch ev L))"
  unfolding Service_publish_def [abs_def] script_service_defs option.case Let_def
proof (rule along_bind, rule along_kept_ask, goal_cases)
  case (4 i)
  show ?case
  proof (rule along_bind, rule along_kept_ask, goal_cases)
    case (4 now)
    let ?ev = "\<lparr>e_ID = i, e_Type = change_type ch, OccurredAt = now, CompanyID = ID (change_company ch),
      Company = Some (change_company ch)\<rparr>"
    have "announces ?ev ch" by (simp add: announces_def)
    then show ?case
      by (intro along_try_cmd [OF along_Store] along_intros) auto
  qed simp_all
qed simp_all

lemma along_create_in_tx:
  assumes "valid_company c"
  shows "along (protocol lib) (stage0 t) (create_in_tx (script_service lib tosql) c (tx_ctx t))
    (\<lambda>r L. \<forall>d. r = Inr d \<longrightarrow> (\<exists>ch ev. ch = Created d \<and> stage2 lib t ch ev L))"
proof -
  note publish = along_publish [of lib t "Created c" tosql, simplified]
  show ?thesis
    unfolding create_in_tx_def [abs_def] script_service_defs
    by (rule along_bind, rule along_GetByName, simp)
      (intro along_intros along_try_cmd [OF along_Create [OF assms, THEN along_pre]]
        along_try_cmd [OF publish [THEN along_pre]]; auto)
qed

lemma along_name_is_free:
  assumes "kept_by_reads P"
  shows "along (protocol lib) P (name_is_free (script_service lib tosql) ctx i v) (\<lambda>r. P)"
proof (cases v)
  case None
  then show ?thesis unfolding name_is_free_def [abs_def] by (auto intro!: along_intros)
next
  case (Some n)
  then show ?thesis
    unfolding name_is_free_def [abs_def] script_service_defs option.case
    by (simp, intro along_bind [OF along_GetByName [OF assms]] along_intros) auto
qed

lemma ApplyPatch_valid_result:
  assumes "ApplyPatch now p c = (None, c')"
  shows "valid_company c'"
proof -
  have last: "Validate c2 = None" if "try_cmd m Some k c1 = (None, c2)"
    "\<And>c1 c2. k c1 = (None, c2) \<Longrightarrow> Validate c2 = None" for m c1 c2 and k :: patch_step
    using that by (auto elim: try_cmdE)
  have "Validate c' = None"
    using assms unfolding ApplyPatch_def by (auto simp: Let_def split: if_splits dest!: last)
  then show ?thesis by simp
qed

lemma along_announced:
  "along (protocol lib) (\<lambda>L. stage1 t ch L \<and> k)
     (Service_publish (script_service lib tosql) (tx_ctx t) (change_type ch) (change_company ch))
     (\<lambda>r L. (r = None \<longrightarrow> (\<exists>ev. stage2 lib t ch ev L)) \<and> k)"
  by (rule along_keep [OF along_publish along_post [OF along_publish]]) simp

lemma along_patch_in_tx:
  "along (protocol lib) (stage0 t) (patch_in_tx script_runtime (script_service lib tosql) i input (tx_ctx t))
    (\<lambda>r L. \<forall>d. r = Inr d \<longrightarrow> (\<exists>ch ev. (ch = Updated d \<and> ID d = i) \<and> stage2 lib t ch ev L))"
proof -
  note publish = along_announced [of lib t "Updated d" "ID c = i" tosql for d c, simplified]
  have updates: "along (protocol lib) (\<lambda>L. stage0 t L \<and> k)
      (CompanyRepository_Update (script_driver tosql) (tx_ctx t) c)
      (\<lambda>r L. (r = None \<longrightarrow> stage1 t (Updated c) L) \<and> k)" if "valid_company c" for c k
    by (rule along_keep [OF along_Update along_post [OF along_Update]]) (simp_all add: that)
  have patched: "along (protocol lib) (\<lambda>L. stage0 t L \<and> ID c = i)
      (\<lambda>w. case ApplyPatch now (patch_of_input input) c of
         (Some err, existing) \<Rightarrow> (Inl (wrap ''apply company patch'' err), w)
       | (None, existing) \<Rightarrow>
           try_cmd (CompanyRepository_Update (script_driver tosql) (tx_ctx t) existing)
             (\<lambda>err. Inl (wrap ''update company'' err))
             (try_cmd (Service_publish (script_service lib tosql) (tx_ctx t) EventCompanyUpdated existing) Inl
                (\<lambda>w. (Inr existing, w))) w)
      (\<lambda>r L. \<forall>d. r = Inr d \<longrightarrow> (\<exists>ch ev. (ch = Updated d \<and> ID d = i) \<and> stage2 lib t ch ev L))" for now c
  proof (cases "ApplyPatch now (patch_of_input input) c")
    case (Pair e c')
    show ?thesis
    proof (cases e)
      case None
      with Pair have "valid_company c'" "ID c' = ID c"
        using ApplyPatch_frame [of now "patch_of_input input" c] by (auto intro: ApplyPatch_valid_result)
      with Pair None show ?thesis
        by (auto intro!: along_try_cmd [OF updates [where k = "ID c = i"]] along_try_cmd [OF publish [THEN along_pre]] along_intros)
    qed (auto simp: Pair intro!: along_intros)
  qed
  show ?thesis
    unfolding patch_in_tx_def script_service_defs script_driver_simps
    by (rule along_try_io, rule along_GetByID, simp, simp,
        rule along_try_cmd, rule along_name_is_free, simp, simp,
        rule along_bind, rule along_kept_ask, simp, simp, simp, rule along_pre, rule patched)
      simp
qed

lemma along_delete_in_tx:
  "along (protocol lib) (stage0 t) (delete_in_tx (script_service lib tosql) i (tx_ctx t))
    (\<lambda>r L. \<forall>d. r = Inr d \<longrightarrow> (\<exists>ch ev. (ch = Deleted d \<and> ID d = i) \<and> stage2 lib t ch ev L))"
proof -
  note publish = along_announced [of lib t "Deleted c" _ tosql for c, simplified]
  have deletes: "along (protocol lib) (\<lambda>L. stage0 t L \<and> scanned L c \<and> ID c = i)
      (CompanyRepository_Delete (script_driver tosql) (tx_ctx t) i)
      (\<lambda>r L. (r = None \<longrightarrow> stage1 t (Deleted c) L) \<and> ID c = i)" for c
    using along_keep [OF along_Delete along_post [OF along_Delete]]
    by (rule along_pre [where P = "\<lambda>L. (stage0 t L \<and> scanned L c \<and> ID c = i) \<and> ID c = i"]) auto
  show ?thesis
    unfolding delete_in_tx_def script_service_defs script_driver_simps
    by (rule along_try_io, rule along_GetByID, simp, simp)
      (intro along_try_cmd [OF deletes [THEN along_pre]] along_try_cmd [OF publish [THEN along_pre]]
        along_intros; auto)
qed

subsection \<open>Transactions\<close>

definition untouched :: "trace \<Rightarrow> bool" where
  "untouched L \<longleftrightarrow> (\<forall>t. writes t L = [])"

lemma kept_untouched [simp]: "kept_by_reads untouched"
  by (simp add: kept_by_reads_def untouched_def write_of_other)

text \<open>The commit of a change of a certain kind was acknowledged, and nothing came after it.\<close>

definition committed_last :: "uuid_lib \<Rightarrow> (change \<Rightarrow> bool) \<Rightarrow> trace \<Rightarrow> bool" where
  "committed_last lib C L \<longleftrightarrow>
     (\<exists>t ch ev L0. C ch \<and> L = L0 @ [(CCommit t, ADone None)] \<and> stage2 lib t ch ev L0)"

lemma tx_ctx_Background: "Background\<lparr>txContextKey := Some t\<rparr> = tx_ctx t"
  by (simp add: Background_def tx_ctx_def)

text \<open>The transaction manager, for any protocol that lets it begin, roll back and commit.\<close>

lemma along_within:
  assumes starts: "along I P (ask CBegin tx_of (Inl end_of_script)) (\<lambda>r L. \<forall>t. r = Inr t \<longrightarrow> S t L)"
    and work: "\<And>t. along I (S t) (fn (tx_ctx t)) (\<lambda>r L. \<forall>d. r = Inr d \<longrightarrow> D t d L)"
    and rollback: "\<And>L t. I L (CRollback t)"
    and commit: "\<And>t d L. D t d L \<Longrightarrow> I L (CCommit t) \<and> Q d (L @ [(CCommit t, ADone None)])"
  shows "along I P (TransactionManager_WithinTransaction (script_driver tosql) Background fn)
    (\<lambda>r L. \<forall>d. r = Inr d \<longrightarrow> Q d L)"
proof -
  have undone: "along I R (ask (CRollback t) done_of e) (\<lambda>r L. True)" for R t e
    by (rule along_ask_rules) (use rollback in auto)
  have finish: "along I (D t a) (ask (CCommit t) done_of e)
      (\<lambda>r L. r = None \<longrightarrow> Q a L)" for t a e
    by (rule along_ask_rules) (use commit in auto)
  have "along I P (\<lambda>w.
      try_io (ask CBegin tx_of (Inl end_of_script)) (\<lambda>e. Inl (wrap ''begin transaction'' e))
        (\<lambda>tx w. case fn (tx_ctx tx) w of (x, w) \<Rightarrow> (case x of
            Inl err \<Rightarrow> try_cmd (ask (CRollback tx) done_of (Some end_of_script))
              (\<lambda>rollbackErr. Inl (Errorf ''rollback transaction after '' err ('': '' @ error_text rollbackErr)))
              (\<lambda>w. (Inl err, w)) w
          | Inr result \<Rightarrow> try_cmd (ask (CCommit tx) done_of (Some end_of_script))
              (\<lambda>e. Inl (wrap ''commit transaction'' e)) (\<lambda>w. (Inr result, w)) w)) w)
      (\<lambda>r L. \<forall>d. r = Inr d \<longrightarrow> Q d L)"
    by (rule along_try_io [OF starts], simp, rule along_bind [OF work [THEN along_pre]], simp,
        rule along_case_sum)
      (auto intro!: along_try_cmd [OF undone] along_try_cmd [OF finish] along_intros)
  then show ?thesis
    unfolding TransactionManager_WithinTransaction_def [abs_def] script_driver_simps tx_ctx_Background
    by (simp add: txFromContext_def Background_def)
qed

lemma along_transaction:
  assumes "\<And>t. along (protocol lib) (stage0 t) (fn (tx_ctx t))
      (\<lambda>r L. \<forall>d. r = Inr d \<longrightarrow> (\<exists>ch ev. C d ch \<and> stage2 lib t ch ev L))"
  shows "along (protocol lib) untouched
    (Service_withinTransaction (script_service lib tosql) Background fn)
    (\<lambda>r L. \<forall>d. r = Inr d \<longrightarrow> committed_last lib (C d) L)"
proof -
  have "along (protocol lib) untouched (ask CBegin tx_of e) (\<lambda>r L. \<forall>t. r = Inr t \<longrightarrow> stage0 t L)" for e
    by (rule along_ask_rules) (auto simp: untouched_def stage0_def)
  from along_within [OF this assms] show ?thesis
    unfolding Service_withinTransaction_def script_service_defs option.case
    by (rule along_post) (auto simp: stage2_def committed_last_def)
qed

end
