(* ===== verification/Jobs.thy ===== *)
theory Jobs
  imports Protocols "HOL-Library.Sublist"
begin

text \<open>
  The jobs that the program runs side by side: the use case of a request, or a batch of the outbox
  publisher; each with the protocol that its calls follow.
\<close>

subsection \<open>The protocol of a batch\<close>

text \<open>What a transaction has fetched from the outbox.\<close>

fun fetch_of :: "uuid_lib \<Rightarrow> tx_handle \<Rightarrow> call \<times> answer \<Rightarrow> outbox_event list" where
  "fetch_of lib t (CQuery (TxExecutor u) st, ARows (Inr (rows, None))) =
     (if u = t then (case scan_outbox lib rows [] of Inl e \<Rightarrow> [] | Inr evs \<Rightarrow> evs) else [])"
| "fetch_of lib t _ = []"

definition fetched :: "uuid_lib \<Rightarrow> tx_handle \<Rightarrow> trace \<Rightarrow> outbox_event list" where
  "fetched lib t L = concat (map (fetch_of lib t) L)"

lemma fetched_snoc [simp]: "fetched lib t (L @ [ca]) = fetched lib t L @ fetch_of lib t ca" "fetched lib t [] = []"
  by (simp_all add: fetched_def)

text \<open>
  Only what was fetched is published; it is marked as published only after the broker has taken it.
\<close>

fun batch_protocol :: "uuid_lib \<Rightarrow> trace \<Rightarrow> call \<Rightarrow> bool" where
  "batch_protocol lib L (CQuery x st) = (\<exists>t n. x = TxExecutor t \<and> begun t L \<and> st = outbox_select n)"
| "batch_protocol lib L (CPublish ev) = (\<exists>t. ev \<in> o_Event ` set (fetched lib t L))"
| "batch_protocol lib L (CExec x st) =
     (\<exists>t o'. x = TxExecutor t \<and> begun t L \<and> o' \<in> set (fetched lib t L)
        \<and> (st = outbox_published (o_ID o') \<and> (CPublish (o_Event o'), ADone None) \<in> set L
           \<or> (\<exists>msg. st = outbox_failed (o_ID o') msg)))"
| "batch_protocol lib L (CCommit t) = begun t L"
| "batch_protocol lib L (CQueryRow x st) = False"
| "batch_protocol lib L _ = True"

definition fetched_all :: "uuid_lib \<Rightarrow> tx_handle \<Rightarrow> outbox_event list \<Rightarrow> trace \<Rightarrow> bool" where
  "fetched_all lib t evs L \<longleftrightarrow> begun t L \<and> set evs \<subseteq> set (fetched lib t L)"

lemma fetched_all_snoc [simp]: "fetched_all lib t evs L \<Longrightarrow> fetched_all lib t evs (L @ [ca])"
  by (auto simp: fetched_all_def)

abbreviation script_publisher :: "uuid_lib \<Rightarrow> (stmt \<Rightarrow> goerr option) \<Rightarrow> int \<Rightarrow> int \<Rightarrow> script Publisher" where
  "script_publisher lib tosql interval batchSize \<equiv>
     outbox_publisher lib (script_driver tosql) script_producer interval batchSize"

lemma script_publisher_simps:
  "pub_repo (script_publisher lib tosql interval n) = NewOutboxRepository_Queue lib (script_driver tosql)"
  "pub_tx (script_publisher lib tosql interval n) = Some (NewTransactionManager (script_driver tosql))"
  "pub_producer (script_publisher lib tosql interval n) = script_producer"
  by (simp_all add: outbox_publisher_def NewPublisher_def)

lemmas script_publisher_defs = script_publisher_simps NewOutboxRepository_Queue_def OutboxQueue.simps
  NewTransactionManager_def TransactionRunner.simps

lemma along_fetch:
  "along (batch_protocol lib) (\<lambda>L. begun t L)
     (OutboxRepository_FetchPending lib (script_driver tosql) (tx_ctx t) n)
     (\<lambda>r L. \<forall>evs. r = Inr evs \<longrightarrow> fetched_all lib t evs L)"
proof -
  have query: "along (batch_protocol lib) (\<lambda>L. begun t L)
      (ask (CQuery (TxExecutor t) (outbox_select k)) rows_answer d)
      (\<lambda>r L. \<forall>rows evs. r = Inr (rows, None) \<longrightarrow> scan_outbox lib rows [] = Inr evs \<longrightarrow> fetched_all lib t evs L)"
    for k d
    by (rule along_ask) (auto simp: fetched_all_def)
  show ?thesis
    unfolding OutboxRepository_FetchPending_def script_driver_simps executor_simps
    by (rule along_with_sql, simp, rule along_try_io, rule query) (auto intro!: along_intros)
qed

lemma along_mark:
  assumes "o' \<in> set evs"
  shows "along (batch_protocol lib) (\<lambda>L. fetched_all lib t evs L \<and> (CPublish (o_Event o'), ADone None) \<in> set L)
      (OutboxRepository_MarkPublished (script_driver tosql) (tx_ctx t) (o_ID o')) (\<lambda>r. fetched_all lib t evs)"
    and "along (batch_protocol lib) (fetched_all lib t evs)
      (OutboxRepository_MarkFailed (script_driver tosql) (tx_ctx t) (o_ID o') e) (\<lambda>r. fetched_all lib t evs)"
proof -
  have published: "along (batch_protocol lib)
      (\<lambda>L. fetched_all lib t evs L \<and> (CPublish (o_Event o'), ADone None) \<in> set L)
      (ask (CExec (TxExecutor t) (outbox_published (o_ID o'))) count_of d) (\<lambda>r. fetched_all lib t evs)" for d
    by (rule along_ask) (use assms in \<open>auto simp: fetched_all_def\<close>)
  have failed: "along (batch_protocol lib) (fetched_all lib t evs)
      (ask (CExec (TxExecutor t) (outbox_failed (o_ID o') msg)) count_of d) (\<lambda>r. fetched_all lib t evs)" for msg d
    by (rule along_ask) (use assms in \<open>auto simp: fetched_all_def\<close>)
  show "along (batch_protocol lib) (\<lambda>L. fetched_all lib t evs L \<and> (CPublish (o_Event o'), ADone None) \<in> set L)
      (OutboxRepository_MarkPublished (script_driver tosql) (tx_ctx t) (o_ID o')) (\<lambda>r. fetched_all lib t evs)"
    unfolding OutboxRepository_MarkPublished_def script_driver_simps executor_simps
    by (rule along_with_sql, simp, rule along_try_io, rule published) (auto intro!: along_intros)
  show "along (batch_protocol lib) (fetched_all lib t evs)
      (OutboxRepository_MarkFailed (script_driver tosql) (tx_ctx t) (o_ID o') e) (\<lambda>r. fetched_all lib t evs)"
    unfolding OutboxRepository_MarkFailed_def script_driver_simps executor_simps
    by (rule along_with_sql, simp, rule along_try_io, rule failed) (auto intro!: along_intros)
qed

lemma along_publish_events:
  "set evs \<subseteq> set all \<Longrightarrow>
   along (batch_protocol lib) (fetched_all lib t all)
     (publish_events (script_publisher lib tosql interval n) (tx_ctx t) evs) (\<lambda>r. fetched_all lib t all)"
proof (induction evs)
  case Nil
  then show ?case by (auto intro!: along_intros)
next
  case (Cons o' evs)
  let ?p = "script_publisher lib tosql interval n"
  from Cons have o': "o' \<in> set all" and rest: "along (batch_protocol lib) (fetched_all lib t all)
    (publish_events ?p (tx_ctx t) evs) (\<lambda>r. fetched_all lib t all)" by simp_all
  have publish: "along (batch_protocol lib) (fetched_all lib t all)
      (ask (CPublish (o_Event o')) done_of (Some end_of_script))
      (\<lambda>r L. fetched_all lib t all L \<and> (r = None \<longrightarrow> (CPublish (o_Event o'), ADone None) \<in> set L))"
    by (rule along_ask) (use o' in \<open>auto simp: fetched_all_def\<close>)
  have "publish_events ?p (tx_ctx t) (o' # evs) = (\<lambda>w.
      case ask (CPublish (o_Event o')) done_of (Some end_of_script) w of (r, w) \<Rightarrow>
        (case r of
           None \<Rightarrow> try_cmd (OutboxRepository_MarkPublished (script_driver tosql) (tx_ctx t) (o_ID o')) Inl
             (publish_events ?p (tx_ctx t) evs) w
         | Some err \<Rightarrow>
             try_cmd (OutboxRepository_MarkFailed (script_driver tosql) (tx_ctx t) (o_ID o') err)
               (\<lambda>markErr. Inl (Errorf (''mark outbox event failed after publish error ''
                  @ error_text err @ '': '') markErr ''''))
               (publish_events ?p (tx_ctx t) evs) w))"
    by (simp add: fun_eq_iff script_publisher_defs script_driver_simps split: prod.split option.split)
  moreover have "along (batch_protocol lib) (fetched_all lib t all) \<dots> (\<lambda>r. fetched_all lib t all)"
    by (rule along_bind [OF publish], rule along_case_option)
      (auto intro!: along_try_cmd [OF along_mark(1) [OF o', THEN along_pre]]
         along_try_cmd [OF along_mark(2) [OF o', THEN along_pre]] rest)
  ultimately show ?case by simp
qed

lemma along_ProcessBatch:
  "along (batch_protocol lib) (\<lambda>L. True)
     (ProcessBatch (script_publisher lib tosql interval n) Background) (\<lambda>r L. True)"
proof -
  have starts: "along (batch_protocol lib) (\<lambda>L. True) (ask CBegin tx_of d)
      (\<lambda>r L. \<forall>t. r = Inr t \<longrightarrow> begun t L)" for d
    by (rule along_ask_rules) auto
  have work: "along (batch_protocol lib) (begun t)
      (processBatch (script_publisher lib tosql interval n) (tx_ctx t)) (\<lambda>r L. \<forall>d. r = Inr d \<longrightarrow> begun t L)" for t
    unfolding processBatch_def script_publisher_defs
    by (rule along_try_io, rule along_fetch, simp)
      (rule along_post [OF along_pre [OF along_publish_events [OF subset_refl]]]; simp add: fetched_all_def)
  have "along (batch_protocol lib) (\<lambda>L. True)
      (TransactionManager_WithinTransaction (script_driver tosql) Background
        (processBatch (script_publisher lib tosql interval n))) (\<lambda>r L. \<forall>d. r = Inr d \<longrightarrow> True)"
    by (rule along_within [OF starts work]) auto
  then show ?thesis
    unfolding ProcessBatch_def script_publisher_defs option.case by simp
qed

subsection \<open>Jobs\<close>

datatype job =
  AskCreate create_input | AskPatch uuid patch_input | AskDelete uuid | AskGet uuid | RunBatch int int

text \<open>What a job runs; the answer is an error, or success, with the company of the answer if there is one.\<close>

fun run_job ::
    "uuid_lib \<Rightarrow> (stmt \<Rightarrow> goerr option) \<Rightarrow> job \<Rightarrow> script \<Rightarrow> (goerr + company option) \<times> script" where
  "run_job lib tosql (AskCreate input) =
     map_result (Inr \<circ> Some) (CreateCompany script_runtime (script_service lib tosql) Background input)"
| "run_job lib tosql (AskPatch i input) =
     map_result (Inr \<circ> Some) (PatchCompany script_runtime (script_service lib tosql) Background i input)"
| "run_job lib tosql (AskDelete i) =
     (\<lambda>s. case DeleteCompany (script_service lib tosql) Background i s of
        (None, s) \<Rightarrow> (Inr None, s) | (Some e, s) \<Rightarrow> (Inl e, s))"
| "run_job lib tosql (AskGet i) =
     map_result (Inr \<circ> Some) (GetCompany (script_service lib tosql) Background i)"
| "run_job lib tosql (RunBatch interval n) =
     map_result (\<lambda>_. Inr None) (ProcessBatch (script_publisher lib tosql interval n) Background)"

fun job_protocol :: "uuid_lib \<Rightarrow> job \<Rightarrow> trace \<Rightarrow> call \<Rightarrow> bool" where
  "job_protocol lib (RunBatch interval n) = batch_protocol lib"
| "job_protocol lib _ = protocol lib"

text \<open>The change that the success of a job stands for.\<close>

fun succeeded_with :: "job \<Rightarrow> company option \<Rightarrow> change \<Rightarrow> bool" where
  "succeeded_with (AskCreate input) r ch \<longleftrightarrow> (\<exists>d. r = Some d \<and> ch = Created d)"
| "succeeded_with (AskPatch i input) r ch \<longleftrightarrow> (\<exists>d. r = Some d \<and> ch = Updated d \<and> ID d = i)"
| "succeeded_with (AskDelete i) r ch \<longleftrightarrow> (\<exists>d. ch = Deleted d \<and> ID d = i)"
| "succeeded_with _ r ch \<longleftrightarrow> False"

fun is_change :: "job \<Rightarrow> bool" where
  "is_change (AskGet i) = False" | "is_change (RunBatch interval n) = False" | "is_change _ = True"

lemma along_map_result:
  assumes "along I P m (\<lambda>r L. \<forall>a. r = Inr a \<longrightarrow> Q (f a) L)"
  shows "along I P (map_result (\<lambda>a. Inr (f a)) m) (\<lambda>r L. \<forall>b. r = Inr b \<longrightarrow> Q b L)"
proof -
  have "map_result (\<lambda>a. Inr (f a)) m = (\<lambda>w. case m w of (x, w) \<Rightarrow> (case x of Inl e \<Rightarrow> Inl e | Inr a \<Rightarrow> Inr (f a), w))"
    by (simp add: map_result_def fun_eq_iff split: prod.split sum.split)
  then show ?thesis by (auto intro!: along_bind [OF assms] along_intros split: sum.splits)
qed

lemma along_create:
  "along (protocol lib) untouched (CreateCompany script_runtime (script_service lib tosql) Background input)
    (\<lambda>r L. \<forall>d. r = Inr d \<longrightarrow> committed_last lib (\<lambda>ch. ch = Created d) L)"
  unfolding CreateCompany_def [abs_def] script_driver_simps
proof (rule along_bind, rule along_kept_ask, simp, simp, simp, rule along_case_sum)
  fix now c
  assume "NewWithID now (i_ID input) (i_Name input) (i_Description input) (i_AmountOfEmployees input)
      (i_Registered input) (i_Type input) = Inr c"
  then have "valid_company c" by (auto simp: NewWithID_Inr)
  then show "along (protocol lib) untouched
      (Service_withinTransaction (script_service lib tosql) Background (create_in_tx (script_service lib tosql) c))
      (\<lambda>r L. \<forall>d. r = Inr d \<longrightarrow> committed_last lib (\<lambda>ch. ch = Created d) L)"
    by (rule along_transaction [OF along_create_in_tx])
qed (auto intro!: along_intros)

lemma along_patch:
  "along (protocol lib) untouched (PatchCompany script_runtime (script_service lib tosql) Background i input)
    (\<lambda>r L. \<forall>d. r = Inr d \<longrightarrow> committed_last lib (\<lambda>ch. ch = Updated d \<and> ID d = i) L)"
  unfolding PatchCompany_def [abs_def]
  by (rule along_if) (auto intro!: along_intros along_transaction [OF along_patch_in_tx])

lemma along_delete:
  "along (protocol lib) untouched (run_job lib tosql (AskDelete i))
    (\<lambda>r L. \<forall>d. r = Inr d \<longrightarrow> committed_last lib (\<lambda>ch. \<exists>d. ch = Deleted d \<and> ID d = i) L)"
proof -
  have "run_job lib tosql (AskDelete i) = (\<lambda>s.
      case Service_withinTransaction (script_service lib tosql) Background
        (delete_in_tx (script_service lib tosql) i) s of
        (x, s) \<Rightarrow> (case x of Inl e \<Rightarrow> Inl e | Inr c \<Rightarrow> Inr None, s))"
    by (simp add: fun_eq_iff DeleteCompany_def split: prod.split sum.split)
  moreover have "along (protocol lib) untouched \<dots>
      (\<lambda>r L. \<forall>d. r = Inr d \<longrightarrow> committed_last lib (\<lambda>ch. \<exists>d. ch = Deleted d \<and> ID d = i) L)"
    by (rule along_bind [OF along_transaction [OF along_delete_in_tx]])
      (auto intro!: along_intros simp: committed_last_def split: sum.splits)
  ultimately show ?thesis by simp
qed

lemma along_from_start: "along I untouched m Q \<Longrightarrow> along I (\<lambda>L. L = []) m Q"
  by (erule along_pre) (simp add: untouched_def)

text \<open>What a job is known to do: it follows its protocol, and its success is a commit.\<close>

lemma along_job:
  "along (job_protocol lib j) (\<lambda>L. L = []) (run_job lib tosql j)
    (\<lambda>r L. \<forall>b. r = Inr b \<longrightarrow> is_change j \<longrightarrow> committed_last lib (succeeded_with j b) L)"
proof (cases j)
  case (AskCreate input)
  have "along (protocol lib) untouched (run_job lib tosql j)
      (\<lambda>r L. \<forall>b. r = Inr b \<longrightarrow> committed_last lib (succeeded_with j b) L)"
    unfolding AskCreate run_job.simps comp_def
    by (rule along_map_result) (rule along_post [OF along_create], auto simp: committed_last_def)
  with AskCreate show ?thesis by (auto simp del: run_job.simps intro: along_from_start)
next
  case (AskPatch i input)
  have "along (protocol lib) untouched (run_job lib tosql j)
      (\<lambda>r L. \<forall>b. r = Inr b \<longrightarrow> committed_last lib (succeeded_with j b) L)"
    unfolding AskPatch run_job.simps comp_def
    by (rule along_map_result) (rule along_post [OF along_patch], auto simp: committed_last_def)
  with AskPatch show ?thesis by (auto simp del: run_job.simps intro: along_from_start)
next
  case (AskDelete i)
  have "along (protocol lib) untouched (run_job lib tosql j)
      (\<lambda>r L. \<forall>b. r = Inr b \<longrightarrow> committed_last lib (succeeded_with j b) L)"
    unfolding AskDelete by (rule along_post [OF along_delete]) (auto simp: committed_last_def)
  with AskDelete show ?thesis by (auto simp del: run_job.simps intro: along_from_start)
next
  case (AskGet i)
  have "along (protocol lib) (\<lambda>L. True) (GetCompany (script_service lib tosql) Background i) (\<lambda>r L. True)"
    unfolding GetCompany_def script_service_defs
    by (rule along_try_io, rule along_GetByID) (auto intro!: along_intros)
  then have "along (protocol lib) (\<lambda>L. True) (run_job lib tosql j) (\<lambda>r L. \<forall>b. r = Inr b \<longrightarrow> True)"
    unfolding AskGet run_job.simps comp_def by (intro along_map_result) simp
  from along_pre [OF this] AskGet show ?thesis by simp
next
  case (RunBatch interval n)
  have "along (batch_protocol lib) (\<lambda>L. True) (run_job lib tosql j) (\<lambda>r L. \<forall>b. r = Inr b \<longrightarrow> True)"
    unfolding RunBatch run_job.simps
    by (rule along_map_result) (rule along_post [OF along_ProcessBatch], simp)
  from along_pre [OF this] RunBatch show ?thesis by simp
qed

subsection \<open>Traces of jobs\<close>

text \<open>
  A trace of a job: how a run of it can begin, what it asks and is answered, one call after the other.
  The job has returned when it leaves a further answer untouched.
\<close>

definition is_trace :: "uuid_lib \<Rightarrow> (stmt \<Rightarrow> goerr option) \<Rightarrow> job \<Rightarrow> trace \<Rightarrow> bool" where
  "is_trace lib tosql j L \<longleftrightarrow> (\<exists>as. prefix L (log (snd (run_job lib tosql j \<lparr>answers = as, log = []\<rparr>))))"

definition returned ::
    "uuid_lib \<Rightarrow> (stmt \<Rightarrow> goerr option) \<Rightarrow> job \<Rightarrow> trace \<Rightarrow> goerr + company option \<Rightarrow> bool" where
  "returned lib tosql j L r \<longleftrightarrow>
     run_job lib tosql j \<lparr>answers = map snd L @ [ATime 0], log = []\<rparr> = (r, \<lparr>answers = [ATime 0], log = L\<rparr>)"

lemma obeys_prefix: "obeys I (L @ M) \<Longrightarrow> obeys I L"
proof (induction M rule: rev_induct)
  case (snoc ca M)
  then show ?case by (simp flip: append_assoc)
qed simp

lemma trace_obeys:
  assumes "is_trace lib tosql j L"
  shows "obeys (job_protocol lib j) L"
proof -
  from assms obtain as M where run: "log (snd (run_job lib tosql j \<lparr>answers = as, log = []\<rparr>)) = L @ M"
    by (auto simp: is_trace_def prefix_def)
  obtain r s' where "run_job lib tosql j \<lparr>answers = as, log = []\<rparr> = (r, s')" by fastforce
  from alongD(1) [OF along_job _ _ this] this run obeys_prefix show ?thesis by simp
qed

lemma returned_trace: "returned lib tosql j (L @ M) r \<Longrightarrow> is_trace lib tosql j L"
  by (auto simp: returned_def is_trace_def intro!: exI [of _ "map snd (L @ M) @ [ATime 0]"])

lemma returned_committed:
  assumes "returned lib tosql j L (Inr b)" and "is_change j"
  shows "committed_last lib (succeeded_with j b) L"
  using alongD(2) [OF along_job _ _ assms(1) [unfolded returned_def]] assms(2) by simp

end
