(* ===== verification/Effects.thy ===== *)
theory Effects
  imports Isolation Jobs
begin

text \<open>
  What the writes of the program do to the ledger, with the keys that they lock; and that writes
  under different locks do not disturb each other.
\<close>

subsection \<open>Keys of the ledger\<close>

definition id_key :: "uuid \<Rightarrow> key" where
  "id_key i = (''companies'', ''id'', VUuid i)"

definition name_key :: "string \<Rightarrow> key" where
  "name_key n = (''companies'', ''name'', VText n)"

definition event_key :: "uuid \<Rightarrow> key" where
  "event_key i = (''outbox_events'', ''id'', VUuid i)"

definition company_keys :: "company \<Rightarrow> key set" where
  "company_keys c = {id_key (ID c), name_key (Name c)}"

lemma keys_eq [simp]:
  "id_key i = id_key j \<longleftrightarrow> i = j" "name_key n = name_key m \<longleftrightarrow> n = m" "event_key i = event_key j \<longleftrightarrow> i = j"
  "id_key i \<noteq> name_key n" "name_key n \<noteq> id_key i" "id_key i \<noteq> event_key j" "event_key j \<noteq> id_key i"
  "name_key n \<noteq> event_key j" "event_key j \<noteq> name_key n"
  by (simp_all add: id_key_def name_key_def event_key_def)

lemma row_keys_simps [simp]:
  "row_keys ''companies'' (row_of_company c) = [id_key (ID c), name_key (Name c)]"
  "row_keys ''outbox_events'' (row_of_entry lib en) = [event_key (entry_id en)]"
  by (simp_all add: row_keys_def id_key_def name_key_def event_key_def companies_table_def outbox_events_table_def)

subsection \<open>Effects\<close>

text \<open>
  The effect of a write that changes one row: statement, ledger before and after, locked keys.
\<close>

inductive effect :: "uuid_lib \<Rightarrow> time \<Rightarrow> stmt \<Rightarrow> ledger \<Rightarrow> ledger \<Rightarrow> key set \<Rightarrow> bool"
  for lib :: uuid_lib and now :: time where
  creates: "valid_company c \<Longrightarrow> storable c \<Longrightarrow> duplicate (members l) c = None \<Longrightarrow>
    effect lib now (company_insert c) l (with_company c l) (company_keys c)"
| updates: "valid_company c \<Longrightarrow> storable c \<Longrightarrow> d \<in> set (members l) \<Longrightarrow> ID d = ID c \<Longrightarrow>
    \<not> name_taken l (ID c) (Name c) \<Longrightarrow>
    effect lib now (company_update c) l (with_revision c l) (company_keys d \<union> company_keys c)"
| deletes: "d \<in> set (members l) \<Longrightarrow> ID d = i \<Longrightarrow>
    effect lib now (company_delete i) l (without_company i l) (company_keys d)"
| announces: "marshal_event lib ev = Inr j \<Longrightarrow> event_texts_ok ev \<Longrightarrow> e_ID ev \<notin> entry_id ` set (outbox l) \<Longrightarrow>
    effect lib now (outbox_insert ev j) l (with_event now ev l) {event_key (e_ID ev)}"
| marks_published: "en \<in> set (outbox l) \<Longrightarrow> entry_id en = i \<Longrightarrow>
    effect lib now (outbox_published i) l (with_entry i (marked_published now) l) {event_key i}"
| marks_failed: "en \<in> set (outbox l) \<Longrightarrow> entry_id en = i \<Longrightarrow> text_ok msg \<Longrightarrow> int4_ok (en_attempts en + 1) \<Longrightarrow>
    effect lib now (outbox_failed i msg) l (with_entry i (marked_failed now msg) l) {event_key i}"

lemma ledger_ok_effect:
  assumes "effect lib now st l l' ks" and "ledger_ok l"
  shows "ledger_ok l'"
  using assms
proof cases
  case (updates c d)
  then have "ID c \<in> ID ` set (members l)" by (metis imageI)
  with updates assms show ?thesis by (simp add: ledger_ok_with_revision)
next
  case (announces ev j)
  with assms show ?thesis by (simp add: ledger_ok_with_event marshal_event_safe)
qed (use assms in \<open>simp_all add: ledger_ok_with_company ledger_ok_without_company ledger_ok_marked\<close>)

text \<open>The two ledgers have the same rows under the keys.\<close>

definition same_on :: "key set \<Rightarrow> ledger \<Rightarrow> ledger \<Rightarrow> bool" where
  "same_on K l l' \<longleftrightarrow>
     (\<forall>c. id_key (ID c) \<in> K \<or> name_key (Name c) \<in> K \<longrightarrow> (c \<in> set (members l) \<longleftrightarrow> c \<in> set (members l')))
     \<and> (\<forall>en. event_key (entry_id en) \<in> K \<longrightarrow> (en \<in> set (outbox l) \<longleftrightarrow> en \<in> set (outbox l')))"

lemma same_on_refl [simp]: "same_on K l l"
  by (simp add: same_on_def)

lemma same_on_trans: "same_on K l l1 \<Longrightarrow> same_on K l1 l2 \<Longrightarrow> same_on K l l2"
  by (simp add: same_on_def)

lemma same_on_mono: "same_on K l l1 \<Longrightarrow> K' \<subseteq> K \<Longrightarrow> same_on K' l l1"
  unfolding same_on_def by blast

lemma same_on_company:
  "same_on K l l' \<Longrightarrow> id_key (ID c) \<in> K \<or> name_key (Name c) \<in> K \<Longrightarrow> c \<in> set (members l) \<longleftrightarrow> c \<in> set (members l')"
  "same_on K l l' \<Longrightarrow> event_key (entry_id en) \<in> K \<Longrightarrow> en \<in> set (outbox l) \<longleftrightarrow> en \<in> set (outbox l')"
  by (auto simp: same_on_def)

lemma members_with_company: "set (members (with_company c l)) = insert (stored c) (set (members l))"
  by (auto simp: with_company_def)

lemma members_without: "set (members (without_company i l)) = {c \<in> set (members l). ID c \<noteq> i}"
  by (auto simp: without_company_def)

lemma replace_one:
  assumes "x \<in> set xs" and "f x = k" and "\<And>y. y \<in> set xs \<Longrightarrow> f y = k \<Longrightarrow> y = x"
  shows "set (replace_by f k g xs) = insert (g x) {y \<in> set xs. f y \<noteq> k}"
proof -
  have "set (replace_by f k g xs) = (\<lambda>y. if y = x then g x else y) ` set xs"
    unfolding replace_by_def set_map by (rule image_cong) (use assms(2,3) in metis)+
  also have "\<dots> = insert (g x) (set xs - {x})" using assms(1) by auto
  also have "set xs - {x} = {y \<in> set xs. f y \<noteq> k}" using assms(2,3) by blast
  finally show ?thesis .
qed

lemma unique_entry:
  assumes "ledger_ok l" and "en \<in> set (outbox l)" and "en' \<in> set (outbox l)" and "entry_id en' = entry_id en"
  shows "en' = en"
proof -
  from assms(1) have "inj_on (e_ID \<circ> en_event) (set (outbox l))" by (simp add: ledger_ok_def distinct_map)
  from inj_onD [OF this] assms show ?thesis by simp
qed

lemma members_with_revision:
  assumes "ledger_ok l" and "d \<in> set (members l)" and "ID d = ID c"
  shows "set (members (with_revision c l)) = insert (revised c d) {x \<in> set (members l). ID x \<noteq> ID c}"
proof -
  have "set (replace_by ID (ID c) (revised c) (members l)) = insert (revised c d) {x \<in> set (members l). ID x \<noteq> ID c}"
  proof (rule replace_one)
    show "x = d" if "x \<in> set (members l)" "ID x = ID c" for x
      by (rule unique_id [OF assms(1) that(1) assms(2)]) (simp add: that(2) assms(3))
  qed (simp_all add: assms(2,3))
  then show ?thesis by (simp add: with_revision_def)
qed

lemma outbox_with_entry:
  assumes "ledger_ok l" and "en \<in> set (outbox l)" and "entry_id en = i"
  shows "set (outbox (with_entry i g l)) = insert (g en) {x \<in> set (outbox l). entry_id x \<noteq> i}"
proof -
  have "set (replace_by entry_id i g (outbox l)) = insert (g en) {x \<in> set (outbox l). entry_id x \<noteq> i}"
  proof (rule replace_one)
    show "x = en" if "x \<in> set (outbox l)" "entry_id x = i" for x
      by (rule unique_entry [OF assms(1,2) that(1)]) (simp add: that(2) assms(3))
  qed (simp_all add: assms(2,3))
  then show ?thesis by (simp add: with_entry_def)
qed

lemma marked_ids [simp]:
  "en_event (marked_published now en) = en_event en" "en_event (marked_failed now msg en) = en_event en"
  by (simp_all add: marked_published_def marked_failed_def)

lemma other_table [simp]:
  "outbox (with_company c l) = outbox l" "outbox (with_revision c l) = outbox l"
  "outbox (without_company i l) = outbox l" "members (with_event now ev l) = members l"
  "members (with_entry i g l) = members l"
  by (simp_all add: with_company_def with_revision_def without_company_def with_event_def with_entry_def)

lemma outbox_with_event: "set (outbox (with_event now ev l)) = insert (new_entry now ev) (set (outbox l))"
  by (auto simp: with_event_def)

text \<open>Nothing changes outside the locked keys.\<close>

lemma same_on_companies:
  assumes "outbox l' = outbox l"
    and "\<And>x. x \<in> set (members l) \<Longrightarrow> x \<notin> set (members l') \<Longrightarrow> company_keys x \<subseteq> ks"
    and "\<And>x. x \<in> set (members l') \<Longrightarrow> x \<notin> set (members l) \<Longrightarrow> company_keys x \<subseteq> ks"
  shows "same_on (- ks) l l'"
  unfolding same_on_def
proof (intro conjI allI impI)
  fix c :: company assume "id_key (ID c) \<in> - ks \<or> name_key (Name c) \<in> - ks"
  then have "\<not> company_keys c \<subseteq> ks" by (auto simp: company_keys_def)
  with assms(2,3) [of c] show "c \<in> set (members l) \<longleftrightarrow> c \<in> set (members l')" by blast
qed (simp add: assms(1))

lemma same_on_entries:
  assumes "members l' = members l"
    and "\<And>x. x \<in> set (outbox l) \<Longrightarrow> x \<notin> set (outbox l') \<Longrightarrow> event_key (entry_id x) \<in> ks"
    and "\<And>x. x \<in> set (outbox l') \<Longrightarrow> x \<notin> set (outbox l) \<Longrightarrow> event_key (entry_id x) \<in> ks"
  shows "same_on (- ks) l l'"
  unfolding same_on_def
proof (intro conjI allI impI)
  fix en :: entry assume "event_key (entry_id en) \<in> - ks"
  with assms(2,3) [of en] show "en \<in> set (outbox l) \<longleftrightarrow> en \<in> set (outbox l')" by blast
qed (simp add: assms(1))

lemma effect_frame:
  assumes "effect lib now st l l' ks" and "ledger_ok l"
  shows "same_on (- ks) l l'"
  using assms(1)
proof cases
  case (creates c)
  then show ?thesis
    by (intro same_on_companies) (auto simp: members_with_company company_keys_def)
next
  case (updates c d)
  note eq = members_with_revision [OF assms(2) \<open>d \<in> set (members l)\<close> \<open>ID d = ID c\<close>]
  show ?thesis
  proof (rule same_on_companies)
    fix x assume x: "x \<in> set (members l)" "x \<notin> set (members l')"
    with updates(1,2) eq have "ID x = ID d" using \<open>ID d = ID c\<close> by auto
    from unique_id [OF assms(2) x(1) \<open>d \<in> set (members l)\<close> this] updates show "company_keys x \<subseteq> ks" by simp
  next
    fix x assume "x \<in> set (members l')" "x \<notin> set (members l)"
    with updates eq have "x = revised c d" by simp
    with updates show "company_keys x \<subseteq> ks" by (simp add: company_keys_def)
  qed (simp add: updates)
next
  case (deletes d i)
  show ?thesis
  proof (rule same_on_companies)
    fix x assume x: "x \<in> set (members l)" "x \<notin> set (members l')"
    with deletes have "ID x = ID d" by (simp add: members_without)
    from unique_id [OF assms(2) x(1) \<open>d \<in> set (members l)\<close> this] deletes show "company_keys x \<subseteq> ks" by simp
  qed (simp_all add: deletes members_without)
next
  case (announces ev j)
  then show ?thesis by (intro same_on_entries) (auto simp: outbox_with_event)
next
  case (marks_published en i)
  then show ?thesis
    by (intro same_on_entries) (auto simp: outbox_with_entry [OF assms(2) \<open>en \<in> set (outbox l)\<close>])
next
  case (marks_failed en i msg)
  then show ?thesis
    by (intro same_on_entries) (auto simp: outbox_with_entry [OF assms(2) \<open>en \<in> set (outbox l)\<close>])
qed

text \<open>
  An effect depends on the locked rows only: elsewhere it may be repeated on another ledger, and the
  two ledgers stay the same where they were the same.
\<close>

lemma same_on_keys:
  "same_on K l l' \<Longrightarrow> id_key i \<in> K \<Longrightarrow> i \<in> ID ` set (members l) \<longleftrightarrow> i \<in> ID ` set (members l')"
  "same_on K l l' \<Longrightarrow> name_key n \<in> K \<Longrightarrow> n \<in> Name ` set (members l) \<longleftrightarrow> n \<in> Name ` set (members l')"
  "same_on K l l' \<Longrightarrow> event_key i \<in> K \<Longrightarrow> i \<in> entry_id ` set (outbox l) \<longleftrightarrow> i \<in> entry_id ` set (outbox l')"
  unfolding same_on_def by blast+

lemma same_on_name_taken:
  "same_on K l l' \<Longrightarrow> name_key n \<in> K \<Longrightarrow> name_taken l i n \<longleftrightarrow> name_taken l' i n"
  unfolding same_on_def name_taken_def by blast

lemma duplicate_None: "duplicate cs c = None \<longleftrightarrow> ID c \<notin> ID ` set cs \<and> Name c \<notin> Name ` set cs"
  by (simp add: duplicate_def)

lemma effect_local:
  assumes eff: "effect lib now st l l1 ks" and same: "same_on K l l'" and ks: "ks \<subseteq> K"
    and ok: "ledger_ok l" "ledger_ok l'"
  shows "\<exists>l1'. effect lib now st l' l1' ks \<and> same_on K l1 l1'"
  using eff
proof cases
  case (creates c)
  then have keys: "id_key (ID c) \<in> K" "name_key (Name c) \<in> K" using ks by (auto simp: company_keys_def)
  have "effect lib now st l' (with_company c l') ks"
    using creates same_on_keys(1) [OF same keys(1)] same_on_keys(2) [OF same keys(2)]
    by (auto simp: duplicate_None intro!: effect.creates)
  moreover have "same_on K l1 (with_company c l')"
    using same creates(2) unfolding same_on_def by (simp add: members_with_company)
  ultimately show ?thesis by blast
next
  case (updates c d)
  then have keys: "id_key (ID c) \<in> K" "name_key (Name c) \<in> K" using ks by (auto simp: company_keys_def)
  have d: "d \<in> set (members l')" using same_on_company(1) [OF same, of d] updates keys by simp
  have "effect lib now st l' (with_revision c l') ks"
    unfolding updates by (rule effect.updates)
      (use updates d same_on_name_taken [OF same keys(2)] in simp_all)
  moreover have "same_on K l1 (with_revision c l')"
    using same updates(2) unfolding same_on_def
    by (simp add: members_with_revision [OF ok(1) \<open>d \<in> set (members l)\<close> \<open>ID d = ID c\<close>]
        members_with_revision [OF ok(2) d \<open>ID d = ID c\<close>])
  ultimately show ?thesis by blast
next
  case (deletes d i)
  then have "id_key (ID d) \<in> K" using ks by (auto simp: company_keys_def)
  then have "d \<in> set (members l')" using same_on_company(1) [OF same, of d] deletes by simp
  then have "effect lib now st l' (without_company i l') ks"
    unfolding deletes by (rule effect.deletes) (use deletes in simp)
  moreover have "same_on K l1 (without_company i l')"
    using same deletes(2) unfolding same_on_def by (simp add: members_without)
  ultimately show ?thesis by blast
next
  case (announces ev j)
  then have key: "event_key (e_ID ev) \<in> K" using ks by simp
  have "effect lib now st l' (with_event now ev l') ks"
    unfolding announces by (rule effect.announces) (use announces same_on_keys(3) [OF same key] in simp_all)
  moreover have "same_on K l1 (with_event now ev l')"
    using same announces(2) unfolding same_on_def by (simp add: outbox_with_event)
  ultimately show ?thesis by blast
next
  case (marks_published en i)
  then have en: "en \<in> set (outbox l')" using same_on_company(2) [OF same, of en] ks by simp
  then have "effect lib now st l' (with_entry i (marked_published now) l') ks"
    unfolding marks_published by (rule effect.marks_published) (use marks_published in simp)
  moreover have "same_on K l1 (with_entry i (marked_published now) l')"
    using same marks_published(2) unfolding same_on_def
    by (simp add: outbox_with_entry [OF ok(1) \<open>en \<in> set (outbox l)\<close> \<open>entry_id en = i\<close>]
        outbox_with_entry [OF ok(2) en \<open>entry_id en = i\<close>])
  ultimately show ?thesis by blast
next
  case (marks_failed en i msg)
  then have en: "en \<in> set (outbox l')" using same_on_company(2) [OF same, of en] ks by simp
  then have "effect lib now st l' (with_entry i (marked_failed now msg) l') ks"
    unfolding marks_failed by (rule effect.marks_failed) (use marks_failed in simp_all)
  moreover have "same_on K l1 (with_entry i (marked_failed now msg) l')"
    using same marks_failed(2) unfolding same_on_def
    by (simp add: outbox_with_entry [OF ok(1) \<open>en \<in> set (outbox l)\<close> \<open>entry_id en = i\<close>]
        outbox_with_entry [OF ok(2) en \<open>entry_id en = i\<close>])
  ultimately show ?thesis by blast
qed

end
