(* ===== verification/Writes.thy ===== *)
theory Writes
  imports Effects
begin

subsection \<open>Effects are what the statements do\<close>

lemma effect_exec:
  assumes eff: "effect lib now st l l1 ks" and ok: "ledger_ok l" and lib: "uuid_lib_ok lib"
  shows "sql_exec now st (conc lib l) = Inr ([], 1, conc lib l1)"
  using eff
proof cases
  case (creates c)
  then show ?thesis by (simp add: exec_company_insert)
next
  case (updates c d)
  have "ID c \<in> ID ` set (members l)" using updates by (metis imageI)
  with updates ok show ?thesis by (simp add: exec_company_update)
next
  case (deletes d i)
  have "distinct (map ID (members l))" using ok by (simp add: ledger_ok_def)
  from filter_key_cases [OF this, of i] deletes have "length (filter (\<lambda>c. ID c = i) (members l)) = 1"
    by (auto simp: image_iff)
  with deletes show ?thesis by (simp add: exec_company_delete)
next
  case (announces ev j)
  then show ?thesis by (simp add: exec_outbox_insert [OF lib])
next
  case (marks_published en i)
  then have "i \<in> entry_id ` set (outbox l)" by blast
  with marks_published show ?thesis by (simp add: exec_outbox_published [OF ok])
next
  case (marks_failed en i msg)
  then have i: "i \<in> entry_id ` set (outbox l)" by blast
  have "\<forall>en'\<in>set (outbox l). entry_id en' = i \<longrightarrow> int4_ok (en_attempts en' + 1)"
    using unique_entry [OF ok \<open>en \<in> set (outbox l)\<close>] marks_failed by metis
  from exec_outbox_failed [OF ok \<open>text_ok msg\<close> this] i marks_failed show ?thesis by simp
qed

lemma row_of_company_inj [simp]: "row_of_company c = row_of_company d \<longleftrightarrow> c = d"
  by (metis company_of_row_of_company)

lemma row_of_entry_inj:
  "uuid_lib_ok lib \<Longrightarrow> entry_ok en \<Longrightarrow> entry_ok en' \<Longrightarrow> row_of_entry lib en = row_of_entry lib en' \<longleftrightarrow> en = en'"
  by (metis entry_of_row_of_entry)

lemma new_rows_companies:
  "new_rows ''companies'' (conc lib l) (conc lib l') =
     map row_of_company (filter (\<lambda>c. c \<notin> set (members l)) (members l'))"
  by (auto simp: new_rows_def filter_map comp_def intro!: filter_cong arg_cong [where f = "map row_of_company"])

lemma new_rows_entries:
  assumes "uuid_lib_ok lib" and "ledger_ok l" and "ledger_ok l'"
  shows "new_rows ''outbox_events'' (conc lib l) (conc lib l') =
    map (row_of_entry lib) (filter (\<lambda>en. en \<notin> set (outbox l)) (outbox l'))"
proof -
  have "row_of_entry lib en \<notin> row_of_entry lib ` set (outbox l) \<longleftrightarrow> en \<notin> set (outbox l)"
    if "en \<in> set (outbox l')" for en
    using assms that by (auto simp: ledger_ok_def row_of_entry_inj image_iff)
  then show ?thesis
    by (auto simp: new_rows_def filter_map comp_def
        intro!: filter_cong arg_cong [where f = "map (row_of_entry lib)"])
qed

lemma matched_company:
  "matched now ''companies'' [Eq ''id'' (VUuid i)] (conc lib l) =
     map row_of_company (filter (\<lambda>c. ID c = i) (members l))"
  by (simp add: matched_def filter_map comp_def)

lemma matched_entry:
  "matched now ''outbox_events'' [Eq ''id'' (VUuid i)] (conc lib l) =
     map (row_of_entry lib) (filter (\<lambda>en. entry_id en = i) (outbox l))"
  by (simp add: matched_def filter_map comp_def)

lemma only_company:
  "ledger_ok l \<Longrightarrow> d \<in> set (members l) \<Longrightarrow> {x \<in> set (members l). ID x = ID d} = {d}"
  using unique_id by blast

lemma only_entry:
  "ledger_ok l \<Longrightarrow> en \<in> set (outbox l) \<Longrightarrow> {x \<in> set (outbox l). entry_id x = entry_id en} = {en}"
  using unique_entry by blast

lemma mark_keys:
  assumes lib: "uuid_lib_ok lib" and ok: "ledger_ok l" "ledger_ok (with_entry i g l)"
    and en: "en \<in> set (outbox l)" "entry_id en = i" and g: "en_event (g en) = en_event en"
  shows "set (keys_of now (UpdateSet ''outbox_events'' sets [Eq ''id'' (VUuid i)])
      (conc lib l) (conc lib (with_entry i g l))) = {event_key i}"
proof -
  have old: "{x \<in> set (outbox l). entry_id x = i} = {en}"
    using only_entry [OF ok(1) en(1)] en(2) by simp
  have "{x \<in> set (outbox (with_entry i g l)). x \<notin> set (outbox l)} \<subseteq> {g en}"
    unfolding outbox_with_entry [OF ok(1) en] by blast
  then consider "{x \<in> set (outbox (with_entry i g l)). x \<notin> set (outbox l)} = {}"
    | "{x \<in> set (outbox (with_entry i g l)). x \<notin> set (outbox l)} = {g en}" by blast
  then show ?thesis
    by cases (simp_all add: matched_entry new_rows_entries [OF lib ok] old en g)
qed

lemma effect_keys:
  assumes eff: "effect lib now st l l1 ks" and ok: "ledger_ok l" and lib: "uuid_lib_ok lib"
  shows "set (keys_of now st (conc lib l) (conc lib l1)) = ks"
proof -
  note ok1 = ledger_ok_effect [OF eff ok]
  from eff show ?thesis
  proof cases
    case (creates c)
    then have "stored c \<notin> set (members l)" by (auto simp: duplicate_None image_iff)
    then have "{x \<in> set (members l1). x \<notin> set (members l)} = {stored c}"
      using creates by (auto simp: members_with_company)
    with creates show ?thesis
      by (simp add: company_insert_def new_rows_companies company_keys_def)
  next
    case (updates c d)
    note eq = members_with_revision [OF ok \<open>d \<in> set (members l)\<close> \<open>ID d = ID c\<close>]
    have old: "{x \<in> set (members l). ID x = ID c} = {d}"
      using only_company [OF ok \<open>d \<in> set (members l)\<close>] \<open>ID d = ID c\<close> by simp
    have "Name d = Name c" if "revised c d \<in> set (members l)"
    proof -
      from that have "revised c d \<in> {x \<in> set (members l). ID x = ID c}" by simp
      with old have "revised c d = d" by simp
      then show ?thesis by (metis revised_simps(2))
    qed
    moreover have "{x \<in> set (members l1). x \<notin> set (members l)}
        = (if revised c d \<in> set (members l) then {} else {revised c d})"
      using updates eq by auto
    ultimately show ?thesis
      using updates old
      by (simp add: company_update_eq new_rows_companies matched_company company_keys_def) blast
  next
    case (deletes d i)
    have "{x \<in> set (members l). ID x = i} = {d}"
      using only_company [OF ok \<open>d \<in> set (members l)\<close>] \<open>ID d = i\<close> by simp
    with deletes show ?thesis by (simp add: company_delete_def matched_company company_keys_def)
  next
    case (announces ev j)
    then have "new_entry now ev \<notin> set (outbox l)" by force
    then have "{x \<in> set (outbox l1). x \<notin> set (outbox l)} = {new_entry now ev}"
      using announces by (auto simp: outbox_with_event)
    with announces show ?thesis
      by (simp add: outbox_insert_def new_rows_entries [OF lib ok ok1 [unfolded announces]])
  next
    case (marks_published en i)
    then show ?thesis
      using mark_keys [OF lib ok ok1 [unfolded marks_published] \<open>en \<in> set (outbox l)\<close> \<open>entry_id en = i\<close>]
      by (simp add: outbox_published_def)
  next
    case (marks_failed en i msg)
    then show ?thesis
      using mark_keys [OF lib ok ok1 [unfolded marks_failed] \<open>en \<in> set (outbox l)\<close> \<open>entry_id en = i\<close>]
      by (simp add: outbox_failed_def)
  qed
qed

subsection \<open>The writes of the program\<close>

inductive app_write :: "uuid_lib \<Rightarrow> stmt \<Rightarrow> bool" for lib :: uuid_lib where
  "valid_company c \<Longrightarrow> app_write lib (company_insert c)"
| "valid_company c \<Longrightarrow> app_write lib (company_update c)"
| "app_write lib (company_delete i)"
| "marshal_event lib ev = Inr j \<Longrightarrow> event_texts_ok ev \<Longrightarrow> app_write lib (outbox_insert ev j)"
| "app_write lib (outbox_published i)"
| "app_write lib (outbox_failed i msg)"

fun is_insert :: "stmt \<Rightarrow> bool" where
  "is_insert (Insert name cols vals) = True" | "is_insert _ = False"

lemma is_insert_simps [simp]:
  "is_insert (company_insert c)" "is_insert (outbox_insert ev j)" "\<not> is_insert (company_update c)"
  "\<not> is_insert (company_delete i)" "\<not> is_insert (outbox_published i)" "\<not> is_insert (outbox_failed i msg)"
  by (simp_all add: company_insert_def outbox_insert_def company_update_def company_delete_def
      outbox_published_def outbox_failed_def)

text \<open>Such a write has an effect on one row, or it finds no row.\<close>

lemma app_write_effect:
  assumes st: "app_write lib st" and ok: "ledger_ok l" and lib: "uuid_lib_ok lib"
    and exec: "sql_exec now st (conc lib l) = Inr (rows, n, db')"
  shows "n = 0 \<and> \<not> is_insert st \<or> n = 1 \<and> (\<exists>l1 ks. effect lib now st l l1 ks \<and> db' = conc lib l1)"
  using st
proof cases
  case (1 c)
  then have c: "storable c" using exec exec_company_insert_unstorable [of c now "conc lib l"] by force
  with 1 exec show ?thesis
    by (auto simp: exec_company_insert split: option.splits intro!: effect.creates)
next
  case (2 c)
  then have c: "storable c" using exec exec_company_update_unstorable [of c now "conc lib l"] by force
  show ?thesis
  proof (cases "ID c \<in> ID ` set (members l)")
    case True
    then obtain d where d: "d \<in> set (members l)" "ID d = ID c" by auto
    with 2 c exec True show ?thesis
      by (auto simp: exec_company_update [OF ok] split: if_splits intro!: effect.updates [OF _ _ d])
  qed (use 2 c exec in \<open>simp add: exec_company_update [OF ok]\<close>)
next
  case (3 i)
  have "distinct (map ID (members l))" using ok by (simp add: ledger_ok_def)
  from filter_key_cases [OF this, of i] 3 exec show ?thesis
    by (auto simp: exec_company_delete intro: effect.deletes)
next
  case (4 ev j)
  with exec show ?thesis
    by (auto simp: exec_outbox_insert [OF lib] split: if_splits intro!: effect.announces)
next
  case (5 i)
  with exec show ?thesis
    by (auto simp: exec_outbox_published [OF ok] split: if_splits intro: effect.marks_published)
next
  case (6 i msg)
  then have "\<not> (\<not> text_ok msg \<or> (\<exists>en\<in>set (outbox l). entry_id en = i \<and> \<not> int4_ok (en_attempts en + 1)))"
    using exec exec_outbox_failed_error [OF ok, of msg i now lib] by force
  then have msg: "text_ok msg" and small: "\<forall>en\<in>set (outbox l). entry_id en = i \<longrightarrow> int4_ok (en_attempts en + 1)"
    by auto
  with 6 exec show ?thesis
    by (auto simp: exec_outbox_failed [OF ok msg small] split: if_splits intro: effect.marks_failed)
qed

subsection \<open>Sequences of writes\<close>

text \<open>What the writes of a transaction make of a ledger, under the locks that it holds.\<close>

inductive performs :: "uuid_lib \<Rightarrow> time \<Rightarrow> key set \<Rightarrow> ledger \<Rightarrow> (stmt \<times> nat) list \<Rightarrow> ledger \<Rightarrow> bool"
  for lib :: uuid_lib and now :: time and K :: "key set" where
  nothing: "performs lib now K l [] l"
| no_row: "performs lib now K l ws v \<Longrightarrow> \<not> is_insert st \<Longrightarrow> performs lib now K l ((st, 0) # ws) v"
| one_row: "effect lib now st l l1 ks \<Longrightarrow> ks \<subseteq> K \<Longrightarrow> performs lib now K l1 ws v \<Longrightarrow>
    performs lib now K l ((st, Suc 0) # ws) v"

inductive_cases performs_NilE [elim!]: "performs lib now K l [] v"
inductive_cases performs_ConsE: "performs lib now K l (w # ws) v"

lemma ledger_ok_performs: "performs lib now K l ws v \<Longrightarrow> ledger_ok l \<Longrightarrow> ledger_ok v"
  by (induction rule: performs.induct) (auto intro: ledger_ok_effect)

lemma performs_mono: "performs lib now K l ws v \<Longrightarrow> K \<subseteq> K' \<Longrightarrow> performs lib now K' l ws v"
  by (induction rule: performs.induct) (auto intro: performs.intros)

lemma performs_append:
  "performs lib now K l ws v \<Longrightarrow> performs lib now K v us u \<Longrightarrow> performs lib now K l (ws @ us) u"
  by (induction rule: performs.induct) (auto intro: performs.intros)

lemma performs_frame:
  "performs lib now K l ws v \<Longrightarrow> ledger_ok l \<Longrightarrow> same_on (- K) l v"
proof (induction rule: performs.induct)
  case (one_row st l l1 ks ws v)
  have "same_on (- K) l l1"
    by (rule same_on_mono [OF effect_frame [OF one_row(1,5)]]) (use one_row(2) in blast)
  with one_row ledger_ok_effect [OF one_row(1,5)] show ?case by (blast intro: same_on_trans)
qed simp_all

lemma performs_local:
  assumes "performs lib now K l ws v" and "ledger_ok l" and "ledger_ok l'" and "same_on K l l'"
  shows "\<exists>v'. performs lib now K l' ws v' \<and> same_on K v v'"
  using assms
proof (induction arbitrary: l' rule: performs.induct)
  case (one_row st l l1 ks ws v)
  from effect_local [OF one_row(1,7,2,5,6)] obtain l1' where l1': "effect lib now st l' l1' ks" "same_on K l1 l1'"
    by blast
  from one_row(4) [OF ledger_ok_effect [OF one_row(1,5)] ledger_ok_effect [OF l1'(1) one_row(6)] l1'(2)]
  obtain v' where "performs lib now K l1' ws v'" "same_on K v v'" by blast
  with l1' one_row(2) show ?case by (blast intro: performs.one_row)
qed (blast intro: performs.intros)+

lemma performs_redo:
  "performs lib now K l ws v \<Longrightarrow> ledger_ok l \<Longrightarrow> uuid_lib_ok lib \<Longrightarrow>
   redo now ws (conc lib l) = Some (conc lib v)"
  by (induction rule: performs.induct) (simp_all add: effect_exec ledger_ok_effect)

end
