(* ===== verification/Transactions.thy ===== *)
theory Transactions
  imports System Writes
begin

text \<open>
  What the transactions of the program make of the ledger that they are committed on, and what that
  does to the events of the outbox.
\<close>

subsection \<open>A change and its event\<close>

fun applicable :: "ledger \<Rightarrow> change \<Rightarrow> bool" where
  "applicable l (Created c) \<longleftrightarrow> duplicate (members l) c = None"
| "applicable l (Updated c) \<longleftrightarrow> ID c \<in> ID ` set (members l)"
| "applicable l (Deleted c) \<longleftrightarrow> ID c \<in> ID ` set (members l)"

definition scans_ok :: "trace \<Rightarrow> bool" where
  "scans_ok L \<longleftrightarrow> (\<forall>c. scanned L c \<longrightarrow> company_ok c)"

text \<open>Ledgers are told apart by their tables.\<close>

lemma conc_inj:
  "uuid_lib_ok lib \<Longrightarrow> ledger_ok l \<Longrightarrow> ledger_ok l' \<Longrightarrow> conc lib l = conc lib l' \<Longrightarrow> l = l'"
  by (metis abs_conc)

lemma change_effect:
  assumes eff: "effect lib now (write_stmt ch) l l1 ks" and ok: "ledger_ok l" and lib: "uuid_lib_ok lib"
    and ch: "grounded L ch" "scans_ok L"
  shows "l1 = apply_change ch l \<and> applicable l ch \<and> company_ok (stored (change_company ch))"
proof -
  note exec = effect_exec [OF eff ok lib] and ok1 = ledger_ok_effect [OF eff ok]
  show ?thesis
  proof (cases ch)
    case (Created c)
    have c: "storable c" using exec exec_company_insert_unstorable [of c now "conc lib l"] Created by force
    with exec Created ch have "duplicate (members l) c = None" "conc lib l1 = conc lib (with_company c l)"
      by (auto simp: exec_company_insert split: option.splits)
    with conc_inj [OF lib ok1 ledger_ok_with_company [OF ok]] Created ch c show ?thesis by simp
  next
    case (Updated c)
    have c: "storable c" using exec exec_company_update_unstorable [of c now "conc lib l"] Updated by force
    with exec Updated ch have "ID c \<in> ID ` set (members l)" "\<not> name_taken l (ID c) (Name c)"
      "conc lib l1 = conc lib (with_revision c l)"
      by (auto simp: exec_company_update [OF ok] split: if_splits)
    with conc_inj [OF lib ok1 ledger_ok_with_revision [OF ok]] Updated ch c show ?thesis by simp
  next
    case (Deleted c)
    with exec have n: "length (filter (\<lambda>x. ID x = ID c) (members l)) = 1"
      and l1: "conc lib l1 = conc lib (without_company (ID c) l)"
      by (simp_all add: exec_company_delete)
    from n have "ID c \<in> ID ` set (members l)"
      by (metis (mono_tags, lifting) filter_False image_eqI list.size(3) zero_neq_one)
    moreover have "company_ok c" using Deleted ch by (simp add: scans_ok_def)
    ultimately show ?thesis
      using conc_inj [OF lib ok1 ledger_ok_without_company [OF ok] l1] Deleted
      by (simp add: company_ok_def)
  qed
qed

lemma wrote_change_result:
  assumes "wrote_change L ch ws" and "performs lib now K l ws v"
    and "ledger_ok l" and "uuid_lib_ok lib" and "scans_ok L"
  shows "v = apply_change ch l \<and> applicable l ch \<and> company_ok (stored (change_company ch))"
proof -
  from assms(1) obtain n where ch: "grounded L ch" and ws: "ws = [(write_stmt ch, n)]"
    and n: "n \<noteq> 0 \<or> is_created ch" by (auto simp: wrote_change_def)
  have "effect lib now (write_stmt ch) l v ks \<Longrightarrow> ?thesis" for ks
    using change_effect assms ch by blast
  with assms(2) n show ?thesis unfolding ws
    by (auto elim!: performs_ConsE simp: is_created_def)
qed

lemma event_effect:
  assumes eff: "effect lib now (outbox_insert ev j) l l1 ks" and ok: "ledger_ok l" and lib: "uuid_lib_ok lib"
    and ev: "marshal_event lib ev = Inr j" "event_texts_ok ev"
  shows "l1 = with_event now ev l"
proof -
  from effect_exec [OF eff ok lib] have "e_ID ev \<notin> entry_id ` set (outbox l)"
    "conc lib l1 = conc lib (with_event now ev l)"
    by (auto simp: exec_outbox_insert [OF lib ev] split: if_splits)
  with conc_inj [OF lib ledger_ok_effect [OF eff ok] ledger_ok_with_event [OF ok]] marshal_event_safe [OF ev]
  show ?thesis by simp
qed

lemma wrote_event_result:
  assumes "wrote_event lib L ch ev ws" and "performs lib now K l ws v"
    and "ledger_ok l" and "uuid_lib_ok lib" and "scans_ok L"
  shows "v = with_event now ev (apply_change ch l) \<and> applicable l ch \<and> announces ev ch
    \<and> ledger_ok (apply_change ch l)"
proof -
  from assms(1) obtain n m j where ch: "grounded L ch" and ev: "announces ev ch"
    and ws: "ws = [(write_stmt ch, n), (outbox_insert ev j, m)]"
    and n: "n \<noteq> 0 \<or> is_created ch" and j: "marshal_event lib ev = Inr j" by (auto simp: wrote_event_def)
  have "?thesis" if c: "effect lib now (write_stmt ch) l l1 ks"
    and e: "effect lib now (outbox_insert ev j) l1 v ks'" for l1 ks ks'
  proof -
    from change_effect [OF c assms(3,4) ch assms(5)] have l1: "l1 = apply_change ch l" "applicable l ch"
      and texts: "event_texts_ok ev" using announces_texts_ok [OF ev] by auto
    note ok1 = ledger_ok_effect [OF c assms(3)]
    from event_effect [OF e ok1 assms(4) j texts] l1 ev ok1 show ?thesis by simp
  qed
  with assms(2) n show ?thesis unfolding ws
    by (auto elim!: performs_ConsE simp: is_created_def)
qed

subsection \<open>Replaying the events\<close>

text \<open>
  A company but for its creation time: that of a stale copy differs when the company was deleted and
  created again in between.
\<close>

definition undated :: "company \<Rightarrow> company" where
  "undated c = c\<lparr>CreatedAt := 0\<rparr>"

definition announced :: "ledger \<Rightarrow> bool" where
  "announced l \<longleftrightarrow> (\<forall>i. map_option undated (replay (events_of l) i) = map_option undated (company_table l i))"

lemma undated_revised [simp]: "undated (revised c d) = undated (stored c)"
  by (simp add: undated_def revised_def)

lemma option_eq_by_Some: "(\<And>c. m = Some c \<longleftrightarrow> m' = Some c) \<Longrightarrow> m = m'"
  by (metis option.exhaust)

lemma company_table_applied:
  assumes l: "ledger_ok l" and l1: "ledger_ok (apply_change ch l)" and ch: "applicable l ch"
  shows "map_option undated (company_table (apply_change ch l) i) =
    (if i \<noteq> ID (change_company ch) then map_option undated (company_table l i)
     else if change_type ch = EventCompanyDeleted then None else Some (undated (stored (change_company ch))))"
proof (cases "i = ID (change_company ch)")
  case False
  have "c \<in> set (members (apply_change ch l)) \<longleftrightarrow> c \<in> set (members l)" if "ID c = i" for c
  proof (cases ch)
    case (Updated d)
    with ch obtain d' where "d' \<in> set (members l)" "ID d' = ID d" by auto
    with Updated False that show ?thesis by (auto simp: members_with_revision [OF l])
  qed (use False that in \<open>auto simp: members_with_company members_without\<close>)
  then have "company_table (apply_change ch l) i = company_table l i"
    by (intro option_eq_by_Some) (auto simp: company_table_Some [OF l] company_table_Some [OF l1])
  with False show ?thesis by simp
next
  case True
  show ?thesis
  proof (cases ch)
    case (Created c)
    then have "company_table (apply_change ch l) i = Some (stored c)"
      using True company_table_Some [OF l1, of i] by (simp add: members_with_company)
    with True Created show ?thesis by (simp add: event_type_defs)
  next
    case (Updated c)
    with ch obtain d where "d \<in> set (members l)" "ID d = ID c" by auto
    with Updated True have "company_table (apply_change ch l) i = Some (revised c d)"
      using company_table_Some [OF l1, of i] by (simp add: members_with_revision [OF l])
    with True Updated show ?thesis by (simp add: event_type_defs)
  next
    case (Deleted c)
    then have "company_table (apply_change ch l) i = None"
      using True company_table_Some [OF l1, of i] by (cases "company_table (apply_change ch l) i") (auto simp: members_without)
    with True Deleted show ?thesis by simp
  qed
qed

lemma announced_change:
  assumes "announced l" and "ledger_ok l" and "ledger_ok (apply_change ch l)" and "applicable l ch"
    and "announces ev ch"
  shows "announced (with_event now ev (apply_change ch l))"
proof -
  have "map_option undated (replay (events_of (with_event now ev (apply_change ch l))) i)
      = map_option undated (company_table (apply_change ch l) i)" for i
    using assms(1,5) company_table_applied [OF assms(2,3,4), of i]
    by (auto simp: announced_def events_of_def replay_def with_event_def replay_event_def announces_def)
  then show ?thesis by (simp add: announced_def)
qed

subsection \<open>Marks\<close>

text \<open>A batch writes marks only, each for an entry that it has fetched.\<close>

inductive is_mark :: "stmt \<Rightarrow> bool" where
  "is_mark (outbox_published i)"
| "is_mark (outbox_failed i msg)"

lemma mark_effect:
  assumes eff: "effect lib now st l l1 ks" and st: "is_mark st"
  shows "\<exists>en i. en \<in> set (outbox l) \<and> entry_id en = i
    \<and> (st = outbox_published i \<and> l1 = with_entry i (marked_published now) l
       \<or> (\<exists>msg. st = outbox_failed i msg \<and> l1 = with_entry i (marked_failed now msg) l))"
  using eff
proof cases
  case (marks_published en i)
  then show ?thesis by blast
next
  case (marks_failed en i msg)
  then show ?thesis by blast
qed (use st in \<open>auto elim!: is_mark.cases simp: company_insert_def company_update_def company_delete_def
     outbox_insert_def outbox_published_def outbox_failed_def\<close>)

lemma events_with_entry:
  "(\<And>en. en_event (g en) = en_event en) \<Longrightarrow> events_of (with_entry i g l) = events_of l"
  by (auto simp: events_of_def with_entry_def replace_by_def)

lemma marks_result:
  assumes "performs lib now K l ws v" and "\<forall>(st, n)\<in>set ws. is_mark st"
  shows "members v = members l \<and> events_of v = events_of l"
  using assms
proof (induction rule: performs.induct)
  case (one_row st l l1 ks ws v)
  then have "is_mark st" by simp
  from mark_effect [OF one_row(1) this] have "members l1 = members l \<and> events_of l1 = events_of l"
    by (auto simp: events_with_entry)
  with one_row show ?case by simp
qed auto

lemma announced_marks: "announced l \<Longrightarrow> members v = members l \<Longrightarrow> events_of v = events_of l \<Longrightarrow> announced v"
  by (simp add: announced_def company_table_def)

text \<open>Marks of published entries are honest when their events have been sent.\<close>

lemma delivered_marks:
  assumes "performs lib now K l ws v" and "ledger_ok l" and "\<forall>(st, n)\<in>set ws. is_mark st"
    and "\<And>i n en. (outbox_published i, n) \<in> set ws \<Longrightarrow> en \<in> set (outbox l) \<Longrightarrow> entry_id en = i \<Longrightarrow>
      en_event en \<in> set snt"
    and "delivered (\<lambda>ev. ev) l snt"
  shows "delivered (\<lambda>ev. ev) v snt"
  using assms
proof (induction rule: performs.induct)
  case (one_row st l l1 ks ws v)
  from mark_effect [OF one_row(1)] one_row.prems(2) obtain en i g where en: "en \<in> set (outbox l)" "entry_id en = i"
    and l1: "l1 = with_entry i g l" and g: "\<And>x. en_event (g x) = en_event x"
    and st: "st = outbox_published i \<or> en_published (g en) = en_published en"
    by (auto simp: marked_failed_def)
  have out: "set (outbox l1) = insert (g en) {x \<in> set (outbox l). entry_id x \<noteq> i}"
    using outbox_with_entry [OF one_row.prems(1) en] l1 by simp
  have "delivered (\<lambda>ev. ev) l1 snt"
    using one_row.prems(3) [of i "Suc 0" en] one_row.prems(4) en st g
    unfolding delivered_def out by auto
  moreover have "en_event x \<in> set snt" if "(outbox_published k, n) \<in> set ws" "x \<in> set (outbox l1)" "entry_id x = k" for k n x
  proof -
    from that(2) out consider "x = g en" | "x \<in> set (outbox l)" by auto
    then show ?thesis
      using one_row.prems(3) [of k n] that(1,3) en(1) g by cases auto
  qed
  ultimately show ?case
    using one_row.IH ledger_ok_effect [OF one_row.hyps(1) one_row.prems(1)] one_row.prems(2) by simp
qed auto

end
