(* ===== verification/Concurrency.thy ===== *)
theory Concurrency
  imports Transactions
begin

text \<open>
  Any number of jobs at once on one server: their calls interleave in any order, and the server may
  end a transaction at any time.  The invariant of the whole, by induction over the runs.
\<close>

subsection \<open>Interleaved runs\<close>

definition empty_cluster :: cluster where
  "empty_cluster =
     \<lparr>base = \<lparr>companies = [], outbox_events = []\<rparr>, active = (\<lambda>t. None), next_handle = 0, sent_events = []\<rparr>"

text \<open>
  \<open>jobs\<close> says what each client runs; a run is the state of the server with what each client has
  called and been answered so far.
\<close>

inductive interleaved ::
    "uuid_lib \<Rightarrow> (stmt \<Rightarrow> goerr option) \<Rightarrow> (nat \<Rightarrow> job) \<Rightarrow> cluster \<Rightarrow> (nat \<Rightarrow> trace) \<Rightarrow> bool"
  for lib :: uuid_lib and tosql :: "stmt \<Rightarrow> goerr option" and jobs :: "nat \<Rightarrow> job" where
  start: "interleaved lib tosql jobs empty_cluster (\<lambda>k. [])"
| call: "interleaved lib tosql jobs s logs \<Longrightarrow> is_trace lib tosql (jobs k) (logs k @ [(c, a)]) \<Longrightarrow>
    serve s c a s' \<Longrightarrow> interleaved lib tosql jobs s' (logs(k := logs k @ [(c, a)]))"
| lost: "interleaved lib tosql jobs s logs \<Longrightarrow> interleaved lib tosql jobs (ending t s) logs"

subsection \<open>The invariant\<close>

text \<open>What a job knows from its log is true, and stays true.\<close>

definition log_true :: "uuid_lib \<Rightarrow> ledger \<Rightarrow> event list \<Rightarrow> trace \<Rightarrow> bool" where
  "log_true lib l snt L \<longleftrightarrow>
     scans_ok L
     \<and> (\<forall>t o'. o' \<in> set (fetched lib t L) \<longrightarrow> (o_ID o', o_Event o') \<in> (\<lambda>en. (entry_id en, en_event en)) ` set (outbox l))
     \<and> (\<forall>ev. (CPublish ev, ADone None) \<in> set L \<longrightarrow> ev \<in> set snt)
     \<and> (\<forall>L0 t L1 ch ev. L = L0 @ (CCommit t, ADone None) # L1 \<longrightarrow> stage2 lib t ch ev L0 \<longrightarrow> ev \<in> set (events_of l))"

text \<open>An open transaction belongs to a job, can be carried out on what is committed, and holds its locks.\<close>

definition tx_true :: "uuid_lib \<Rightarrow> ledger \<Rightarrow> tx_handle \<Rightarrow> tx \<Rightarrow> trace \<Rightarrow> bool" where
  "tx_true lib l t a L \<longleftrightarrow>
     begun t L \<and> did a = writes t L
     \<and> (\<exists>v. performs lib (since a) (set (held a)) l (did a) v)
     \<and> (\<forall>o'\<in>set (fetched lib t L). event_key (o_ID o') \<in> set (held a))"

definition base_true :: "uuid_lib \<Rightarrow> ledger \<Rightarrow> cluster \<Rightarrow> bool" where
  "base_true lib l s \<longleftrightarrow>
     base s = conc lib l \<and> ledger_ok l \<and> announced l \<and> delivered (\<lambda>ev. ev) l (sent_events s)"

definition handles_true :: "cluster \<Rightarrow> (nat \<Rightarrow> trace) \<Rightarrow> bool" where
  "handles_true s logs \<longleftrightarrow>
     (\<forall>k t. begun t (logs k) \<longrightarrow> t < next_handle s)
     \<and> (\<forall>j k t. begun t (logs j) \<longrightarrow> begun t (logs k) \<longrightarrow> j = k)
     \<and> (\<forall>t u a b. active s t = Some a \<longrightarrow> active s u = Some b \<longrightarrow> t \<noteq> u \<longrightarrow> set (held a) \<inter> set (held b) = {})"

definition run_true :: "uuid_lib \<Rightarrow> (nat \<Rightarrow> job) \<Rightarrow> ledger \<Rightarrow> cluster \<Rightarrow> (nat \<Rightarrow> trace) \<Rightarrow> bool" where
  "run_true lib jobs l s logs \<longleftrightarrow>
     base_true lib l s \<and> handles_true s logs
     \<and> (\<forall>k. obeys (job_protocol lib (jobs k)) (logs k) \<and> log_true lib l (sent_events s) (logs k))
     \<and> (\<forall>t a. active s t = Some a \<longrightarrow> (\<exists>k. tx_true lib l t a (logs k)))"

subsection \<open>Logs that grow\<close>

text \<open>What the answer to a call adds to the facts of a log.\<close>

fun call_true :: "uuid_lib \<Rightarrow> ledger \<Rightarrow> event list \<Rightarrow> trace \<Rightarrow> call \<times> answer \<Rightarrow> bool" where
  "call_true lib l snt L (CQueryRow x st, ARow (Inr row)) =
     (\<forall>c. scanCompany (Inr row) = Inr c \<longrightarrow> company_ok c)"
| "call_true lib l snt L (CQuery x st, a) =
     (\<forall>t. \<forall>o'\<in>set (fetch_of lib t (CQuery x st, a)).
        (o_ID o', o_Event o') \<in> (\<lambda>en. (entry_id en, en_event en)) ` set (outbox l))"
| "call_true lib l snt L (CPublish ev, ADone None) = (ev \<in> set snt)"
| "call_true lib l snt L (CCommit t, ADone None) = (\<forall>ch ev. stage2 lib t ch ev L \<longrightarrow> ev \<in> set (events_of l))"
| "call_true lib l snt L _ = True"

text \<open>The outbox only grows, whatever is marked in it.\<close>

definition outbox_grows :: "ledger \<Rightarrow> ledger \<Rightarrow> bool" where
  "outbox_grows l l' \<longleftrightarrow> set (events_of l) \<subseteq> set (events_of l')"

lemma entry_pairs:
  "(i, ev) \<in> (\<lambda>en. (entry_id en, en_event en)) ` set (outbox l) \<longleftrightarrow> e_ID ev = i \<and> ev \<in> set (events_of l)"
  by (auto simp: events_of_def)

lemma fetch_of_other: "(\<forall>x st. c \<noteq> CQuery x st) \<Longrightarrow> fetch_of lib t (c, a) = []"
  by (cases c; cases a) auto

lemma scanned_snoc_iff:
  "scanned (L @ [(c, a)]) d \<longleftrightarrow>
     scanned L d \<or> (\<exists>x st row. c = CQueryRow x st \<and> a = ARow (Inr row) \<and> scanCompany (Inr row) = Inr d)"
  by (auto simp: scanned_def)

lemma log_true_grows:
  assumes "log_true lib l snt L" and "outbox_grows l l'" and "set snt \<subseteq> set snt'"
  shows "log_true lib l' snt' L"
  using assms unfolding log_true_def outbox_grows_def entry_pairs by blast

lemma log_true_snoc:
  assumes L: "log_true lib l snt L" and new: "call_true lib l snt L ca"
  shows "log_true lib l snt (L @ [ca])"
proof -
  obtain c a where ca: "ca = (c, a)" by fastforce
  have "scans_ok (L @ [ca])"
    using L new unfolding ca by (auto simp: log_true_def scans_ok_def scanned_snoc_iff)
  moreover have "(o_ID o', o_Event o') \<in> (\<lambda>en. (entry_id en, en_event en)) ` set (outbox l)"
    if "o' \<in> set (fetch_of lib t ca)" for t o'
  proof (cases "\<exists>x st. c = CQuery x st")
    case True
    with new that show ?thesis unfolding ca by auto
  qed (use that in \<open>simp add: ca fetch_of_other\<close>)
  moreover have "ev \<in> set snt" if "ca = (CPublish ev, ADone None)" for ev
    using new that by simp
  moreover have "ev \<in> set (events_of l)"
    if "L @ [ca] = L0 @ (CCommit t, ADone None) # L1" "stage2 lib t ch ev L0" for L0 t L1 ch ev
  proof (cases L1 rule: rev_cases)
    case Nil
    with that new show ?thesis by auto
  next
    case (snoc L2 x)
    with that(1) have "L = L0 @ (CCommit t, ADone None) # L2" by simp
    with that(2) L show ?thesis unfolding log_true_def by blast
  qed
  ultimately show ?thesis
    using L unfolding log_true_def by auto
qed

lemma tx_true_snoc:
  assumes "tx_true lib l t a (logs j)" and "write_of t ca = []" and "fetch_of lib t ca = []"
  shows "\<exists>j. tx_true lib l t a ((logs(k := logs k @ [ca])) j)"
  using assms by (intro exI [of _ j]) (auto simp: tx_true_def)

text \<open>One step of a client, from what it does to the server.\<close>

lemma run_true_step:
  assumes run: "run_true lib jobs l s logs"
    and tr: "is_trace lib tosql (jobs k) (logs k @ [ca])"
    and base: "base_true lib l' s'" and grows: "outbox_grows l l'" "set (sent_events s) \<subseteq> set (sent_events s')"
    and new: "call_true lib l' (sent_events s') (logs k) ca"
    and handles: "next_handle s \<le> next_handle s'"
      "\<And>t. ca = (CBegin, ATx (Inr t)) \<Longrightarrow> t = next_handle s \<and> t < next_handle s'"
    and txs: "\<And>t a. active s' t = Some a \<Longrightarrow> \<exists>j. tx_true lib l' t a ((logs(k := logs k @ [ca])) j)"
    and locks: "\<And>t u a b. active s' t = Some a \<Longrightarrow> active s' u = Some b \<Longrightarrow> t \<noteq> u \<Longrightarrow> set (held a) \<inter> set (held b) = {}"
  shows "run_true lib jobs l' s' (logs(k := logs k @ [ca]))"
proof -
  have "obeys (job_protocol lib (jobs k)) (logs k @ [ca])" by (rule trace_obeys [OF tr])
  moreover have "log_true lib l' (sent_events s') (logs j)" for j
    using run grows log_true_grows unfolding run_true_def by blast
  moreover have "log_true lib l' (sent_events s') (logs k @ [ca])"
    by (rule log_true_snoc [OF calculation(2) new])
  moreover have "handles_true s' (logs(k := logs k @ [ca]))"
  proof -
    have old: "begun t (logs j) \<Longrightarrow> t < next_handle s" for j t
      using run by (auto simp: run_true_def handles_true_def)
    have uniq: "begun t (logs j) \<Longrightarrow> begun t (logs i) \<Longrightarrow> j = i" for i j t
      using run by (auto simp: run_true_def handles_true_def)
    have lt: "begun t ((logs(k := logs k @ [ca])) j) \<Longrightarrow> t < next_handle s'" for j t
      using old [of t j] handles by (auto split: if_splits intro: less_le_trans)
    have "begun t ((logs(k := logs k @ [ca])) j) \<Longrightarrow> begun t ((logs(k := logs k @ [ca])) i) \<Longrightarrow> j = i" for i j t
      using uniq [of t j i] old [of t j] old [of t i] handles(2) [of t] by (auto split: if_splits)
    with lt locks show ?thesis unfolding handles_true_def by blast
  qed
  ultimately show ?thesis
    using run base txs unfolding run_true_def by simp
qed

lemma of_elsewhere:
  assumes "executor_of c \<noteq> TxExecutor t"
  shows "write_of t (c, a) = []" "fetch_of lib t (c, a) = []"
proof -
  show "write_of t (c, a) = []"
    by (cases "(t, c, a)" rule: write_of.cases) (use assms in auto)
  show "fetch_of lib t (c, a) = []"
    by (cases "(lib, t, c, a)" rule: fetch_of.cases) (use assms in auto)
qed

text \<open>A job writes and fetches only in transactions that it has begun.\<close>

lemma obeys_not_begun:
  assumes "obeys (job_protocol lib j) L" and "\<not> begun t L"
  shows "writes t L = [] \<and> fetched lib t L = []"
  using assms
proof (induction L rule: rev_induct)
  case (snoc ca L)
  obtain c a where ca: "ca = (c, a)" by fastforce
  from snoc have IH: "writes t L = [] \<and> fetched lib t L = []" and nb: "\<not> begun t L" and ok: "job_protocol lib j L c"
    by (auto simp: ca)
  have "write_of t (c, a) = [] \<and> fetch_of lib t (c, a) = []"
  proof (cases "executor_of c = TxExecutor t")
    case True
    with ok nb have "\<forall>x st. c \<noteq> CExec x st" "\<forall>x st. c \<noteq> CQuery x st" by (cases j; cases c; auto)+
    then show ?thesis by (simp add: write_of_other fetch_of_other)
  qed (simp add: of_elsewhere)
  with IH show ?case by (simp add: ca)
qed simp

subsection \<open>Steps that commit nothing\<close>

lemma base_now:
  assumes "run_true lib jobs l s logs"
  shows "base s = conc lib l" "ledger_ok l" "announced l" "delivered (\<lambda>ev. ev) l (sent_events s)"
  using assms by (simp_all add: run_true_def base_true_def)

lemma log_now:
  assumes "run_true lib jobs l s logs"
  shows "log_true lib l (sent_events s) (logs k)" "obeys (job_protocol lib (jobs k)) (logs k)"
  using assms by (simp_all add: run_true_def)

lemma tx_now:
  "run_true lib jobs l s logs \<Longrightarrow> active s t = Some a \<Longrightarrow> begun t (logs k) \<Longrightarrow> tx_true lib l t a (logs k)"
  unfolding run_true_def handles_true_def tx_true_def by blast

lemma tx_exists: "run_true lib jobs l s logs \<Longrightarrow> active s t = Some a \<Longrightarrow> \<exists>k. tx_true lib l t a (logs k)"
  by (simp add: run_true_def)

lemma active_handle: "run_true lib jobs l s logs \<Longrightarrow> active s t = Some a \<Longrightarrow> t < next_handle s"
  unfolding run_true_def handles_true_def tx_true_def by blast

lemma locks_now:
  "run_true lib jobs l s logs \<Longrightarrow> active s t = Some a \<Longrightarrow> active s u = Some b \<Longrightarrow> t \<noteq> u \<Longrightarrow>
   set (held a) \<inter> set (held b) = {}"
  unfolding run_true_def handles_true_def by blast

lemma view_exists:
  assumes run: "run_true lib jobs l s logs" and lib: "uuid_lib_ok lib" and a: "active s t = Some a"
  obtains v where "performs lib (since a) (set (held a)) l (did a) v" and "ledger_ok v"
    and "view_of a s = Some (conc lib v)"
proof -
  from tx_exists [OF run a] obtain v where v: "performs lib (since a) (set (held a)) l (did a) v"
    by (auto simp: tx_true_def)
  with performs_redo [OF v base_now(2) [OF run] lib] base_now(1) [OF run]
    ledger_ok_performs [OF v base_now(2) [OF run]] that
  show ?thesis by (simp add: view_of_def)
qed

lemma view_now:
  assumes "run_true lib jobs l s logs" and "uuid_lib_ok lib" and "active s t = Some a" and "view_of a s = Some db"
  obtains v where "performs lib (since a) (set (held a)) l (did a) v" and "ledger_ok v" and "db = conc lib v"
  using view_exists [OF assms(1-3)] assms(4) that by (metis option.inject)

lemma same_base:
  assumes "run_true lib jobs l s logs" and "base s' = base s" and "sent_events s' = sent_events s @ extra"
  shows "base_true lib l s'"
  using assms base_now [OF assms(1)] delivered_more by (simp add: base_true_def)

lemma neutral_step:
  assumes run: "run_true lib jobs l s logs" and tr: "is_trace lib tosql (jobs k) (logs k @ [ca])"
    and s': "base s' = base s" "sent_events s' = sent_events s @ extra" "next_handle s' = next_handle s"
    and act: "\<And>t a. active s' t = Some a \<Longrightarrow> active s t = Some a"
    and ca: "\<And>t. write_of t ca = []" "\<And>t. fetch_of lib t ca = []" "\<And>t. ca \<noteq> (CBegin, ATx (Inr t))"
    and new: "call_true lib l (sent_events s') (logs k) ca"
  shows "run_true lib jobs l s' (logs(k := logs k @ [ca]))"
proof (rule run_true_step [OF run tr same_base [OF run s'(1,2)] _ _ new])
  show "\<exists>j. tx_true lib l t a ((logs(k := logs k @ [ca])) j)" if "active s' t = Some a" for t a
  proof -
    from tx_exists [OF run act [OF that]] obtain j where "tx_true lib l t a (logs j)" by blast
    from tx_true_snoc [of lib l t a logs j, OF this ca(1,2)] show ?thesis by blast
  qed
  show "set (held a) \<inter> set (held b) = {}" if "active s' t = Some a" "active s' u = Some b" "t \<noteq> u" for t u a b
    using locks_now [OF run] act that by blast
qed (use s' ca(3) in \<open>auto simp: outbox_grows_def\<close>)

lemma begin_step:
  assumes run: "run_true lib jobs l s logs"
    and tr: "is_trace lib tosql (jobs k) (logs k @ [(CBegin, ATx (Inr (next_handle s)))])"
    and s': "s' = s\<lparr>active := (active s)(next_handle s \<mapsto> \<lparr>since = now, did = [], held = []\<rparr>),
       next_handle := Suc (next_handle s)\<rparr>"
  shows "run_true lib jobs l s' (logs(k := logs k @ [(CBegin, ATx (Inr (next_handle s)))]))"
proof (rule run_true_step [OF run tr])
  let ?ca = "(CBegin, ATx (Inr (next_handle s)))"
  have "\<not> begun (next_handle s) (logs k)"
    using run by (auto simp: run_true_def handles_true_def)
  then have new: "tx_true lib l (next_handle s) \<lparr>since = now, did = [], held = []\<rparr> (logs k @ [?ca])"
    using obeys_not_begun [OF log_now(2) [OF run]] by (auto simp: tx_true_def intro: performs.nothing)
  show "\<exists>j. tx_true lib l t a ((logs(k := logs k @ [?ca])) j)" if "active s' t = Some a" for t a
  proof (cases "t = next_handle s")
    case True
    with that new s' show ?thesis by (intro exI [of _ k]) simp
  next
    case False
    with that s' obtain j where "tx_true lib l t a (logs j)" using tx_exists [OF run] by auto
    then show ?thesis using tx_true_snoc [of lib l t a logs j] by simp
  qed
  show "set (held a) \<inter> set (held b) = {}" if "active s' t = Some a" "active s' u = Some b" "t \<noteq> u" for t u a b
    using locks_now [OF run, of t a u b] that s' by (auto split: if_splits)
qed (use s' same_base [OF run, of s' "[]"] in \<open>auto simp: outbox_grows_def\<close>)

subsection \<open>Writes and reads in a transaction\<close>

lemma allowed_write:
  assumes ok: "job_protocol lib j L (CExec (TxExecutor t) st)"
    and v: "performs lib now K l (writes t L) v" "ledger_ok l" and lib: "uuid_lib_ok lib" and L: "scans_ok L"
  shows "app_write lib st"
proof (cases "\<exists>interval n. j = RunBatch interval n")
  case True
  with ok show ?thesis by (auto intro: app_write.intros)
next
  case False
  with ok have "may_write lib L (writes t L) st" by (cases j) auto
  then consider ch where "st = write_stmt ch" "grounded L ch"
    | ch ev j' where "wrote_change L ch (writes t L)" "announces ev ch" "marshal_event lib ev = Inr j'"
        "st = outbox_insert ev j'"
    by (auto simp: may_write_def)
  then show ?thesis
  proof cases
    case (1 ch)
    then show ?thesis by (cases ch) (auto intro: app_write.intros)
  next
    case (2 ch ev j')
    from wrote_change_result [OF 2(1) v lib L] announces_texts_ok [OF 2(2)] 2(3,4)
    show ?thesis by (auto intro: app_write.intros)
  qed
qed

lemma unlockedD:
  assumes "unlocked (TxExecutor t) ks s" and "active s u = Some b" and "u < next_handle s" and "u \<noteq> t"
  shows "set ks \<inter> set (held b) = {}"
  using assms by (fastforce simp: unlocked_def list_all_iff)

text \<open>A step of one open transaction that only adds to it.\<close>

lemma tx_step:
  assumes run: "run_true lib jobs l s logs" and tr: "is_trace lib tosql (jobs k) (logs k @ [ca])"
    and a: "active s t = Some a" and free: "unlocked (TxExecutor t) ks s"
    and s': "s' = s\<lparr>active := (active s)(t \<mapsto> b)\<rparr>" and b: "held b = held a @ ks"
    and other: "executor_of (fst ca) = TxExecutor t" and nb: "\<And>u. ca \<noteq> (CBegin, ATx (Inr u))"
    and new: "call_true lib l (sent_events s) (logs k) ca" and tb: "tx_true lib l t b (logs k @ [ca])"
  shows "run_true lib jobs l s' (logs(k := logs k @ [ca]))"
proof (rule run_true_step [OF run tr same_base [OF run, of s' "[]"]])
  show "\<exists>j. tx_true lib l u x ((logs(k := logs k @ [ca])) j)" if "active s' u = Some x" for u x
  proof (cases "u = t")
    case True
    with that s' tb show ?thesis by (intro exI [of _ k]) simp
  next
    case False
    with that s' obtain j where j: "tx_true lib l u x (logs j)" using tx_exists [OF run] by auto
    have "executor_of (fst ca) \<noteq> TxExecutor u" using other False by simp
    then have "write_of u ca = []" "fetch_of lib u ca = []"
      using of_elsewhere [where c = "fst ca" and t = u and a = "snd ca"] by simp_all
    from tx_true_snoc [of lib l u x logs j, OF j this] show ?thesis by blast
  qed
  show "set (held x) \<inter> set (held y) = {}" if "active s' u = Some x" "active s' v = Some y" "u \<noteq> v" for u v x y
  proof -
    note old = locks_now [OF run] and free' = unlockedD [OF free _ active_handle [OF run]]
    have "u \<noteq> v" by fact
    then consider "u \<noteq> t" "v \<noteq> t" | "u = t" "v \<noteq> t" | "u \<noteq> t" "v = t" by auto
    then show ?thesis
    proof cases
      case 1
      with that s' old show ?thesis by auto
    next
      case 2
      with that s' have "x = b" "active s v = Some y" by auto
      with old [OF a, of v y] free' [of v y] b 2 show ?thesis by auto
    next
      case 3
      with that s' have "y = b" "active s u = Some x" by auto
      with old [OF a, of u x] free' [of u x] b 3 show ?thesis by auto
    qed
  qed
qed (use s' new nb in \<open>auto simp: outbox_grows_def\<close>)

lemma write_step:
  assumes run: "run_true lib jobs l s logs" and lib: "uuid_lib_ok lib"
    and tr: "is_trace lib tosql (jobs k) (logs k @ [(CExec (TxExecutor t) st, ACount (Inr n))])"
    and a: "active s t = Some a" and db: "view_of a s = Some db"
    and exec: "sql_exec (since a) st db = Inr (rows, n, db')" and ks: "ks = keys_of (since a) st db db'"
    and free: "unlocked (TxExecutor t) ks s"
  shows "run_true lib jobs l (writing t st n (locking t ks s))
    (logs(k := logs k @ [(CExec (TxExecutor t) st, ACount (Inr n))]))"
proof (rule tx_step [OF run tr a free])
  let ?ca = "(CExec (TxExecutor t) st, ACount (Inr n))"
  let ?b = "a\<lparr>held := held a @ ks, did := did a @ [(st, n)]\<rparr>"
  have ok: "job_protocol lib (jobs k) (logs k) (CExec (TxExecutor t) st)"
    using trace_obeys [OF tr] by simp
  then have "begun t (logs k)" by (cases "jobs k") auto
  from tx_now [OF run a this] have tx: "tx_true lib l t a (logs k)" .
  obtain v where v: "performs lib (since a) (set (held a)) l (did a) v" "ledger_ok v" "db = conc lib v"
    using view_now [OF run lib a db] .
  have did: "did a = writes t (logs k)" using tx by (simp add: tx_true_def)
  have "scans_ok (logs k)" using log_now(1) [OF run] by (simp add: log_true_def)
  from allowed_write [OF ok v(1) [unfolded did] base_now(2) [OF run] lib this] have st: "app_write lib st" .
  have "\<exists>v'. performs lib (since a) (set (held a @ ks)) v [(st, n)] v'"
    using app_write_effect [OF st v(2) lib exec [unfolded v(3)]]
  proof (elim disjE conjE exE)
    assume "n = 0" "\<not> is_insert st"
    then show ?thesis by (auto intro: performs.intros)
  next
    fix l1 ks' assume n: "n = 1" and eff: "effect lib (since a) st v l1 ks'" and db': "db' = conc lib l1"
    from effect_keys [OF eff v(2) lib] ks v(3) db' have "set ks = ks'" by simp
    with n eff show ?thesis by (auto intro!: performs.intros)
  qed
  then obtain v' where "performs lib (since a) (set (held a @ ks)) v [(st, n)] v'" by blast
  moreover have "performs lib (since a) (set (held a @ ks)) l (did a) v"
    by (rule performs_mono [OF v(1)]) simp
  ultimately have "performs lib (since a) (set (held a @ ks)) l (did a @ [(st, n)]) v'"
    by (blast intro: performs_append)
  then show "tx_true lib l t ?b (logs k @ [?ca])"
    using tx by (auto simp: tx_true_def)
  show "writing t st n (locking t ks s) = s\<lparr>active := (active s)(t \<mapsto> ?b)\<rparr>"
    by (simp add: writing_def locking_def a)
qed simp_all

text \<open>A batch fetches entries of the outbox, and locks them.\<close>

definition vacant :: "tx_handle \<Rightarrow> cluster \<Rightarrow> ledger \<Rightarrow> ledger" where
  "vacant t s v =
     v\<lparr>outbox := filter (\<lambda>en. unlocked (TxExecutor t) [event_key (entry_id en)] s) (outbox v)\<rparr>"

lemma ledger_ok_vacant: "ledger_ok v \<Longrightarrow> ledger_ok (vacant t s v)"
  by (auto simp: ledger_ok_def vacant_def distinct_map_filter)

lemma readable_outbox:
  "readable (TxExecutor t) (outbox_select m) s (conc lib v) = conc lib (vacant t s v)"
  by (simp add: outbox_select_def vacant_def filter_map comp_def)

lemma picked_outbox:
  "keys_of now (outbox_select m) (conc lib l) db' = map (\<lambda>en. event_key (entry_id en)) (pending now m l)"
proof -
  have "matches now [IsNull ''published_at'', LeNow ''available_at''] \<circ> row_of_entry lib = due now"
    by (auto simp: fun_eq_iff matches_def due_def split: option.splits)
  moreover have "time_key ''created_at'' \<circ> row_of_entry lib = (\<lambda>en. micros (OccurredAt (en_event en)))"
    by (auto simp: fun_eq_iff time_key_def)
  ultimately have "selected now [IsNull ''published_at'', LeNow ''available_at'']
      (Some ''created_at'') (Some m) (map (row_of_entry lib) (outbox l))
      = map (row_of_entry lib) (pending now m l)"
    by (simp add: selected_def filter_map sort_key_map pending_def take_map Let_def)
  then show ?thesis by (simp add: outbox_select_def picked_def comp_def)
qed

lemma read_outbox:
  assumes "sql_exec now (outbox_select m) (conc lib l) = Inr (rows, n, db')"
    and "ledger_ok l" and "uuid_lib_ok lib"
  shows "scan_outbox lib rows [] = Inr (map outbox_event_of (pending now m l))"
proof -
  have "\<forall>en\<in>set (pending now m l). entry_ok en"
    using assms(2) set_pending [of now m l] by (auto simp: ledger_ok_def)
  from scan_outbox_entries [OF assms(3) this, of "[]"] assms(1) show ?thesis
    by (simp add: exec_outbox_select)
qed

lemma batch_writes:
  assumes "obeys (batch_protocol lib) L" and "(st, n) \<in> set (writes t L)"
  shows "\<exists>o'\<in>set (fetched lib t L).
    st = outbox_published (o_ID o') \<and> (CPublish (o_Event o'), ADone None) \<in> set L
    \<or> (\<exists>msg. st = outbox_failed (o_ID o') msg)"
  using assms
proof (induction L rule: rev_induct)
  case (snoc ca L)
  obtain c a where ca: "ca = (c, a)" by fastforce
  from snoc.prems have obey: "obeys (batch_protocol lib) L" "batch_protocol lib L c"
    and cases: "(st, n) \<in> set (writes t L) \<or> (st, n) \<in> set (write_of t (c, a))" by (auto simp: ca)
  from cases show ?case
  proof
    assume "(st, n) \<in> set (writes t L)"
    from snoc.IH [OF obey(1) this] show ?thesis by (auto simp: ca)
  next
    assume new: "(st, n) \<in> set (write_of t (c, a))"
    then have "c = CExec (TxExecutor t) st"
      by (cases "(t, c, a)" rule: write_of.cases) (auto split: if_splits)
    with obey(2) show ?thesis by (auto simp: ca)
  qed
qed simp

lemma batch_marks: "obeys (batch_protocol lib) L \<Longrightarrow> \<forall>(st, n)\<in>set (writes t L). is_mark st"
  using batch_writes by (fastforce intro: is_mark.intros)

lemma fetch_step:
  assumes run: "run_true lib jobs l s logs" and lib: "uuid_lib_ok lib"
    and tr: "is_trace lib tosql (jobs k) (logs k @ [(CQuery x st, ARows (Inr (rows, None)))])"
    and reads: "reads s x st rows s'"
  shows "run_true lib jobs l s' (logs(k := logs k @ [(CQuery x st, ARows (Inr (rows, None)))]))"
proof -
  let ?ca = "(CQuery x st, ARows (Inr (rows, None)))"
  have "job_protocol lib (jobs k) (logs k) (CQuery x st)" using trace_obeys [OF tr] by simp
  then obtain t m where x: "x = TxExecutor t" "st = outbox_select m" "begun t (logs k)"
    and job: "job_protocol lib (jobs k) = batch_protocol lib"
    by (cases "jobs k") auto
  from reads x obtain a db n db' ks where a: "active s t = Some a" and db: "view_of a s = Some db"
    and exec: "sql_exec (since a) st (readable (TxExecutor t) st s db) = Inr (rows, n, db')"
    and ks: "ks = keys_of (since a) st (readable (TxExecutor t) st s db) db'"
    and free: "unlocked (TxExecutor t) ks s" and s': "s' = locking t ks s"
    by (auto elim: reads.cases)
  obtain v where v: "performs lib (since a) (set (held a)) l (did a) v" "ledger_ok v" "db = conc lib v"
    using view_now [OF run lib a db] .
  let ?p = "pending (since a) m (vacant t s v)"
  have tx: "tx_true lib l t a (logs k)" by (rule tx_now [OF run a x(3)])
  then have did: "did a = writes t (logs k)" by (simp add: tx_true_def)
  have obey: "obeys (batch_protocol lib) (logs k)" using log_now(2) [OF run, of k] job by simp
  have same: "events_of v = events_of l"
    using marks_result [OF v(1)] batch_marks [OF obey] did by simp
  have scan: "scan_outbox lib rows [] = Inr (map outbox_event_of ?p)"
    using read_outbox [OF _ ledger_ok_vacant [OF v(2)] lib] exec v(3) x(2) by (simp add: readable_outbox)
  have fetch: "fetch_of lib u ?ca = (if t = u then map outbox_event_of ?p else [])" for u
    by (simp add: x(1) scan)
  have keys: "ks = map (\<lambda>en. event_key (entry_id en)) ?p"
    using ks v(3) x(2) by (simp add: readable_outbox picked_outbox)
  show ?thesis
  proof (rule tx_step [OF run tr a free])
    have "en_event en \<in> set (events_of l)" if "en \<in> set ?p" for en
    proof -
      from set_pending [of "since a" m "vacant t s v"] that have "en \<in> set (outbox v)" by (auto simp: vacant_def)
      then have "en_event en \<in> set (events_of v)" by (simp add: events_of_def)
      with same show ?thesis by simp
    qed
    note known = this
    have "(o_ID o', o_Event o') \<in> (\<lambda>en. (entry_id en, en_event en)) ` set (outbox l)"
      if "o' \<in> set (fetch_of lib u ?ca)" for u o'
    proof -
      from that have "o' \<in> outbox_event_of ` set ?p" unfolding fetch by (cases "t = u") simp_all
      then obtain en where "en \<in> set ?p" "o' = outbox_event_of en" by blast
      with known show ?thesis by (simp add: entry_pairs outbox_event_of_def)
    qed
    then show "call_true lib l (sent_events s) (logs k) ?ca" by simp
    show "tx_true lib l t (a\<lparr>held := held a @ ks\<rparr>) (logs k @ [?ca])"
      using tx performs_mono [OF v(1), of "set (held a @ ks)"] scan keys unfolding x(1)
      by (auto simp: tx_true_def outbox_event_of_def)
  qed (use x s' in \<open>simp_all add: locking_def a\<close>)
qed

text \<open>A request reads companies.\<close>

lemma locking_Nil [simp]: "locking t [] s = s"
  by (cases "active s t") (simp_all add: locking_def fun_upd_idem)

lemma read_company:
  assumes exec: "sql_exec now (selectCompany [key]) (conc lib l) = Inr (row # rows, n, db')"
    and key: "(\<exists>i. key = Eq ''id'' (VUuid i)) \<or> (\<exists>n. key = Eq ''name'' (VText n))" and ok: "ledger_ok l"
  shows "\<exists>c\<in>set (members l). scanCompany (Inr row) = Inr c"
proof -
  have "set (row # rows) \<subseteq> company_fields ` set (members l)"
    using key
  proof (elim disjE exE)
    fix nm assume k: "key = Eq ''name'' (VText nm)"
    have "text_ok nm"
    proof (rule ccontr)
      assume "\<not> text_ok nm"
      from exec_select_company(3) [OF this, of now "conc lib l"] exec k show False by auto
    qed
    with exec k have "row # rows = map company_fields (filter (\<lambda>c. Name c = nm) (members l))"
      by (simp add: exec_select_company)
    then have "set (row # rows) = company_fields ` set (filter (\<lambda>c. Name c = nm) (members l))"
      by (simp only: set_map)
    then show ?thesis by auto
  next
    fix i assume "key = Eq ''id'' (VUuid i)"
    with exec have "row # rows = map company_fields (filter (\<lambda>c. ID c = i) (members l))"
      by (simp add: exec_select_company)
    then have "set (row # rows) = company_fields ` set (filter (\<lambda>c. ID c = i) (members l))"
      by (simp only: set_map)
    then show ?thesis by auto
  qed
  then show ?thesis by auto
qed

lemma read_step:
  assumes run: "run_true lib jobs l s logs" and lib: "uuid_lib_ok lib"
    and tr: "is_trace lib tosql (jobs k) (logs k @ [(CQueryRow x st, ARow r)])"
    and reads: "reads s x st rows s'" and r: "r = (case rows of [] \<Rightarrow> Inl ErrNoRows | row # _ \<Rightarrow> Inr row)"
  shows "run_true lib jobs l s' (logs(k := logs k @ [(CQueryRow x st, ARow r)]))"
proof -
  have "job_protocol lib (jobs k) (logs k) (CQueryRow x st)" using trace_obeys [OF tr] by simp
  then obtain key where st: "st = selectCompany [key]"
    and key: "(\<exists>i. key = Eq ''id'' (VUuid i)) \<or> (\<exists>n. key = Eq ''name'' (VText n))"
    by (cases "jobs k") auto
  have plain: "readable y st s db = db" "keys_of now st db db' = []" for y db now db'
    by (simp_all add: st selectCompany_def)
  from reads have "s' = s \<and> (\<exists>v now n db'. ledger_ok v \<and> sql_exec now st (conc lib v) = Inr (rows, n, db'))"
  proof cases
    case (by_pool cols name conds order limit suffix now n db')
    from by_pool(4) have "sql_exec now st (conc lib l) = Inr (rows, n, db')"
      unfolding plain base_now(1) [OF run] .
    with base_now(2) [OF run] by_pool(2) show ?thesis by blast
  next
    case (by_tx cols name conds order limit suffix t a db n db' ks)
    obtain v where "ledger_ok v" "db = conc lib v" using view_now [OF run lib by_tx(4,5)] .
    moreover from by_tx(6) have "sql_exec (since a) st db = Inr (rows, n, db')" unfolding plain .
    moreover from by_tx(2,7) have "s' = s" unfolding plain by simp
    ultimately show ?thesis by blast
  qed
  then obtain v now n db' where s': "s' = s" and v: "ledger_ok v"
    and exec: "sql_exec now st (conc lib v) = Inr (rows, n, db')" by blast
  have "company_ok c" if "r = Inr row" "scanCompany (Inr row) = Inr c" for row c
  proof -
    from that(1) r obtain rest where "rows = row # rest" by (cases rows) auto
    with read_company [OF _ key v] exec st that(2) show ?thesis using v by (fastforce simp: ledger_ok_def)
  qed
  then have "call_true lib l (sent_events s') (logs k) (CQueryRow x st, ARow r)"
    by (cases r) auto
  then show ?thesis
    by (intro neutral_step [OF run tr, where extra = "[]"]) (simp_all add: s')
qed

subsection \<open>Commits\<close>

lemma events_with_event: "events_of (with_event now ev l) = events_of l @ [ev]"
  by (simp add: events_of_def with_event_def)

lemma events_apply_change: "events_of (apply_change ch l) = events_of l"
  by (simp add: events_of_def)

text \<open>What a job commits keeps the invariant of the tables.\<close>

lemma committed_base:
  assumes run: "run_true lib jobs l s logs" and lib: "uuid_lib_ok lib"
    and ok: "job_protocol lib (jobs k) (logs k) (CCommit t)"
    and v: "performs lib now K l (writes t (logs k)) v"
  shows "announced v \<and> delivered (\<lambda>ev. ev) v (sent_events s) \<and> outbox_grows l v"
proof (cases "\<exists>interval n. jobs k = RunBatch interval n")
  case True
  then have obey: "obeys (batch_protocol lib) (logs k)" using log_now(2) [OF run, of k] by auto
  note marks = batch_marks [OF obey]
  have same: "members v = members l" "events_of v = events_of l" using marks_result [OF v marks] by simp_all
  have "en_event en \<in> set (sent_events s)"
    if st: "(outbox_published i, n) \<in> set (writes t (logs k))" and en: "en \<in> set (outbox l)" "entry_id en = i" for i n en
  proof -
    from batch_writes [OF obey st] obtain o' where o': "o' \<in> set (fetched lib t (logs k))" "o_ID o' = i"
      "(CPublish (o_Event o'), ADone None) \<in> set (logs k)"
      by (auto simp: outbox_published_def outbox_failed_def)
    with log_now(1) [OF run, of k] have sent: "o_Event o' \<in> set (sent_events s)"
      and "(o_ID o', o_Event o') \<in> (\<lambda>en. (entry_id en, en_event en)) ` set (outbox l)"
      unfolding log_true_def by blast+
    then obtain en' where "en' \<in> set (outbox l)" "entry_id en' = i" "en_event en' = o_Event o'" using o'(2) by auto
    with unique_entry [OF base_now(2) [OF run] en(1), of en'] en(2) sent show ?thesis by simp
  qed
  from delivered_marks [OF v base_now(2) [OF run] marks this base_now(4) [OF run]]
    announced_marks [OF base_now(3) [OF run] same] same
  show ?thesis by (simp add: outbox_grows_def)
next
  case False
  with ok obtain ch ev where w: "wrote_event lib (logs k) ch ev (writes t (logs k))" by (cases "jobs k") auto
  have "scans_ok (logs k)" using log_now(1) [OF run, of k] by (simp add: log_true_def)
  from wrote_event_result [OF w v base_now(2) [OF run] lib this]
  have eq: "v = with_event now ev (apply_change ch l)" and ch: "applicable l ch" "announces ev ch"
    "ledger_ok (apply_change ch l)" by simp_all
  from announced_change [OF base_now(3,2) [OF run] ch(3,1,2), of now] have "announced v" unfolding eq .
  moreover have "delivered (\<lambda>ev. ev) v (sent_events s)"
    using base_now(4) [OF run] by (auto simp: eq delivered_def with_event_def)
  ultimately show ?thesis
    by (simp add: eq outbox_grows_def events_with_event events_apply_change subset_insertI)
qed

lemma commit_step:
  assumes run: "run_true lib jobs l s logs" and lib: "uuid_lib_ok lib"
    and tr: "is_trace lib tosql (jobs k) (logs k @ [(CCommit t, ADone d)])"
    and a: "active s t = Some a" and db: "view_of a s = Some db"
  shows "\<exists>v. run_true lib jobs v (ending t (s\<lparr>base := db\<rparr>)) (logs(k := logs k @ [(CCommit t, ADone d)]))"
proof -
  let ?ca = "(CCommit t, ADone d)" and ?s = "ending t (s\<lparr>base := db\<rparr>)"
  have ok: "job_protocol lib (jobs k) (logs k) (CCommit t)" using trace_obeys [OF tr] by simp
  then have "begun t (logs k)" by (cases "jobs k") auto
  from tx_now [OF run a this] have did: "did a = writes t (logs k)" by (simp add: tx_true_def)
  obtain v where v: "performs lib (since a) (set (held a)) l (did a) v" "ledger_ok v" "db = conc lib v"
    using view_now [OF run lib a db] .
  note committed = committed_base [OF run lib ok v(1) [unfolded did]]
  have "run_true lib jobs v ?s (logs(k := logs k @ [?ca]))"
  proof (rule run_true_step [OF run tr])
    show "base_true lib v ?s" using v committed by (simp add: base_true_def ending_def)
    show "outbox_grows l v" using committed by simp
    have "ev \<in> set (events_of v)" if "stage2 lib t ch ev (logs k)" for ch ev
    proof -
      from that have w: "wrote_event lib (logs k) ch ev (did a)" by (simp add: stage2_def did)
      have "scans_ok (logs k)" using log_now(1) [OF run, of k] by (simp add: log_true_def)
      from wrote_event_result [OF w v(1) base_now(2) [OF run] lib this]
      show ?thesis by (simp add: events_with_event)
    qed
    then show "call_true lib v (sent_events ?s) (logs k) ?ca" by (cases d) simp_all
    show "\<exists>j. tx_true lib v u x ((logs(k := logs k @ [?ca])) j)" if "active ?s u = Some x" for u x
    proof -
      from that have u: "u \<noteq> t" "active s u = Some x" by (auto simp: ending_def split: if_splits)
      then obtain j y where j: "tx_true lib l u x (logs j)" and y: "performs lib (since x) (set (held x)) l (did x) y"
        using tx_exists [OF run u(2)] unfolding tx_true_def by blast
      have "set (held x) \<subseteq> - set (held a)" using locks_now [OF run a u(2)] u(1) by auto
      from same_on_mono [OF performs_frame [OF v(1) base_now(2) [OF run]] this]
      have "same_on (set (held x)) l v" .
      from performs_local [OF y base_now(2) [OF run] v(2) this] j
      have "tx_true lib v u x (logs j)" unfolding tx_true_def by blast
      from tx_true_snoc [of lib v u x logs j, OF this] show ?thesis by simp
    qed
    show "set (held x) \<inter> set (held y) = {}" if "active ?s u = Some x" "active ?s w = Some y" "u \<noteq> w" for u w x y
      using locks_now [OF run, of u x w y] that by (auto simp: ending_def split: if_splits)
  qed (simp_all add: ending_def)
  then show ?thesis by blast
qed

subsection \<open>Every step\<close>

lemma ending_simps [simp]:
  "base (ending t s) = base s" "sent_events (ending t s) = sent_events s" "next_handle (ending t s) = next_handle s"
  "active (ending t s) u = (if u = t then None else active s u)"
  by (simp_all add: ending_def)

lemma failing_call:
  assumes "failure_of c a = Some e"
  shows "write_of t (c, a) = []" "fetch_of lib t (c, a) = []" "(c, a) \<noteq> (CBegin, ATx (Inr t))"
    "call_true lib l snt L (c, a)"
  using assms by (cases "(c, a)" rule: failure_of.cases; simp)+

lemma serve_step:
  assumes run: "run_true lib jobs l s logs" and lib: "uuid_lib_ok lib"
    and tr: "is_trace lib tosql (jobs k) (logs k @ [(c, a)])" and serve: "serve s c a s'"
  shows "\<exists>l'. run_true lib jobs l' s' (logs(k := logs k @ [(c, a)]))"
  using serve
proof cases
  case (clock now)
  with neutral_step [OF run tr, of s "[]"] show ?thesis by auto
next
  case (random u)
  with neutral_step [OF run tr, of s "[]"] show ?thesis by auto
next
  case (begins now)
  with begin_step [OF run] tr show ?thesis by blast
next
  case (writes_in_tx t x db st rows n db' ks)
  with write_step [OF run lib] tr show ?thesis by blast
next
  case (writes_alone now st rows n db' r)
  then have "False" using trace_obeys [OF tr] by (cases "jobs k") auto
  then show ?thesis ..
next
  case (query x st rows)
  with fetch_step [OF run lib] tr show ?thesis by blast
next
  case (query_row x st rows r)
  with read_step [OF run lib] tr show ?thesis by blast
next
  case (commits t x db d)
  with commit_step [OF run lib] tr show ?thesis by blast
next
  case (rolls_back t)
  have "active s' u = Some x \<Longrightarrow> active s u = Some x" for u x
    using rolls_back by (auto split: if_splits)
  with neutral_step [OF run tr, of s' "[]"] rolls_back show ?thesis by auto
next
  case (publishes d ev)
  with neutral_step [OF run tr, of s' "[ev]"] show ?thesis by (cases d) auto
next
  case (fails e)
  have "base s' = base s" "sent_events s' = sent_events s @ []" "next_handle s' = next_handle s"
    "\<And>t x. active s' t = Some x \<Longrightarrow> active s t = Some x"
    using fails(1) by (auto simp: dropped_def split: executor.splits if_splits)
  from neutral_step [OF run tr this failing_call [OF fails(2)]] show ?thesis by blast
qed

lemma empty_true: "run_true lib jobs \<lparr>members = [], outbox = []\<rparr> empty_cluster (\<lambda>k. [])"
  by (simp add: run_true_def base_true_def handles_true_def log_true_def scans_ok_def scanned_def
      empty_cluster_def conc_def ledger_ok_def announced_def delivered_def replay_def events_of_def
      company_table_def)

theorem interleaved_true:
  assumes "interleaved lib tosql jobs s logs" and lib: "uuid_lib_ok lib"
  shows "\<exists>l. run_true lib jobs l s logs"
  using assms(1)
proof (induction rule: interleaved.induct)
  case start
  then show ?case using empty_true by blast
next
  case (call s logs k c a s')
  then show ?case using serve_step [OF _ lib] by blast
next
  case (lost s logs t)
  then obtain l where run: "run_true lib jobs l s logs" by blast
  then have "run_true lib jobs l (ending t s) logs"
    unfolding run_true_def base_true_def handles_true_def by simp
  then show ?case by blast
qed

end
