(* ===== verification/Races.thy ===== *)
theory Races
  imports Concurrency UseCases
begin

text \<open>
  What READ COMMITTED does not give: a race of two patches of one company, call by call.
\<close>

subsection \<open>The calls of a patch that succeeds\<close>

definition told :: "uuid \<Rightarrow> time \<Rightarrow> change \<Rightarrow> event" where
  "told e now ch =
     \<lparr>e_ID = e, e_Type = change_type ch, OccurredAt = now, CompanyID = ID (change_company ch),
      Company = Some (change_company ch)\<rparr>"

text \<open>How a change and its event are written, and what comes before that.\<close>

definition change_writes :: "uuid_lib \<Rightarrow> tx_handle \<Rightarrow> time \<Rightarrow> uuid \<Rightarrow> change \<Rightarrow> trace" where
  "change_writes lib t now e ch =
     [(CExec (TxExecutor t) (write_stmt ch), ACount (Inr 1)), (CUuid, AUuid e), (CNow, ATime now),
      (CExec (TxExecutor t) (outbox_insert (told e now ch) (payload lib (told e now ch))), ACount (Inr 1)),
      (CCommit t, ADone None)]"

definition create_reads :: "tx_handle \<Rightarrow> time \<Rightarrow> company \<Rightarrow> trace" where
  "create_reads t now c =
     [(CNow, ATime now), (CBegin, ATx (Inr t)),
      (CQueryRow (TxExecutor t) (selectCompany [Eq ''name'' (VText (Name c))]), ARow (Inl ErrNoRows))]"

definition patch_reads :: "tx_handle \<Rightarrow> company \<Rightarrow> trace" where
  "patch_reads t c =
     [(CBegin, ATx (Inr t)),
      (CQueryRow (TxExecutor t) (selectCompany [Eq ''id'' (VUuid (ID c))]), ARow (Inr (company_fields c)))]"

lemma ask_simps [simp]:
  "ask c read d \<lparr>answers = [], log = L\<rparr> = (d, \<lparr>answers = [], log = L\<rparr>)"
  "read a = Some r \<Longrightarrow> ask c read d \<lparr>answers = a # as, log = L\<rparr> = (r, \<lparr>answers = as, log = L @ [(c, a)]\<rparr>)"
  by (simp_all add: ask_def)

lemmas run_simps = map_result_def PatchCompany_def CreateCompany_def Service_withinTransaction_def script_service_defs
  TransactionManager_WithinTransaction_def script_driver_simps io_simps patch_in_tx_def create_in_tx_def
  name_is_free_def Service_publish_def CompanyRepository_GetByID_def CompanyRepository_GetByName_def
  CompanyRepository_Update_def CompanyRepository_Create_def OutboxRepository_Store_def
  executorFromContext_def txFromContext_def Background_def

lemma row_fits_company: "row_fits (selectCompany [Eq ''id'' (VUuid (ID c))]) (Inr (company_fields c))"
  by (simp add: selectCompany_def company_fields_def)

lemma told_marshals:
  "marshal_event lib (told e now ch) = Inr j \<Longrightarrow> payload lib (told e now ch) = j"
  by (simp add: payload_def)

lemma patch_returns:
  assumes p: "pi_Name p = None" "patch_error (patch_of_input p) = None" and c: "valid_company c" "ID c = i"
    and c': "c' = patched now (patch_of_input p) c"
    and j: "marshal_event lib (told e now (Updated c')) = Inr j"
  shows "returned lib (\<lambda>st. None) (AskPatch i p)
    (patch_reads t c @ (CNow, ATime now) # change_writes lib t now e (Updated c')) (Inr (Some c'))"
proof -
  have "\<not> IsEmpty (patch_of_input p)" using p(2) by (simp add: patch_error_None)
  moreover have "ApplyPatch now (patch_of_input p) c = (None, c')"
    using p(2) c(1) c' by (simp add: ApplyPatch_None)
  moreover have "marshal_event lib \<lparr>e_ID = e, e_Type = EventCompanyUpdated, OccurredAt = now,
      CompanyID = ID c', Company = Some c'\<rparr> = Inr j"
    using j by (simp add: told_def)
  ultimately show ?thesis
    using told_marshals [OF j] p(1) c(2) row_fits_company [of c]
    by (simp add: returned_def patch_reads_def change_writes_def run_simps) (simp add: told_def)
qed

lemma create_returns:
  assumes c: "NewWithID now (i_ID input) (i_Name input) (i_Description input) (i_AmountOfEmployees input)
      (i_Registered input) (i_Type input) = Inr c"
    and j: "marshal_event lib (told e now (Created c)) = Inr j"
  shows "returned lib (\<lambda>st. None) (AskCreate input)
    (create_reads t now c @ change_writes lib t now e (Created c)) (Inr (Some c))"
proof -
  have "marshal_event lib \<lparr>e_ID = e, e_Type = EventCompanyCreated, OccurredAt = now,
      CompanyID = ID c, Company = Some c\<rparr> = Inr j"
    using j by (simp add: told_def)
  moreover have "row_fits (selectCompany [Eq ''name'' (VText (Name c))]) (Inl ErrNoRows)"
    by (simp add: selectCompany_def)
  ultimately show ?thesis
    using told_marshals [OF j] c
    by (simp add: returned_def create_reads_def change_writes_def run_simps) (simp add: told_def)
qed

subsection \<open>Segments of a run\<close>

text \<open>
  A point of a run at which no transaction holds a lock: the ledger is \<open>l\<close>, these transactions are
  open and have written nothing.
\<close>

definition calm :: "uuid_lib \<Rightarrow> (nat \<Rightarrow> job) \<Rightarrow> ledger \<Rightarrow> tx_handle set \<Rightarrow> tx_handle \<Rightarrow> cluster \<Rightarrow> (nat \<Rightarrow> trace) \<Rightarrow> bool" where
  "calm lib jobs l ts n s logs \<longleftrightarrow>
     interleaved lib (\<lambda>st. None) jobs s logs \<and> base s = conc lib l \<and> ledger_ok l \<and> next_handle s = n
     \<and> active s = (\<lambda>t. if t \<in> ts then Some \<lparr>since = 0, did = [], held = []\<rparr> else None)"

lemma calm_empty: "calm lib jobs \<lparr>members = [], outbox = []\<rparr> {} 0 empty_cluster (\<lambda>k. [])"
  using interleaved.start [of lib "\<lambda>st. None" jobs]
  by (simp add: calm_def empty_cluster_def conc_def ledger_ok_def)

lemma interleaved_next:
  assumes "interleaved lib tosql jobs s logs" and "logs k = L"
    and "is_trace lib tosql (jobs k) (L @ [(c, a)])" and "serve s c a s'"
  shows "interleaved lib tosql jobs s' (logs(k := L @ [(c, a)]))"
  using interleaved.call [OF assms(1) _ assms(4), of k] assms(2,3) by simp

lemma redo_append: "redo now (ws @ us) db = Option.bind (redo now ws db) (redo now us)"
  by (induction now ws db rule: redo.induct) (auto split: sum.splits prod.splits)

lemma unlocked_alone:
  "\<forall>u b. active s u = Some b \<longrightarrow> u \<noteq> t \<longrightarrow> held b = [] \<Longrightarrow> unlocked (TxExecutor t) ks s"
  by (auto simp: unlocked_def list_all_iff split: option.splits)

lemma serve_effect:
  assumes a: "active s t = Some a" and v: "view_of a s = Some (conc lib v)" "ledger_ok v" and lib: "uuid_lib_ok lib"
    and alone: "\<forall>u b. active s u = Some b \<longrightarrow> u \<noteq> t \<longrightarrow> held b = []"
    and eff: "effect lib (since a) st v v1 ks"
  obtains b where "serve s (CExec (TxExecutor t) st) (ACount (Inr 1)) (s\<lparr>active := (active s)(t \<mapsto> b)\<rparr>)"
    and "\<And>s1. base s1 = base s \<Longrightarrow> view_of b s1 = Some (conc lib v1)" and "since b = since a"
proof -
  let ?ks = "keys_of (since a) st (conc lib v) (conc lib v1)"
  let ?b = "a\<lparr>held := held a @ ?ks, did := did a @ [(st, 1)]\<rparr>"
  have exec: "sql_exec (since a) st (conc lib v) = Inr ([], 1, conc lib v1)"
    by (rule effect_exec [OF eff v(2) lib])
  from serve.writes_in_tx [OF a v(1) exec refl unlocked_alone [OF alone]]
  have "serve s (CExec (TxExecutor t) st) (ACount (Inr 1)) (s\<lparr>active := (active s)(t \<mapsto> ?b)\<rparr>)"
    by (simp add: writing_def locking_def a)
  moreover have "view_of ?b s1 = Some (conc lib v1)" if "base s1 = base s" for s1
    using v(1) exec that by (simp add: view_of_def redo_append)
  ultimately show ?thesis using that [of ?b] by simp
qed

text \<open>A transaction without writes begins and reads.\<close>

lemma calm_begins:
  assumes calm: "calm lib jobs l ts n s logs" and "n \<notin> ts" and k: "logs k = L"
    and tr: "is_trace lib (\<lambda>st. None) (jobs k) (L @ [(CBegin, ATx (Inr n))])"
  shows "\<exists>s'. calm lib jobs l (insert n ts) (Suc n) s' (logs(k := L @ [(CBegin, ATx (Inr n))]))"
proof -
  let ?s = "s\<lparr>active := (active s)(n \<mapsto> \<lparr>since = 0, did = [], held = []\<rparr>), next_handle := Suc n\<rparr>"
  from calm have n: "next_handle s = n" and run: "interleaved lib (\<lambda>st. None) jobs s logs" by (simp_all add: calm_def)
  from serve.begins [of s 0] n have "serve s CBegin (ATx (Inr n)) ?s" by simp
  from interleaved_next [where logs = logs and k = k, OF run k tr this] calm show ?thesis
    by (intro exI [of _ ?s]) (auto simp: calm_def)
qed

lemma calm_asks:
  assumes calm: "calm lib jobs l ts n s logs" and k: "logs k = L"
    and tr: "is_trace lib (\<lambda>st. None) (jobs k) (L @ [(c, a)])" and "serve s c a s"
  shows "calm lib jobs l ts n s (logs(k := L @ [(c, a)]))"
proof -
  from calm have "interleaved lib (\<lambda>st. None) jobs s logs" by (simp add: calm_def)
  from interleaved_next [where logs = logs and k = k, OF this k tr assms(4)] calm show ?thesis
    by (simp add: calm_def)
qed

lemma calm_reads:
  assumes calm: "calm lib jobs l ts n s logs" and t: "t \<in> ts"
    and exec: "sql_exec 0 (selectCompany [key]) (conc lib l) = Inr (rows, m, db')"
  shows "serve s (CQueryRow (TxExecutor t) (selectCompany [key]))
    (ARow (case rows of [] \<Rightarrow> Inl ErrNoRows | row # _ \<Rightarrow> Inr row)) s"
proof (rule serve.query_row [OF _ refl])
  let ?a = "\<lparr>since = 0, did = [], held = []\<rparr>"
  from calm t have a: "active s t = Some ?a" "view_of ?a s = Some (conc lib l)"
    by (simp_all add: calm_def view_of_def)
  have plain: "readable y (selectCompany [key]) s db = db" "keys_of now (selectCompany [key]) db db1 = []" for y db now db1
    by (simp_all add: selectCompany_def)
  have "unlocked (TxExecutor t) [] s" by (simp add: unlocked_def list_all_iff split: option.split)
  from reads.by_tx [OF selectCompany_def a, where rows = rows and ks = "[]"] exec this plain
  show "reads s (TxExecutor t) (selectCompany [key]) rows s" by simp
qed

text \<open>A transaction without writes makes its change and commits, while the others have written nothing.\<close>

lemma calm_changes:
  assumes calm: "calm lib jobs l ts n s logs" and lib: "uuid_lib_ok lib" and t: "t \<in> ts" and k: "logs k = L"
    and tr: "\<And>L1 L2. L @ change_writes lib t now e ch = L1 @ L2 \<Longrightarrow> is_trace lib (\<lambda>st. None) (jobs k) L1"
    and e1: "effect lib 0 (write_stmt ch) l l1 ks"
    and e2: "effect lib 0 (outbox_insert (told e now ch) (payload lib (told e now ch))) l1 l2 ks2"
  shows "\<exists>s'. calm lib jobs l2 (ts - {t}) n s' (logs(k := L @ change_writes lib t now e ch))"
proof -
  let ?a = "\<lparr>since = 0, did = [], held = []\<rparr>"
  let ?w1 = "(CExec (TxExecutor t) (write_stmt ch), ACount (Inr 1))"
  let ?w2 = "(CExec (TxExecutor t) (outbox_insert (told e now ch) (payload lib (told e now ch))), ACount (Inr 1))"
  let ?c1 = "(CUuid, AUuid e)" and ?c2 = "(CNow, ATime now)" and ?c3 = "(CCommit t, ADone None)"
  have W: "change_writes lib t now e ch = [?w1, ?c1, ?c2, ?w2, ?c3]" by (simp add: change_writes_def)
  from calm have run: "interleaved lib (\<lambda>st. None) jobs s logs" and base: "base s = conc lib l" and ok: "ledger_ok l"
    and act: "active s = (\<lambda>t. if t \<in> ts then Some ?a else None)" by (simp_all add: calm_def)
  have a: "active s t = Some ?a" "view_of ?a s = Some (conc lib l)"
    using act t base by (simp_all add: view_of_def)
  have alone: "\<forall>u b. active s u = Some b \<longrightarrow> u \<noteq> t \<longrightarrow> held b = []"
    using act by simp
  have e1': "effect lib (since ?a) (write_stmt ch) l l1 ks" using e1 by simp
  obtain b1 where s1: "serve s (fst ?w1) (snd ?w1) (s\<lparr>active := (active s)(t \<mapsto> b1)\<rparr>)"
    and v1: "\<And>s1. base s1 = base s \<Longrightarrow> view_of b1 s1 = Some (conc lib l1)" and b1: "since b1 = 0"
    using serve_effect [OF a ok lib alone e1'] by auto
  let ?s1 = "s\<lparr>active := (active s)(t \<mapsto> b1)\<rparr>"
  have alone1: "\<forall>u b. active ?s1 u = Some b \<longrightarrow> u \<noteq> t \<longrightarrow> held b = []"
    using alone by simp
  have e2': "effect lib (since b1) (outbox_insert (told e now ch) (payload lib (told e now ch))) l1 l2 ks2"
    using e2 b1 by simp
  have "active ?s1 t = Some b1" "view_of b1 ?s1 = Some (conc lib l1)" using v1 by simp_all
  from serve_effect [OF this ledger_ok_effect [OF e1 ok] lib alone1 e2']
  obtain b2 where s2: "serve ?s1 (fst ?w2) (snd ?w2) (?s1\<lparr>active := (active ?s1)(t \<mapsto> b2)\<rparr>)"
    and v2: "\<And>s1. base s1 = base ?s1 \<Longrightarrow> view_of b2 s1 = Some (conc lib l2)" by auto
  let ?s2 = "?s1\<lparr>active := (active ?s1)(t \<mapsto> b2)\<rparr>"
  let ?s3 = "ending t (?s2\<lparr>base := conc lib l2\<rparr>)"
  have s3: "serve ?s2 (CCommit t) (ADone None) ?s3"
    by (rule serve.commits [where a = b2]) (simp_all add: v2 acknowledges_def)
  have next_of: "interleaved lib (\<lambda>st. None) jobs s'' (logs(k := sofar @ [(c, x)]))"
    if "interleaved lib (\<lambda>st. None) jobs s' (logs(k := sofar))" "L @ change_writes lib t now e ch = (sofar @ [(c, x)]) @ rest"
      "serve s' c x s''" for s' s'' sofar c x rest
    using interleaved_next [where logs = "logs(k := sofar)" and k = k, OF that(1) _ tr [OF that(2)] that(3)] by simp
  have r1: "interleaved lib (\<lambda>st. None) jobs ?s1 (logs(k := L @ [?w1]))"
    by (rule interleaved_next [where logs = logs and k = k, OF run k tr]) (use s1 W in simp_all)
  have r2: "interleaved lib (\<lambda>st. None) jobs ?s1 (logs(k := L @ [?w1, ?c1]))"
    using next_of [OF r1 _ serve.random, where rest = "[?c2, ?w2, ?c3]"] W by simp
  have r3: "interleaved lib (\<lambda>st. None) jobs ?s1 (logs(k := L @ [?w1, ?c1, ?c2]))"
    using next_of [OF r2 _ serve.clock, where rest = "[?w2, ?c3]"] W by simp
  have r4: "interleaved lib (\<lambda>st. None) jobs ?s2 (logs(k := L @ [?w1, ?c1, ?c2, ?w2]))"
    using next_of [OF r3, where c = "fst ?w2" and x = "snd ?w2" and rest = "[?c3]" and s'' = ?s2] s2 W by simp
  have r5: "interleaved lib (\<lambda>st. None) jobs ?s3 (logs(k := L @ [?w1, ?c1, ?c2, ?w2, ?c3]))"
    using next_of [OF r4 _ s3, where rest = "[]"] W by simp
  have "active ?s3 = (\<lambda>u. if u \<in> ts - {t} then Some ?a else None)"
    using act by (auto simp: fun_eq_iff)
  with r5 calm ledger_ok_effect [OF e2 ledger_ok_effect [OF e1 ok]] W show ?thesis
    by (intro exI [of _ ?s3]) (simp add: calm_def)
qed

subsection \<open>Creating, reading and writing back\<close>

lemma prefix_trace:
  "returned lib tosql j T r \<Longrightarrow> T = L1 @ L2 \<Longrightarrow> is_trace lib tosql j L1"
  using returned_trace by blast

lemma told_effect:
  assumes "uuid_lib_ok lib" and "json_safe_event (told e now ch)" and "company_texts_ok (change_company ch)"
    and "e \<notin> entry_id ` set (outbox l)"
  shows "effect lib 0 (outbox_insert (told e now ch) (payload lib (told e now ch))) l (with_event 0 (told e now ch) l)
    {event_key e}"
proof -
  have "event_texts_ok (told e now ch)" using assms(3) by (simp add: told_def event_texts_ok_def)
  from effect.announces [OF payload_eq(1) [OF assms(1,2)] this] assms(4) show ?thesis
    by (simp add: told_def)
qed

lemma calm_create:
  assumes calm: "calm lib jobs l ts n s logs" and lib: "uuid_lib_ok lib" and n: "n \<notin> ts"
    and k: "logs k = []" "jobs k = AskCreate input"
    and c: "NewWithID now (i_ID input) (i_Name input) (i_Description input) (i_AmountOfEmployees input)
      (i_Registered input) (i_Type input) = Inr c" "storable c" "duplicate (members l) c = None"
    and ev: "json_safe_event (told e now (Created c))" "e \<notin> entry_id ` set (outbox l)"
  shows "\<exists>s'. calm lib jobs (with_event 0 (told e now (Created c)) (with_company c l)) ts (Suc n) s'
    (logs(k := create_reads n now c @ change_writes lib n now e (Created c)))"
proof -
  let ?T = "create_reads n now c @ change_writes lib n now e (Created c)"
  let ?a1 = "(CNow, ATime now)" and ?a2 = "(CBegin, ATx (Inr n))"
    and ?a3 = "(CQueryRow (TxExecutor n) (selectCompany [Eq ''name'' (VText (Name c))]), ARow (Inl ErrNoRows))"
  from c(1) have valid: "valid_company c" by (auto simp: NewWithID_Inr)
  have ret: "returned lib (\<lambda>st. None) (jobs k) ?T (Inr (Some c))"
    unfolding k(2) by (rule create_returns [OF c(1) payload_eq(1) [OF lib ev(1)]])
  note tr = prefix_trace [OF ret]
  have T: "?T = ?a1 # ?a2 # ?a3 # change_writes lib n now e (Created c)" by (simp add: create_reads_def)
  have "calm lib jobs l ts n s (logs(k := [?a1]))"
    using calm_asks [OF calm k(1) tr serve.clock] T by simp
  from calm_begins [OF this n, of k "[?a1]"] tr T
  obtain s2 where s2: "calm lib jobs l (insert n ts) (Suc n) s2 (logs(k := [?a1, ?a2]))" by auto
  have "filter (\<lambda>x. Name x = Name c) (members l) = []" "text_ok (Name c)"
    using c(2,3) by (auto simp: duplicate_None storable_def filter_empty_conv image_iff dest: sym)
  then have "sql_exec 0 (selectCompany [Eq ''name'' (VText (Name c))]) (conc lib l) = Inr ([], 0, conc lib l)"
    by (simp add: exec_select_company)
  from calm_reads [OF s2 insertI1 this] have "serve s2 (fst ?a3) (snd ?a3) s2" by simp
  from calm_asks [OF s2 _ _ this, of k "[?a1, ?a2]"] tr T
  have s3: "calm lib jobs l (insert n ts) (Suc n) s2 (logs(k := [?a1, ?a2, ?a3]))" by simp
  have e1: "effect lib 0 (write_stmt (Created c)) l (with_company c l) (company_keys c)"
    using effect.creates [OF valid c(2,3)] by simp
  have "company_texts_ok c" using valid c(2) company_ok_texts [of "stored c"] by (simp add: company_texts_ok_def)
  then have e2: "effect lib 0 (outbox_insert (told e now (Created c)) (payload lib (told e now (Created c))))
      (with_company c l) (with_event 0 (told e now (Created c)) (with_company c l)) {event_key e}"
    by (intro told_effect [OF lib ev(1)]) (simp_all add: ev(2))
  have "insert n ts - {n} = ts" using n by auto
  with calm_changes [OF s3 lib insertI1 _ _ e1 e2, where k = k and L = "[?a1, ?a2, ?a3]"] tr T
  show ?thesis by (simp add: create_reads_def)
qed

lemma calm_patch_reads:
  assumes calm: "calm lib jobs l ts n s logs" and n: "n \<notin> ts" and k: "logs k = []" and c: "c \<in> set (members l)"
    and ret: "returned lib (\<lambda>st. None) (jobs k) (patch_reads n c @ T) r"
  shows "\<exists>s'. calm lib jobs l (insert n ts) (Suc n) s' (logs(k := patch_reads n c))"
proof -
  let ?a1 = "(CBegin, ATx (Inr n))"
    and ?a2 = "(CQueryRow (TxExecutor n) (selectCompany [Eq ''id'' (VUuid (ID c))]), ARow (Inr (company_fields c)))"
  note tr = prefix_trace [OF ret]
  from calm_begins [OF calm n k] tr
  obtain s1 where s1: "calm lib jobs l (insert n ts) (Suc n) s1 (logs(k := [?a1]))"
    by (auto simp: patch_reads_def)
  from calm have ok: "ledger_ok l" by (simp add: calm_def)
  then have "distinct (map ID (members l))" by (simp add: ledger_ok_def)
  from filter_key_cases [OF this, of "ID c"] c obtain x where x: "x \<in> set (members l)" "ID x = ID c"
    "filter (\<lambda>x. ID x = ID c) (members l) = [x]" by auto
  with unique_id [OF ok x(1) c x(2)] have "filter (\<lambda>x. ID x = ID c) (members l) = [c]" by simp
  then have "sql_exec 0 (selectCompany [Eq ''id'' (VUuid (ID c))]) (conc lib l)
      = Inr ([company_fields c], 0, conc lib l)"
    by (simp add: exec_select_company)
  from calm_reads [OF s1 insertI1 this] have "serve s1 (fst ?a2) (snd ?a2) s1" by simp
  from calm_asks [OF s1 _ _ this, of k "[?a1]"] tr
  have "calm lib jobs l (insert n ts) (Suc n) s1 (logs(k := patch_reads n c))"
    by (simp add: patch_reads_def)
  then show ?thesis by blast
qed

lemma calm_patch_writes:
  assumes calm: "calm lib jobs l ts n s logs" and lib: "uuid_lib_ok lib" and t: "t \<in> ts"
    and k: "logs k = patch_reads t c" "jobs k = AskPatch (ID c) p"
    and p: "pi_Name p = None" "patch_error (patch_of_input p) = None" and c: "valid_company c"
    and c': "c' = patched now (patch_of_input p) c" "storable c'"
    and d: "d \<in> set (members l)" "ID d = ID c'" "\<not> name_taken l (ID c') (Name c')"
    and ev: "json_safe_event (told e now (Updated c'))" "e \<notin> entry_id ` set (outbox l)"
  shows "\<exists>s'. calm lib jobs (with_event 0 (told e now (Updated c')) (with_revision c' l)) (ts - {t}) n s'
    (logs(k := patch_reads t c @ (CNow, ATime now) # change_writes lib t now e (Updated c')))"
proof -
  let ?T = "patch_reads t c @ (CNow, ATime now) # change_writes lib t now e (Updated c')"
  have valid: "valid_company c'" using valid_patched [OF c p(2)] c'(1) by simp
  have ret: "returned lib (\<lambda>st. None) (jobs k) ?T (Inr (Some c'))"
    unfolding k(2) by (rule patch_returns [OF p c refl c'(1) payload_eq(1) [OF lib ev(1)]])
  note tr = prefix_trace [OF ret]
  have s1: "calm lib jobs l ts n s (logs(k := patch_reads t c @ [(CNow, ATime now)]))"
    using calm_asks [OF calm k(1) tr serve.clock] by simp
  have e1: "effect lib 0 (write_stmt (Updated c')) l (with_revision c' l) (company_keys d \<union> company_keys c')"
    using effect.updates [OF valid c'(2) d] by simp
  have "company_texts_ok c'" using valid c'(2) company_ok_texts [of "stored c'"] by (simp add: company_texts_ok_def)
  then have e2: "effect lib 0 (outbox_insert (told e now (Updated c')) (payload lib (told e now (Updated c'))))
      (with_revision c' l) (with_event 0 (told e now (Updated c')) (with_revision c' l)) {event_key e}"
    by (intro told_effect [OF lib ev(1)]) (simp_all add: ev(2))
  from calm_changes [OF s1 lib t _ _ e1 e2, where k = k and L = "patch_reads t c @ [(CNow, ATime now)]"] tr
  show ?thesis by simp
qed

subsection \<open>The race\<close>

definition acme_input :: create_input where
  "acme_input = \<lparr>i_ID = 1, i_Name = ''Acme'', i_Description = ''x'', i_AmountOfEmployees = 10,
     i_Registered = True, i_Type = ''Corporations''\<rparr>"

definition dismiss_all :: patch_input where
  "dismiss_all = \<lparr>pi_Name = None, pi_Description = None, pi_AmountOfEmployees = Some 0,
     pi_Registered = None, pi_Type = None\<rparr>"

definition unregister :: patch_input where
  "unregister = \<lparr>pi_Name = None, pi_Description = None, pi_AmountOfEmployees = None,
     pi_Registered = Some False, pi_Type = None\<rparr>"

text \<open>One client creates a company, two patch it, and two batches of one event each are run.\<close>

definition race_jobs :: "nat \<Rightarrow> job" where
  "race_jobs k =
     (if k = 0 then AskCreate acme_input else if k = 1 then AskPatch 1 dismiss_all
      else if k = 2 then AskPatch 1 unregister else RunBatch 1 1)"

definition acme_dismissed :: company where
  "acme_dismissed = acme\<lparr>AmountOfEmployees := 0\<rparr>"

definition acme_unregistered :: company where
  "acme_unregistered = acme\<lparr>Registered := False\<rparr>"

definition race_start :: ledger where
  "race_start = with_event 0 (told 1 5000 (Created acme)) (with_company acme \<lparr>members = [], outbox = []\<rparr>)"

definition race_middle :: ledger where
  "race_middle = with_event 0 (told 2 5000 (Updated acme_dismissed)) (with_revision acme_dismissed race_start)"

definition race_end :: ledger where
  "race_end = with_event 0 (told 3 5000 (Updated acme_unregistered)) (with_revision acme_unregistered race_middle)"

lemma acme_forms [simp]:
  "stored acme = acme" "storable acme" "storable acme_dismissed" "storable acme_unregistered"
  "stored acme_dismissed = acme_dismissed" "stored acme_unregistered = acme_unregistered"
  "ID acme = 1" "ID acme_dismissed = 1" "ID acme_unregistered = 1"
  "Name acme = ''Acme''" "Name acme_dismissed = ''Acme''" "Name acme_unregistered = ''Acme''"
  "CreatedAt acme_unregistered = CreatedAt acme_dismissed" "CreatedAt acme_dismissed = CreatedAt acme"
  by (simp_all add: acme_def acme_dismissed_def acme_unregistered_def storable_def text_ok_def byte_def
      int4_ok_def stored_def micros_def)

lemma revised_acme [simp]:
  "revised acme_dismissed acme = acme_dismissed" "revised acme_unregistered acme_dismissed = acme_unregistered"
  by (simp_all add: revised_def acme_def acme_dismissed_def acme_unregistered_def stored_def micros_def)

lemma race_ledgers [simp]:
  "members race_start = [acme]" "members race_middle = [acme_dismissed]" "members race_end = [acme_unregistered]"
  "outbox race_start = [new_entry 0 (told 1 5000 (Created acme))]"
  "outbox race_middle = outbox race_start @ [new_entry 0 (told 2 5000 (Updated acme_dismissed))]"
  by (simp_all add: race_start_def race_middle_def race_end_def with_event_def with_company_def
      with_revision_def replace_by_def)

lemma told_safe [simp]:
  "json_safe_event (told 1 5000 (Created acme))" "json_safe_event (told 2 5000 (Updated acme_dismissed))"
  "json_safe_event (told 3 5000 (Updated acme_unregistered))"
  by (simp_all add: told_def json_safe_event_def json_safe_company_def json_time_ok_def acme_def
      acme_dismissed_def acme_unregistered_def event_type_defs byte_def is_go_int_def int_min_def int_max_def)

lemma told_id [simp]: "e_ID (told e now ch) = e"
  by (simp add: told_def)

lemma race_patches [simp]:
  "pi_Name dismiss_all = None" "pi_Name unregister = None"
  "patch_error (patch_of_input dismiss_all) = None" "patch_error (patch_of_input unregister) = None"
  "patched 5000 (patch_of_input dismiss_all) acme = acme_dismissed"
  "patched 5000 (patch_of_input unregister) acme = acme_unregistered"
  by (simp_all add: patch_error_None patch_of_input_def dismiss_all_def unregister_def IsEmpty_def
      complaint_Nil patched_def acme_def acme_dismissed_def acme_unregistered_def)

definition dismiss_trace :: trace where
  "dismiss_trace = patch_reads 1 acme @
     (CNow, ATime 5000) # change_writes canonical_uuids 1 5000 2 (Updated acme_dismissed)"

definition unregister_trace :: trace where
  "unregister_trace = patch_reads 2 acme @
     (CNow, ATime 5000) # change_writes canonical_uuids 2 5000 3 (Updated acme_unregistered)"

lemma race_returns:
  "returned canonical_uuids (\<lambda>st. None) (race_jobs 1) dismiss_trace (Inr (Some acme_dismissed))"
  "returned canonical_uuids (\<lambda>st. None) (race_jobs 2) unregister_trace (Inr (Some acme_unregistered))"
proof -
  note j = payload_eq(1) [OF canonical_uuids_ok]
  have "returned canonical_uuids (\<lambda>st. None) (AskPatch 1 dismiss_all) dismiss_trace (Inr (Some acme_dismissed))"
    unfolding dismiss_trace_def by (rule patch_returns [OF _ _ _ _ _ j]) simp_all
  then show "returned canonical_uuids (\<lambda>st. None) (race_jobs 1) dismiss_trace (Inr (Some acme_dismissed))"
    by (simp add: race_jobs_def)
  have "returned canonical_uuids (\<lambda>st. None) (AskPatch 1 unregister) unregister_trace (Inr (Some acme_unregistered))"
    unfolding unregister_trace_def by (rule patch_returns [OF _ _ _ _ _ j]) simp_all
  then show "returned canonical_uuids (\<lambda>st. None) (race_jobs 2) unregister_trace (Inr (Some acme_unregistered))"
    by (simp add: race_jobs_def)
qed

definition race_logs :: "nat \<Rightarrow> trace" where
  "race_logs = (\<lambda>k. [])
     (0 := create_reads 0 5000 acme @ change_writes canonical_uuids 0 5000 1 (Created acme))"

lemma race_created: "\<exists>s. calm canonical_uuids race_jobs race_start {} 1 s race_logs"
proof -
  have new: "NewWithID 5000 (i_ID acme_input) (i_Name acme_input) (i_Description acme_input)
      (i_AmountOfEmployees acme_input) (i_Registered acme_input) (i_Type acme_input) = Inr acme"
  proof -
    have "trimmed 5000 1 ''Acme'' ''x'' 10 True ''Corporations'' = acme" by (simp add: trimmed_def acme_def)
    then show ?thesis by (simp add: NewWithID_Inr acme_input_def)
  qed
  from calm_create [OF calm_empty canonical_uuids_ok _ _ _ new, of race_jobs 0 1] show ?thesis
    by (simp add: race_jobs_def race_start_def race_logs_def duplicate_def)
qed

lemma race_read:
  "\<exists>s. calm canonical_uuids race_jobs race_start {2, 1} 3 s
     (race_logs(1 := patch_reads 1 acme, 2 := patch_reads 2 acme))"
proof -
  from race_created obtain s0 where s0: "calm canonical_uuids race_jobs race_start {} 1 s0 race_logs" ..
  from calm_patch_reads [OF s0, of 1 acme] race_returns(1)
  obtain s1 where s1: "calm canonical_uuids race_jobs race_start {1} 2 s1 (race_logs(1 := patch_reads 1 acme))"
    by (auto simp: race_logs_def dismiss_trace_def numeral_2_eq_2)
  from calm_patch_reads [OF s1, of 2 acme] race_returns(2)
  show ?thesis by (auto simp: race_logs_def unregister_trace_def numeral_3_eq_3 numeral_2_eq_2)
qed

lemma race_run:
  "\<exists>s. calm canonical_uuids race_jobs race_end {} 3 s
     (race_logs(1 := dismiss_trace, 2 := unregister_trace))"
proof -
  from race_read obtain s2 where s2: "calm canonical_uuids race_jobs race_start {2, 1} 3 s2
      (race_logs(1 := patch_reads 1 acme, 2 := patch_reads 2 acme))" ..
  have "\<exists>s. calm canonical_uuids race_jobs race_middle ({2, 1} - {1}) 3 s
      (race_logs(1 := dismiss_trace, 2 := patch_reads 2 acme))"
    using calm_patch_writes [OF s2 canonical_uuids_ok, where t = 1 and k = 1 and c = acme and p = dismiss_all
        and c' = acme_dismissed and d = acme and e = 2 and now = 5000]
    by (simp add: race_jobs_def name_taken_def dismiss_trace_def race_middle_def fun_upd_twist)
  moreover have "{2, 1} - {1} = {2 :: tx_handle}" by auto
  ultimately obtain s3 where s3: "calm canonical_uuids race_jobs race_middle {2} 3 s3
      (race_logs(1 := dismiss_trace, 2 := patch_reads 2 acme))" by metis
  show ?thesis
    using calm_patch_writes [OF s3 canonical_uuids_ok, where t = 2 and k = 2 and c = acme and p = unregister
        and c' = acme_unregistered and d = acme_dismissed and e = 3 and now = 5000]
    by (simp add: race_jobs_def name_taken_def unregister_trace_def race_end_def)
qed

subsection \<open>Batches at the same time\<close>

definition outbox_row :: "uuid_lib \<Rightarrow> entry \<Rightarrow> sqlval list" where
  "outbox_row lib en = [VUuid (entry_id en), VJson (payload lib (en_event en)), VInt (en_attempts en)]"

text \<open>A batch of one event: it is fetched, and then published and marked.\<close>

definition batch_fetches :: "uuid_lib \<Rightarrow> tx_handle \<Rightarrow> entry \<Rightarrow> trace" where
  "batch_fetches lib t en =
     [(CBegin, ATx (Inr t)),
      (CQuery (TxExecutor t) (outbox_select 1), ARows (Inr ([outbox_row lib en], None)))]"

definition batch_marks :: "tx_handle \<Rightarrow> entry \<Rightarrow> trace" where
  "batch_marks t en =
     [(CPublish (en_event en), ADone None),
      (CExec (TxExecutor t) (outbox_published (entry_id en)), ACount (Inr 1)), (CCommit t, ADone None)]"

lemma scan_outbox_row:
  "uuid_lib_ok lib \<Longrightarrow> entry_ok en \<Longrightarrow> scan_outbox lib [outbox_row lib en] [] = Inr [outbox_event_of en]"
  using scan_outbox_entries [of lib "[en]" "[]"] by (simp add: outbox_row_def)

lemma batch_returns:
  assumes "uuid_lib_ok lib" and "entry_ok en"
  shows "returned lib (\<lambda>st. None) (RunBatch 1 1) (batch_fetches lib t en @ batch_marks t en) (Inr None)"
  using scan_outbox_row [OF assms]
  by (simp add: returned_def batch_fetches_def batch_marks_def map_result_def ProcessBatch_def processBatch_def
      outbox_publisher_def NewPublisher_def NewOutboxRepository_Queue_def NewTransactionManager_def
      TransactionManager_WithinTransaction_def OutboxRepository_FetchPending_def OutboxRepository_MarkPublished_def
      script_driver_simps io_simps executorFromContext_def txFromContext_def Background_def outbox_event_of_def
      del: scan_outbox.simps)

lemma fetched_by_batch:
  assumes "uuid_lib_ok lib" and "entry_ok en"
  shows "fetched lib t (batch_fetches lib t en) = [outbox_event_of en]"
  using scan_outbox_row [OF assms] by (simp add: fetched_def batch_fetches_def del: scan_outbox.simps)

lemma batch_fetch_step:
  assumes run: "interleaved lib (\<lambda>st. None) jobs s logs" and lib: "uuid_lib_ok lib" and en: "entry_ok en"
    and a: "active s t = Some \<lparr>since = 0, did = [], held = []\<rparr>" and base: "base s = conc lib l"
    and k: "logs k = [(CBegin, ATx (Inr t))]" "jobs k = RunBatch 1 1"
    and en1: "pending 0 1 (vacant t s l) = [en]" and free: "unlocked (TxExecutor t) [event_key (entry_id en)] s"
  shows "interleaved lib (\<lambda>st. None) jobs (locking t [event_key (entry_id en)] s) (logs(k := batch_fetches lib t en))"
proof -
  let ?a = "\<lparr>since = 0, did = [], held = []\<rparr>" and ?st = "outbox_select 1"
  have view: "view_of ?a s = Some (conc lib l)" by (simp add: view_of_def base)
  have since: "since ?a = 0" by simp
  have exec: "sql_exec (since ?a) ?st (readable (TxExecutor t) ?st s (conc lib l))
      = Inr ([outbox_row lib en], 0, conc lib (vacant t s l))"
    using exec_outbox_select [of "since ?a" 1 lib "vacant t s l"] since en1 unfolding readable_outbox by (simp add: outbox_row_def)
  have keys: "[event_key (entry_id en)] = keys_of (since ?a) ?st (readable (TxExecutor t) ?st s (conc lib l)) (conc lib (vacant t s l))"
    unfolding readable_outbox picked_outbox since en1 by simp
  have "reads s (TxExecutor t) ?st [outbox_row lib en] (locking t [event_key (entry_id en)] s)"
    by (rule reads.by_tx [OF outbox_select_def a view exec keys free])
  from serve.query [OF this]
  have "serve s (CQuery (TxExecutor t) ?st) (ARows (Inr ([outbox_row lib en], None)))
      (locking t [event_key (entry_id en)] s)" .
  moreover have "is_trace lib (\<lambda>st. None) (jobs k) ([(CBegin, ATx (Inr t))] @
      [(CQuery (TxExecutor t) ?st, ARows (Inr ([outbox_row lib en], None)))])"
    unfolding k(2) by (rule prefix_trace [OF batch_returns [OF lib en]]) (simp add: batch_fetches_def)
  ultimately show ?thesis
    using interleaved_next [where logs = logs and k = k, OF run k(1)] by (simp add: batch_fetches_def)
qed

definition first_entry :: entry where
  "first_entry = new_entry 0 (told 1 5000 (Created acme))"

definition second_entry :: entry where
  "second_entry = new_entry 0 (told 2 5000 (Updated acme_dismissed))"

definition third_entry :: entry where
  "third_entry = new_entry 0 (told 3 5000 (Updated acme_unregistered))"

lemma race_entries_ok [simp]: "entry_ok first_entry" "entry_ok second_entry"
  by (simp_all add: first_entry_def second_entry_def entry_ok_def)

lemma race_entry_ids [simp]: "entry_id first_entry = 1" "entry_id second_entry = 2" "entry_id third_entry = 3"
  by (simp_all add: first_entry_def second_entry_def third_entry_def)

lemma batches_run:
  "\<exists>s. interleaved canonical_uuids (\<lambda>st. None) race_jobs s
      (race_logs(1 := dismiss_trace, 2 := unregister_trace,
        3 := batch_fetches canonical_uuids 3 first_entry, 4 := batch_fetches canonical_uuids 4 second_entry))
    \<and> active s 3 \<noteq> None \<and> active s 4 \<noteq> None"
proof -
  let ?logs = "race_logs(1 := dismiss_trace, 2 := unregister_trace)"
  let ?a = "\<lparr>since = 0, did = [], held = []\<rparr>"
  from race_run obtain s0 where s0: "calm canonical_uuids race_jobs race_end {} 3 s0 ?logs" ..
  have jobs: "race_jobs 3 = RunBatch 1 1" "race_jobs 4 = RunBatch 1 1" by (simp_all add: race_jobs_def)
  have begins: "is_trace canonical_uuids (\<lambda>st. None) (RunBatch 1 1) [(CBegin, ATx (Inr t))]" for t
    by (rule prefix_trace [OF batch_returns [OF canonical_uuids_ok race_entries_ok(1), where t = t]])
      (simp add: batch_fetches_def)
  from calm_begins [OF s0, of 3 "[]"] begins jobs
  obtain s1 where s1: "calm canonical_uuids race_jobs race_end {3} 4 s1 (?logs(3 := [(CBegin, ATx (Inr 3))]))"
    by (auto simp: race_logs_def eval_nat_numeral)
  from calm_begins [OF s1, of 4 "[]"] begins jobs
  obtain s2 where s2: "calm canonical_uuids race_jobs race_end {4, 3} 5 s2
      (?logs(3 := [(CBegin, ATx (Inr 3))], 4 := [(CBegin, ATx (Inr 4))]))"
    by (auto simp: race_logs_def eval_nat_numeral)
  have entries: "outbox race_end = [first_entry, second_entry, third_entry]"
    by (simp add: first_entry_def second_entry_def third_entry_def race_end_def with_event_def with_revision_def)
  have times: "due 0 first_entry" "due 0 second_entry" "due 0 (third_entry)"
    by (simp_all add: due_def new_entry_def first_entry_def second_entry_def third_entry_def micros_def)
  have occurred: "OccurredAt (en_event first_entry) = 5000" "OccurredAt (en_event second_entry) = 5000"
    "OccurredAt (en_event (third_entry)) = 5000"
    by (simp_all add: new_entry_def first_entry_def second_entry_def third_entry_def told_def)
  have act: "active s2 = (\<lambda>t. if t \<in> {4, 3} then Some ?a else None)" and n: "next_handle s2 = 5"
    and base: "base s2 = conc canonical_uuids race_end"
    using s2 by (simp_all only: calm_def)
  have free3: "unlocked (TxExecutor 3) ks s2" for ks
    by (rule unlocked_alone) (simp add: act)
  have "vacant 3 s2 race_end = race_end" by (simp add: vacant_def free3)
  then have p3: "pending 0 1 (vacant 3 s2 race_end) = [first_entry]"
    by (simp add: pending_def entries times occurred)
  have run2: "interleaved canonical_uuids (\<lambda>st. None) race_jobs s2
      (?logs(3 := [(CBegin, ATx (Inr 3))], 4 := [(CBegin, ATx (Inr 4))]))"
    using s2 by (simp only: calm_def)
  let ?s3 = "locking 3 [event_key 1] s2"
  have run3: "interleaved canonical_uuids (\<lambda>st. None) race_jobs ?s3
      (?logs(3 := batch_fetches canonical_uuids 3 first_entry, 4 := [(CBegin, ATx (Inr 4))]))"
    using batch_fetch_step [OF run2 canonical_uuids_ok race_entries_ok(1) _ base _ _ p3 free3, of 3] jobs(1) act
    by (simp add: fun_upd_twist)
  have act3: "active ?s3 = (\<lambda>t. if t = 3 then Some (?a\<lparr>held := [event_key 1]\<rparr>) else if t = 4 then Some ?a else None)"
    by (auto simp: locking_def act fun_eq_iff)
  have free4: "unlocked (TxExecutor 4) [event_key i] ?s3 \<longleftrightarrow> i \<noteq> 1" for i
    by (auto simp: unlocked_def act list_all_iff n locking_def split: option.splits if_splits)
  have "outbox (vacant 4 ?s3 race_end) = [second_entry, third_entry]"
    by (simp add: vacant_def entries free4)
  then have p4: "pending 0 1 (vacant 4 ?s3 race_end) = [second_entry]"
    by (simp add: pending_def times occurred)
  have base3: "base ?s3 = conc canonical_uuids race_end" by (simp add: locking_def base)
  have free2: "unlocked (TxExecutor 4) [event_key (entry_id second_entry)] ?s3" by (simp add: free4)
  have run4: "interleaved canonical_uuids (\<lambda>st. None) race_jobs (locking 4 [event_key (entry_id second_entry)] ?s3)
      (?logs(3 := batch_fetches canonical_uuids 3 first_entry, 4 := batch_fetches canonical_uuids 4 second_entry))"
    using batch_fetch_step [OF run3 canonical_uuids_ok race_entries_ok(2) _ base3 _ _ p4 free2, of 4] jobs(2)
    by (simp add: act3)
  then show ?thesis
    by (rule_tac exI, intro conjI) (auto simp: locking_def act)
qed

text \<open>One batch from its beginning to its commit.\<close>

lemma batch_marks_step:
  assumes run: "interleaved lib (\<lambda>st. None) jobs s logs" and lib: "uuid_lib_ok lib" and ok: "ledger_ok l"
    and a: "active s t = Some \<lparr>since = 0, did = [], held = ks\<rparr>" and base: "base s = conc lib l"
    and en: "en \<in> set (outbox l)" "entry_ok en"
    and alone: "\<forall>u b. active s u = Some b \<longrightarrow> u \<noteq> t \<longrightarrow> held b = []"
    and k: "logs k = batch_fetches lib t en" "jobs k = RunBatch 1 1"
  shows "\<exists>s'. interleaved lib (\<lambda>st. None) jobs s' (logs(k := batch_fetches lib t en @ batch_marks t en))
    \<and> base s' = conc lib (with_entry (entry_id en) (marked_published 0) l)"
proof -
  let ?a = "\<lparr>since = 0, did = [], held = ks\<rparr>" and ?F = "batch_fetches lib t en"
  let ?l = "with_entry (entry_id en) (marked_published 0) l" and ?p = "(CPublish (en_event en), ADone None)"
  let ?m = "(CExec (TxExecutor t) (outbox_published (entry_id en)), ACount (Inr 1))" and ?c = "(CCommit t, ADone None)"
  have W: "batch_marks t en = [?p, ?m, ?c]" by (simp add: batch_marks_def)
  have tr: "is_trace lib (\<lambda>st. None) (jobs k) L1" if "?F @ batch_marks t en = L1 @ L2" for L1 L2
    unfolding k(2) by (rule prefix_trace [OF batch_returns [OF lib en(2)] that])
  have next_of: "interleaved lib (\<lambda>st. None) jobs s'' (logs(k := sofar @ [(c, x)]))"
    if "interleaved lib (\<lambda>st. None) jobs s' (logs(k := sofar))" "?F @ batch_marks t en = (sofar @ [(c, x)]) @ rest"
      "serve s' c x s''" for s' s'' sofar c x rest
    using interleaved_next [where logs = "logs(k := sofar)" and k = k, OF that(1) _ tr [OF that(2)] that(3)] by simp
  let ?s1 = "s\<lparr>sent_events := sent_events s @ [en_event en]\<rparr>"
  have "interleaved lib (\<lambda>st. None) jobs s (logs(k := ?F))" using run by (simp add: k(1)[symmetric])
  then have r1: "interleaved lib (\<lambda>st. None) jobs ?s1 (logs(k := ?F @ [?p]))"
    by (rule next_of [where rest = "[?m, ?c]"]) (simp_all add: W serve.publishes acknowledges_def)
  have a1: "active ?s1 t = Some ?a" "view_of ?a ?s1 = Some (conc lib l)" using a base by (simp_all add: view_of_def)
  have alone1: "\<forall>u b. active ?s1 u = Some b \<longrightarrow> u \<noteq> t \<longrightarrow> held b = []" using alone by simp
  have "effect lib (since ?a) (outbox_published (entry_id en)) l ?l {event_key (entry_id en)}"
    using effect.marks_published [OF en(1) refl, of lib 0] by simp
  from serve_effect [OF a1 ok lib alone1 this]
  obtain d where s2: "serve ?s1 (fst ?m) (snd ?m) (?s1\<lparr>active := (active ?s1)(t \<mapsto> d)\<rparr>)"
    and v2: "\<And>s1. base s1 = base ?s1 \<Longrightarrow> view_of d s1 = Some (conc lib ?l)" by auto
  let ?s2 = "?s1\<lparr>active := (active ?s1)(t \<mapsto> d)\<rparr>"
  have r2: "interleaved lib (\<lambda>st. None) jobs ?s2 (logs(k := (?F @ [?p]) @ [?m]))"
    by (rule next_of [OF r1, where rest = "[?c]"]) (use s2 in \<open>simp_all add: W\<close>)
  have s3: "serve ?s2 (CCommit t) (ADone None) (ending t (?s2\<lparr>base := conc lib ?l\<rparr>))"
    by (rule serve.commits [where a = d]) (simp_all add: v2 acknowledges_def)
  have "interleaved lib (\<lambda>st. None) jobs (ending t (?s2\<lparr>base := conc lib ?l\<rparr>))
      (logs(k := ((?F @ [?p]) @ [?m]) @ [?c]))"
    by (rule next_of [OF r2 _ s3, where rest = "[]"]) (simp add: W)
  then show ?thesis
    using W by (intro exI [of _ "ending t (?s2\<lparr>base := conc lib ?l\<rparr>)"]) (simp add: ending_def)
qed

lemma batch_run:
  "\<exists>s. interleaved canonical_uuids (\<lambda>st. None) race_jobs s
      (race_logs(3 := batch_fetches canonical_uuids 1 first_entry @ batch_marks 1 first_entry))
    \<and> base s = conc canonical_uuids (with_entry 1 (marked_published 0) race_start)"
proof -
  let ?a = "\<lparr>since = 0, did = [], held = []\<rparr>" and ?logs = "race_logs(3 := [(CBegin, ATx (Inr 1))])"
  have job: "race_jobs 3 = RunBatch 1 1" by (simp add: race_jobs_def)
  have tr: "is_trace canonical_uuids (\<lambda>st. None) (RunBatch 1 1) [(CBegin, ATx (Inr t))]" for t
    by (rule prefix_trace [OF batch_returns [OF canonical_uuids_ok race_entries_ok(1), where t = t]])
      (simp add: batch_fetches_def)
  from race_created obtain s0 where "calm canonical_uuids race_jobs race_start {} 1 s0 race_logs" ..
  from calm_begins [OF this, of 3 "[]"] tr [of 1] job
  obtain s1 where s1: "calm canonical_uuids race_jobs race_start {1} 2 s1 ?logs"
    by (auto simp: race_logs_def numeral_2_eq_2)
  then have run: "interleaved canonical_uuids (\<lambda>st. None) race_jobs s1 ?logs"
    and act: "active s1 = (\<lambda>t. if t = 1 then Some ?a else None)"
    and base: "base s1 = conc canonical_uuids race_start" and ok: "ledger_ok race_start"
    by (simp_all add: calm_def)
  have a1: "active s1 1 = Some ?a" by (simp add: act)
  have free: "unlocked (TxExecutor 1) ks s1" for ks by (rule unlocked_alone) (simp add: act)
  have entries: "outbox race_start = [first_entry]" by (simp add: first_entry_def)
  have "vacant 1 s1 race_start = race_start" by (simp add: vacant_def free [simplified])
  moreover have "due 0 first_entry" by (simp add: due_def new_entry_def first_entry_def micros_def)
  ultimately have p: "pending 0 1 (vacant 1 s1 race_start) = [first_entry]"
    by (simp add: pending_def entries del: race_ledgers)
  let ?s2 = "locking 1 [event_key (entry_id first_entry)] s1"
  have "interleaved canonical_uuids (\<lambda>st. None) race_jobs ?s2
      (?logs(3 := batch_fetches canonical_uuids 1 first_entry))"
    by (rule batch_fetch_step [OF run canonical_uuids_ok race_entries_ok(1) a1 base _ job p free]) simp
  from batch_marks_step [OF this canonical_uuids_ok ok, where k = 3 and t = 1 and en = first_entry
      and ks = "[event_key 1]"] job
  show ?thesis by (simp add: locking_def act base entries del: race_ledgers)
qed

end
