(* ===== verification/Interleavings.thy ===== *)
theory Interleavings
  imports Races
begin

text \<open>
  The guarantees for any number of requests and batches that run at the same time, call by call
  interleaved on one READ COMMITTED server, and a race that this level does not exclude.
\<close>

lemma run_ledger:
  assumes "interleaved lib tosql jobs s logs" and lib: "uuid_lib_ok lib"
  obtains l where "run_true lib jobs l s logs" and "abs_ledger lib (base s) = l" and "ledger_ok l"
proof -
  from interleaved_true [OF assms] obtain l where run: "run_true lib jobs l s logs" by blast
  from base_now(1,2) [OF run] lib that [OF run] show ?thesis by simp
qed

subsection \<open>The tables\<close>

text \<open>
  Property C4: whatever runs at the same time and however the calls interleave, the committed
  companies are valid, with ids and names of their own, and the events of the outbox replay to
  exactly these companies, up to their creation times.
\<close>

theorem interleaved_tables_sound:
  assumes "uuid_lib_ok lib" and "interleaved lib tosql jobs s logs"
  shows "db_ok lib (base s)
    \<and> (\<forall>i. map_option undated (replay (events_of (abs_ledger lib (base s))) i)
         = map_option undated (company_table (abs_ledger lib (base s)) i))"
proof -
  obtain l where run: "run_true lib jobs l s logs" and l: "abs_ledger lib (base s) = l"
    using run_ledger [OF assms(2,1)] .
  from base_now [OF run] l assms(1) show ?thesis by (simp add: announced_def db_ok_conc)
qed

theorem interleaved_tables_sound_witness:
  "\<exists>s logs. interleaved canonical_uuids (\<lambda>st. None) race_jobs s logs
    \<and> members (abs_ledger canonical_uuids (base s)) = [acme_unregistered]
    \<and> db_ok canonical_uuids (base s)
    \<and> (\<forall>i. map_option undated (replay (events_of (abs_ledger canonical_uuids (base s))) i)
         = map_option undated (company_table (abs_ledger canonical_uuids (base s)) i))"
proof -
  from race_run obtain s where calm: "calm canonical_uuids race_jobs race_end {} 3 s
    (race_logs(1 := dismiss_trace, 2 := unregister_trace))" ..
  then have run: "interleaved canonical_uuids (\<lambda>st. None) race_jobs s
      (race_logs(1 := dismiss_trace, 2 := unregister_trace))"
    and "members (abs_ledger canonical_uuids (base s)) = [acme_unregistered]"
    by (simp_all add: calm_def)
  with interleaved_tables_sound [OF canonical_uuids_ok run] show ?thesis by blast
qed

subsection \<open>Requests\<close>

text \<open>
  Property C5: a change that was answered with success is not forgotten: at any later time the
  outbox has an event of exactly this change, whatever else has run at the same time.
\<close>

theorem interleaved_success_is_announced:
  assumes "uuid_lib_ok lib" and "interleaved lib tosql jobs s logs"
    and "is_change (jobs k)" and "returned lib tosql (jobs k) (logs k) (Inr r)"
  shows "\<exists>ch ev. succeeded_with (jobs k) r ch \<and> announces ev ch
    \<and> ev \<in> set (events_of (abs_ledger lib (base s)))"
proof -
  obtain l where run: "run_true lib jobs l s logs" and l: "abs_ledger lib (base s) = l"
    using run_ledger [OF assms(2,1)] .
  from returned_committed [OF assms(4,3)] obtain t ch ev L0 where ch: "succeeded_with (jobs k) r ch"
    and L: "logs k = L0 @ [(CCommit t, ADone None)]" and st: "stage2 lib t ch ev L0"
    by (auto simp: committed_last_def)
  from log_now(1) [OF run, of k] L st have "ev \<in> set (events_of l)" unfolding log_true_def by blast
  moreover from st have "announces ev ch" by (auto simp: stage2_def wrote_event_def)
  ultimately show ?thesis using ch l by blast
qed

theorem interleaved_success_is_announced_witness:
  "\<exists>s logs ev. interleaved canonical_uuids (\<lambda>st. None) race_jobs s logs
    \<and> returned canonical_uuids (\<lambda>st. None) (race_jobs 1) (logs 1) (Inr (Some acme_dismissed))
    \<and> announces ev (Updated acme_dismissed) \<and> ev \<in> set (events_of (abs_ledger canonical_uuids (base s)))"
proof -
  from race_run obtain s where calm: "calm canonical_uuids race_jobs race_end {} 3 s
    (race_logs(1 := dismiss_trace, 2 := unregister_trace))" ..
  let ?logs = "race_logs(1 := dismiss_trace, 2 := unregister_trace)"
  from calm have run: "interleaved canonical_uuids (\<lambda>st. None) race_jobs s ?logs" by (simp add: calm_def)
  have ret: "returned canonical_uuids (\<lambda>st. None) (race_jobs 1) (?logs 1) (Inr (Some acme_dismissed))"
    using race_returns(1) by simp
  from interleaved_success_is_announced [OF canonical_uuids_ok run _ ret] obtain ev
    where "announces ev (Updated acme_dismissed)" "ev \<in> set (events_of (abs_ledger canonical_uuids (base s)))"
    by (auto simp: race_jobs_def)
  with run ret show ?thesis by blast
qed

text \<open>
  Property C13: two patches of one company at the same time can both succeed and yet one of them be
  lost.  Here one sets the number of employees to 0 and the other takes the company off the
  register; both are answered with success, and in the end the number of employees is the old one.
\<close>

theorem concurrent_patches_lose_an_update:
  "\<exists>s logs. interleaved canonical_uuids (\<lambda>st. None) race_jobs s logs
    \<and> race_jobs 1 = AskPatch 1 dismiss_all \<and> race_jobs 2 = AskPatch 1 unregister
    \<and> returned canonical_uuids (\<lambda>st. None) (race_jobs 1) (logs 1) (Inr (Some (acme\<lparr>AmountOfEmployees := 0\<rparr>)))
    \<and> returned canonical_uuids (\<lambda>st. None) (race_jobs 2) (logs 2) (Inr (Some (acme\<lparr>Registered := False\<rparr>)))
    \<and> members (abs_ledger canonical_uuids (base s)) = [acme\<lparr>Registered := False\<rparr>]
    \<and> AmountOfEmployees (acme\<lparr>Registered := False\<rparr>) = 10"
proof -
  from race_run obtain s where calm: "calm canonical_uuids race_jobs race_end {} 3 s
    (race_logs(1 := dismiss_trace, 2 := unregister_trace))" ..
  let ?logs = "race_logs(1 := dismiss_trace, 2 := unregister_trace)"
  from calm have run: "interleaved canonical_uuids (\<lambda>st. None) race_jobs s ?logs"
    and "members (abs_ledger canonical_uuids (base s)) = [acme_unregistered]" by (simp_all add: calm_def)
  moreover have "AmountOfEmployees (acme\<lparr>Registered := False\<rparr>) = 10" by (simp add: acme_def)
  moreover have "race_jobs 1 = AskPatch 1 dismiss_all" "race_jobs 2 = AskPatch 1 unregister"
    by (simp_all add: race_jobs_def)
  ultimately show ?thesis
    using race_returns by (intro exI [of _ s] exI [of _ ?logs])
      (simp add: acme_dismissed_def acme_unregistered_def)
qed

subsection \<open>Batches\<close>

text \<open>
  Property C11: with any number of publishers at work, an event that the outbox has as published has
  been taken by the broker.
\<close>

theorem interleaved_at_least_once:
  assumes "uuid_lib_ok lib" and "interleaved lib tosql jobs s logs"
    and "en \<in> set (outbox (abs_ledger lib (base s)))" and "en_published en \<noteq> None"
  shows "en_event en \<in> set (sent_events s)"
proof -
  obtain l where run: "run_true lib jobs l s logs" and l: "abs_ledger lib (base s) = l"
    using run_ledger [OF assms(2,1)] .
  from base_now(4) [OF run] assms(3,4) l show ?thesis by (simp add: delivered_def)
qed

theorem interleaved_at_least_once_witness:
  "\<exists>s logs en. interleaved canonical_uuids (\<lambda>st. None) race_jobs s logs
    \<and> en \<in> set (outbox (abs_ledger canonical_uuids (base s))) \<and> en_published en = Some 0
    \<and> e_ID (en_event en) = 1 \<and> en_event en \<in> set (sent_events s)"
proof -
  let ?logs = "race_logs(3 := batch_fetches canonical_uuids 1 first_entry @ batch_marks 1 first_entry)"
  let ?en = "marked_published 0 first_entry"
  from batch_run obtain s where run: "interleaved canonical_uuids (\<lambda>st. None) race_jobs s ?logs"
    and base: "base s = conc canonical_uuids (with_entry 1 (marked_published 0) race_start)" by blast
  have ok: "ledger_ok race_start" using race_created by (auto simp: calm_def)
  have first: "outbox race_start = [first_entry]" by (simp add: first_entry_def)
  have "ledger_ok (with_entry 1 (marked_published 0) race_start)" by (rule ledger_ok_marked(1) [OF ok])
  with base have en: "?en \<in> set (outbox (abs_ledger canonical_uuids (base s)))"
    by (simp add: with_entry_def replace_by_def first canonical_uuids_ok del: race_ledgers)
  have "en_published ?en = Some 0" "e_ID (en_event ?en) = 1"
    by (simp_all add: marked_published_def micros_def first_entry_def)
  moreover from this have "en_event ?en \<in> set (sent_events s)"
    by (intro interleaved_at_least_once [OF canonical_uuids_ok run en]) simp
  ultimately show ?thesis using run en by blast
qed

text \<open>
  Property C9: two open batches never have fetched the same event: \<^verbatim>\<open>FOR UPDATE SKIP LOCKED\<close> keeps
  publishers out of each other's way.
\<close>

theorem open_batches_share_no_event:
  assumes "uuid_lib_ok lib" and "interleaved lib tosql jobs s logs"
    and "active s t \<noteq> None" and "active s u \<noteq> None" and "t \<noteq> u"
  shows "o_ID ` set (fetched lib t (logs j)) \<inter> o_ID ` set (fetched lib u (logs k)) = {}"
proof -
  from interleaved_true [OF assms(2,1)] obtain l where run: "run_true lib jobs l s logs" by blast
  from assms(3,4) obtain a b where a: "active s t = Some a" and b: "active s u = Some b" by blast
  have held: "event_key i \<in> set (held x)" if "active s v = Some x" "i \<in> o_ID ` set (fetched lib v (logs m))" for v x i m
  proof -
    have "begun v (logs m)"
      using that(2) obeys_not_begun [OF log_now(2) [OF run], of v m] by fastforce
    from tx_now [OF run that(1) this] that(2) show ?thesis by (auto simp: tx_true_def)
  qed
  from held [OF a] held [OF b] locks_now [OF run a b assms(5)] show ?thesis by blast
qed

theorem open_batches_share_no_event_witness:
  "\<exists>s logs. interleaved canonical_uuids (\<lambda>st. None) race_jobs s logs
    \<and> active s 3 \<noteq> None \<and> active s 4 \<noteq> None
    \<and> o_ID ` set (fetched canonical_uuids 3 (logs 3)) = {1} \<and> o_ID ` set (fetched canonical_uuids 4 (logs 4)) = {2}
    \<and> o_ID ` set (fetched canonical_uuids 3 (logs 3)) \<inter> o_ID ` set (fetched canonical_uuids 4 (logs 4)) = {}"
proof -
  let ?logs = "race_logs(1 := dismiss_trace, 2 := unregister_trace,
    3 := batch_fetches canonical_uuids 3 first_entry, 4 := batch_fetches canonical_uuids 4 second_entry)"
  from batches_run obtain s where run: "interleaved canonical_uuids (\<lambda>st. None) race_jobs s ?logs"
    and open3: "active s 3 \<noteq> None" and open4: "active s 4 \<noteq> None" by blast
  have "o_ID ` set (fetched canonical_uuids 3 (?logs 3)) = {1}" "o_ID ` set (fetched canonical_uuids 4 (?logs 4)) = {2}"
    by (simp_all add: fetched_by_batch canonical_uuids_ok outbox_event_of_def)
  with run open3 open4 open_batches_share_no_event [OF canonical_uuids_ok run open3 open4, of 3 4]
  show ?thesis by (intro exI [of _ s] exI [of _ ?logs]) auto
qed

end
