(* ===== verification/Budgets.thy ===== *)
theory Budgets
  imports Jobs
begin

text \<open>
  How many calls a job makes, and that it leaves no transaction open: both by one argument about the
  calls that the code makes, over a quantity that every call spends.
\<close>

subsection \<open>Spending\<close>

text \<open>
  \<open>J n\<close> holds of a log after which \<open>n\<close> more calls may be made.  A fetch may spend on what it brings:
  two calls for each row.
\<close>

locale budget =
  fixes I :: "trace \<Rightarrow> call \<Rightarrow> bool" and J :: "nat \<Rightarrow> trace \<Rightarrow> bool"
  assumes allows: "J (Suc n) L \<Longrightarrow> I L c"
    and spends: "J (Suc n) L \<Longrightarrow> c \<noteq> CBegin \<Longrightarrow> J n (L @ [(c, a)])"
    and less: "J (Suc n) L \<Longrightarrow> J n L"
    and fetches: "J (Suc (n + 2 * m)) L \<Longrightarrow>
      J (n + 2 * length rows) (L @ [(CQuery x (outbox_select m), ARows (Inr (rows, None)))])"
begin

lemma left: "J n L \<Longrightarrow> m \<le> n \<Longrightarrow> J m L"
  by (induction n) (auto simp: le_Suc_eq intro: less)

lemma along_call: "c \<noteq> CBegin \<Longrightarrow> along I (J (Suc n)) (ask c read d) (\<lambda>r. J n)"
  by (rule along_ask) (auto intro: allows spends)

text \<open>A statement, and then nothing.\<close>

lemma along_exec:
  assumes "\<And>k. along I (J n) (h' k) (\<lambda>r. J n)"
  shows "along I (J (Suc n))
    (with_sql (script_driver tosql) st h
      (\<lambda>st. try_io (ask (CExec x st) count_of (Inl end_of_script)) h1 h')) (\<lambda>r. J n)"
  by (rule along_with_sql, erule less, rule along_try_io, rule along_call) (simp_all add: assms)

lemma along_repository:
  "along I (J (Suc n)) (CompanyRepository_Create (script_driver tosql) ctx c) (\<lambda>r. J n)"
  "along I (J (Suc n)) (CompanyRepository_Update (script_driver tosql) ctx c) (\<lambda>r. J n)"
  "along I (J (Suc n)) (CompanyRepository_Delete (script_driver tosql) ctx i) (\<lambda>r. J n)"
  "along I (J (Suc n)) (OutboxRepository_MarkPublished (script_driver tosql) ctx i) (\<lambda>r. J n)"
  "along I (J (Suc n)) (OutboxRepository_MarkFailed (script_driver tosql) ctx i e) (\<lambda>r. J n)"
  unfolding CompanyRepository_Create_def CompanyRepository_Update_def CompanyRepository_Delete_def
    OutboxRepository_MarkPublished_def OutboxRepository_MarkFailed_def script_driver_simps
  by (intro along_exec along_intros; simp)+

lemma along_lookup:
  "along I (J (Suc n)) (CompanyRepository_GetByID (script_driver tosql) ctx i) (\<lambda>r. J n)"
  "along I (J (Suc n)) (CompanyRepository_GetByName (script_driver tosql) ctx name) (\<lambda>r. J n)"
  unfolding CompanyRepository_GetByID_def CompanyRepository_GetByName_def script_driver_simps
  by (rule along_with_sql, erule less, rule along_bind [OF along_call], simp, intro along_intros, assumption+)+

lemma along_store:
  "along I (J (Suc n)) (OutboxRepository_Store lib (script_driver tosql) ctx ev) (\<lambda>r. J n)"
  unfolding OutboxRepository_Store_def [abs_def] script_driver_simps
  by (intro along_intros along_exec; simp add: less)

lemma along_announcing:
  "along I (J (3 + n)) (Service_publish (script_service lib tosql) ctx ty c) (\<lambda>r. J n)"
  unfolding Service_publish_def [abs_def] script_service_defs option.case Let_def numeral_3_eq_3 add_Suc add_0
  by (rule along_bind [OF along_call], simp, rule along_bind [OF along_call], simp)
    (intro along_try_cmd [OF along_store] along_intros; simp)

lemma along_name_check:
  "along I (J (Suc n)) (name_is_free (script_service lib tosql) ctx i v) (\<lambda>r. J n)"
  unfolding name_is_free_def [abs_def] script_service_defs
  by (intro along_case_option along_bind [OF along_lookup(2)] along_intros along_result; simp add: less)

lemma along_creating:
  "along I (J (5 + n)) (create_in_tx (script_service lib tosql) c ctx) (\<lambda>r. J n)"
proof -
  have wrote: "along I (J (4 + n))
      (try_cmd (CompanyRepository_Create (script_driver tosql) ctx c) h
        (try_cmd (Service_publish (script_service lib tosql) ctx ty c) Inl (\<lambda>w. (Inr c, w)))) (\<lambda>r. J n)" for h ty
    using along_repository(1) [of "3 + n"]
    by (intro along_try_cmd [where M = "\<lambda>r. J (3 + n)"] along_try_cmd [OF along_announcing] along_intros)
      (auto intro: left simp: numeral_eq_Suc)
  show ?thesis
    unfolding create_in_tx_def [abs_def] script_service_defs
    using along_lookup(2) [of "4 + n"]
    by (intro along_bind [where M = "\<lambda>r. J (4 + n)"] along_intros wrote) (auto intro: left simp: numeral_eq_Suc)
qed

lemma along_deleting:
  "along I (J (5 + n)) (delete_in_tx (script_service lib tosql) i ctx) (\<lambda>r. J n)"
proof -
  have wrote: "along I (J (4 + n))
      (try_cmd (CompanyRepository_Delete (script_driver tosql) ctx i) h
        (try_cmd (Service_publish (script_service lib tosql) ctx ty c) Inl (\<lambda>w. (Inr c, w)))) (\<lambda>r. J n)" for h ty c
    using along_repository(3) [of "3 + n"]
    by (intro along_try_cmd [where M = "\<lambda>r. J (3 + n)"] along_try_cmd [OF along_announcing] along_intros)
      (auto intro: left simp: numeral_eq_Suc)
  show ?thesis
    unfolding delete_in_tx_def script_service_defs
    using along_lookup(1) [of "4 + n"]
    by (intro along_try_io [where M = "\<lambda>r. J (4 + n)"] wrote) (auto intro: left simp: numeral_eq_Suc)
qed

lemma along_patching:
  "along I (J (7 + n)) (patch_in_tx script_runtime (script_service lib tosql) i input ctx) (\<lambda>r. J n)"
proof -
  have wrote: "along I (J (4 + n))
      (try_cmd (CompanyRepository_Update (script_driver tosql) ctx c) h
        (try_cmd (Service_publish (script_service lib tosql) ctx ty c) Inl (\<lambda>w. (Inr c, w)))) (\<lambda>r. J n)" for h ty c
    using along_repository(2) [of "3 + n"]
    by (intro along_try_cmd [where M = "\<lambda>r. J (3 + n)"] along_try_cmd [OF along_announcing] along_intros)
      (auto intro: left simp: numeral_eq_Suc)
  have patches: "along I (J (5 + n))
      (\<lambda>w. case ask CNow time_of 0 w of (t, w) \<Rightarrow>
         (case ApplyPatch t (patch_of_input input) c of
            (Some err, existing) \<Rightarrow> (Inl (wrap ''apply company patch'' err), w)
          | (None, existing) \<Rightarrow>
              try_cmd (CompanyRepository_Update (script_driver tosql) ctx existing)
                (\<lambda>err. Inl (wrap ''update company'' err))
                (try_cmd (Service_publish (script_service lib tosql) ctx EventCompanyUpdated existing) Inl
                   (\<lambda>w. (Inr existing, w))) w)) (\<lambda>r. J n)" for c
    using along_call [of CNow "4 + n"]
    by (intro along_bind [where M = "\<lambda>r. J (4 + n)"] along_intros wrote) (auto intro: left simp: numeral_eq_Suc)
  have checks: "along I (J (6 + n)) (name_is_free (script_service lib tosql) ctx i v) (\<lambda>r. J (5 + n))" for v
    using along_name_check [of "5 + n"] by (simp add: numeral_eq_Suc)
  show ?thesis
    unfolding patch_in_tx_def script_service_defs script_driver_simps
    using along_lookup(1) [of "6 + n"]
    by (intro along_try_io [where M = "\<lambda>r. J (6 + n)"] along_try_cmd [OF checks] patches)
      (auto intro: left simp: numeral_eq_Suc)
qed

text \<open>A batch: a fetch, and two calls for each event.\<close>

lemma scan_length: "scan_outbox lib rows evs = Inr r \<Longrightarrow> length r = length evs + length rows"
  by (induction lib rows evs rule: scan_outbox.induct) (auto split: list.splits sqlval.splits sum.splits)

lemma along_fetching:
  "along I (J (Suc (n + 2 * unat limit))) (OutboxRepository_FetchPending lib (script_driver tosql) ctx limit)
    (\<lambda>r. J (n + 2 * (case r of Inl e \<Rightarrow> 0 | Inr evs \<Rightarrow> length evs)))"
proof -
  let ?m = "unat limit"
  have query: "along I (J (Suc (n + 2 * ?m))) (ask (CQuery x (outbox_select ?m)) rows_answer (Inl e))
      (\<lambda>r. J (n + 2 * (case r of Inr (rows, None) \<Rightarrow> length rows | _ \<Rightarrow> 0)))" for x e
  proof (rule along_ask)
    fix L a and r :: "goerr + sqlval list list \<times> goerr option"
    assume L: "J (Suc (n + 2 * ?m)) L" and "rows_answer a = Some r"
    then have a: "a = ARows r" by simp
    show "J (n + 2 * (case r of Inr (rows, None) \<Rightarrow> length rows | _ \<Rightarrow> 0)) (L @ [(CQuery x (outbox_select ?m), a)])"
      using fetches [OF L, of _ x] left [OF spends [OF L, of "CQuery x (outbox_select ?m)"], of n]
      by (auto simp: a split: sum.split option.split)
  qed (rule allows)
  show ?thesis
    unfolding OutboxRepository_FetchPending_def script_driver_simps
    by (rule along_with_sql, erule left, simp, rule along_try_io, rule query)
      (auto intro!: along_intros elim!: left dest: scan_length)
qed

lemma along_publishing:
  "along I (J (n + 2 * length evs)) (publish_events (script_publisher lib tosql interval k) ctx evs) (\<lambda>r. J n)"
proof (induction evs)
  case (Cons ev evs)
  let ?p = "script_publisher lib tosql interval k"
  have marks: "along I (J (Suc (n + 2 * length evs)))
      (try_cmd (OutboxRepository_MarkPublished (script_driver tosql) ctx i) h1 (publish_events ?p ctx evs)) (\<lambda>r. J n)"
    "along I (J (Suc (n + 2 * length evs)))
      (try_cmd (OutboxRepository_MarkFailed (script_driver tosql) ctx i e) h2 (publish_events ?p ctx evs)) (\<lambda>r. J n)"
    for i e h1 h2
    by (rule along_try_cmd [OF along_repository(4)] along_try_cmd [OF along_repository(5)]; auto intro: left Cons)+
  have "publish_events ?p ctx (ev # evs) = (\<lambda>w.
      case ask (CPublish (o_Event ev)) done_of (Some end_of_script) w of (r, w) \<Rightarrow>
        (case r of
           None \<Rightarrow> try_cmd (OutboxRepository_MarkPublished (script_driver tosql) ctx (o_ID ev)) Inl
             (publish_events ?p ctx evs) w
         | Some err \<Rightarrow>
             try_cmd (OutboxRepository_MarkFailed (script_driver tosql) ctx (o_ID ev) err)
               (\<lambda>markErr. Inl (Errorf (''mark outbox event failed after publish error ''
                  @ error_text err @ '': '') markErr ''''))
               (publish_events ?p ctx evs) w))"
    by (simp add: fun_eq_iff script_publisher_defs script_driver_simps split: prod.split option.split)
  moreover have "along I (J (Suc (Suc (n + 2 * length evs)))) \<dots> (\<lambda>r. J n)"
    by (rule along_bind [OF along_call], simp, rule along_case_option) (rule marks)+
  ultimately show ?case by simp
qed (auto intro!: along_intros)

lemma along_batch:
  "along I (J (Suc (n + 2 * unat (pub_batch (script_publisher lib tosql interval k)))))
     (processBatch (script_publisher lib tosql interval k) ctx) (\<lambda>r. J n)"
  unfolding processBatch_def script_publisher_defs
  by (rule along_try_io [OF along_fetching]) (auto intro: left along_publishing)

end

subsection \<open>The length of a job\<close>

text \<open>How many calls a job makes at most.\<close>

fun max_calls :: "job \<Rightarrow> nat" where
  "max_calls (AskCreate input) = 8"
| "max_calls (AskPatch i input) = 9"
| "max_calls (AskDelete i) = 7"
| "max_calls (AskGet i) = 1"
| "max_calls (RunBatch interval n) = 3 + 2 * unat (word_of_int (if n \<le> 0 then 10 else n) :: 64 word)"

lemma along_mapped:
  assumes "along I P m (\<lambda>r. Q)"
  shows "along I P (map_result f m) (\<lambda>r. Q)"
proof -
  have "map_result f m = (\<lambda>w. case m w of (x, w) \<Rightarrow> (case x of Inl e \<Rightarrow> Inl e | Inr a \<Rightarrow> f a, w))"
    by (simp add: map_result_def fun_eq_iff split: prod.split sum.split)
  then show ?thesis by (auto intro!: along_bind [OF assms] along_intros split: sum.splits)
qed

locale call_budget = budget +
  assumes begins: "J (Suc n) L \<Longrightarrow> J n (L @ [(CBegin, a)])"
begin

lemma along_any: "along I (J (Suc n)) (ask c read d) (\<lambda>r. J n)"
  by (cases "c = CBegin") (auto intro: along_call along_ask allows begins)

lemma along_transacting:
  assumes "\<And>ctx. along I (J n) (fn ctx) (\<lambda>r. J 1)"
  shows "along I (J (Suc n)) (TransactionManager_WithinTransaction (script_driver tosql) Background fn) (\<lambda>r. J 0)"
proof -
  note one = along_any [of 0]
  have "along I (J (Suc n)) (\<lambda>w.
      try_io (ask CBegin tx_of (Inl end_of_script)) (\<lambda>e. Inl (wrap ''begin transaction'' e))
        (\<lambda>tx w. case fn (tx_ctx tx) w of (x, w) \<Rightarrow> (case x of
            Inl err \<Rightarrow> try_cmd (ask (CRollback tx) done_of (Some end_of_script))
              (\<lambda>rollbackErr. Inl (Errorf ''rollback transaction after '' err ('': '' @ error_text rollbackErr)))
              (\<lambda>w. (Inl err, w)) w
          | Inr result \<Rightarrow> try_cmd (ask (CCommit tx) done_of (Some end_of_script))
              (\<lambda>e. Inl (wrap ''commit transaction'' e)) (\<lambda>w. (Inr result, w)) w)) w) (\<lambda>r. J 0)"
    by (rule along_try_io [OF along_any], erule left, simp, rule along_bind [OF assms], rule along_case_sum)
      (auto intro!: along_try_cmd [OF one] along_intros)
  then show ?thesis
    unfolding TransactionManager_WithinTransaction_def [abs_def] script_driver_simps tx_ctx_Background
    by (simp add: txFromContext_def Background_def)
qed

lemma along_service:
  assumes "\<And>ctx. along I (J n) (fn ctx) (\<lambda>r. J 1)"
  shows "along I (J (Suc n)) (Service_withinTransaction (script_service lib tosql) Background fn) (\<lambda>r. J 0)"
  unfolding Service_withinTransaction_def script_service_defs option.case by (rule along_transacting [OF assms])

lemma six: "5 + 1 = (6 :: nat)" "7 + 1 = (8 :: nat)" by simp_all

lemma along_length: "along I (J (max_calls j)) (run_job lib tosql j) (\<lambda>r. J 0)"
proof (cases j)
  case (AskCreate input)
  have "along I (J 7) (Service_withinTransaction (script_service lib tosql) Background
      (create_in_tx (script_service lib tosql) c)) (\<lambda>r. J 0)" for c
    using along_service [where n = 6, OF along_creating [of 1, unfolded six]] by simp
  then show ?thesis
    unfolding AskCreate run_job.simps max_calls.simps CreateCompany_def [abs_def] script_driver_simps comp_def
    by (intro along_mapped along_bind [OF along_call [of _ 7, simplified]] along_intros) (auto elim: left)
next
  case (AskPatch i input)
  have "along I (J 9) (Service_withinTransaction (script_service lib tosql) Background
      (patch_in_tx script_runtime (script_service lib tosql) i input)) (\<lambda>r. J 0)"
    using along_service [where n = 8, OF along_patching [of 1, unfolded six]] by simp
  then show ?thesis
    unfolding AskPatch run_job.simps max_calls.simps PatchCompany_def [abs_def] comp_def
    by (intro along_mapped along_intros) (auto elim: left)
next
  case (AskDelete i)
  have "along I (J 7) (Service_withinTransaction (script_service lib tosql) Background
      (delete_in_tx (script_service lib tosql) i)) (\<lambda>r. J 0)"
    using along_service [where n = 6, OF along_deleting [of 1, unfolded six]] by simp
  moreover have "run_job lib tosql (AskDelete i) = (\<lambda>s.
      case Service_withinTransaction (script_service lib tosql) Background
        (delete_in_tx (script_service lib tosql) i) s of
        (x, s) \<Rightarrow> (case x of Inl e \<Rightarrow> Inl e | Inr c \<Rightarrow> Inr None, s))"
    by (simp add: fun_eq_iff DeleteCompany_def split: prod.split sum.split)
  ultimately show ?thesis
    unfolding AskDelete max_calls.simps by (auto intro!: along_bind along_intros)
next
  case (AskGet i)
  have "along I (J 1) (GetCompany (script_service lib tosql) Background i) (\<lambda>r. J 0)"
    unfolding GetCompany_def script_service_defs
    using along_lookup(1) [of 0] by (intro along_try_io [where M = "\<lambda>r. J 0"]) (auto intro: along_intros)
  then show ?thesis
    unfolding AskGet run_job.simps max_calls.simps comp_def by (rule along_mapped)
next
  case (RunBatch interval n)
  let ?p = "script_publisher lib tosql interval n" and ?n = "word_of_int (if n \<le> 0 then 10 else n) :: 64 word"
  have batch: "pub_batch ?p = ?n" by (simp add: outbox_publisher_def NewPublisher_def)
  have "along I (J (Suc (Suc (1 + 2 * unat ?n))))
      (TransactionManager_WithinTransaction (script_driver tosql) Background (processBatch ?p)) (\<lambda>r. J 0)"
    by (rule along_transacting) (rule along_batch [where n = 1 and lib = lib and tosql = tosql and interval = interval and k = n, unfolded batch])
  then show ?thesis
    unfolding RunBatch run_job.simps max_calls.simps ProcessBatch_def script_publisher_defs option.case
    by (intro along_mapped) (simp add: numeral_3_eq_3)
qed
end

text \<open>
  The first interpretation: the number of calls, as long as the server returns no more rows than the
  limit of a fetch allows.
\<close>

definition within_limits :: "trace \<Rightarrow> bool" where
  "within_limits L \<longleftrightarrow>
     (\<forall>x m rows. (CQuery x (outbox_select m), ARows (Inr (rows, None))) \<in> set L \<longrightarrow> length rows \<le> m)"

definition fewer_than :: "nat \<Rightarrow> trace \<Rightarrow> call \<Rightarrow> bool" where
  "fewer_than N L c \<longleftrightarrow> (within_limits L \<longrightarrow> length L < N)"

definition calls_left :: "nat \<Rightarrow> nat \<Rightarrow> trace \<Rightarrow> bool" where
  "calls_left N n L \<longleftrightarrow> (within_limits L \<longrightarrow> length L + n \<le> N)"

lemma within_limits_snoc: "within_limits (L @ [ca]) \<Longrightarrow> within_limits L"
  by (auto simp: within_limits_def)

interpretation counted: call_budget "fewer_than N" "calls_left N" for N
proof
  fix n m L x and rows :: "sqlval list list"
  let ?ca = "(CQuery x (outbox_select m), ARows (Inr (rows, None)))"
  assume "calls_left N (Suc (n + 2 * m)) L"
  moreover have "length rows \<le> m" if "within_limits (L @ [?ca])" using that by (auto simp: within_limits_def)
  ultimately show "calls_left N (n + 2 * length rows) (L @ [?ca])"
    using within_limits_snoc [of L ?ca] by (fastforce simp: calls_left_def)
qed (auto simp: fewer_than_def calls_left_def dest: within_limits_snoc)

lemma trace_length:
  assumes "is_trace lib tosql j L" and "within_limits L"
  shows "length L \<le> max_calls j"
proof (cases L rule: rev_cases)
  case (snoc M ca)
  from assms(1) obtain as M' where run: "log (snd (run_job lib tosql j \<lparr>answers = as, log = []\<rparr>)) = L @ M'"
    by (auto simp: is_trace_def prefix_def)
  obtain r s where eq: "run_job lib tosql j \<lparr>answers = as, log = []\<rparr> = (r, s)" by fastforce
  have "obeys (fewer_than (max_calls j)) (log s)"
    by (rule alongD(1) [OF counted.along_length [where N = "max_calls j"] _ _ eq]) (simp_all add: calls_left_def)
  moreover have "log s = L @ M'" using run eq by simp
  ultimately have "obeys (fewer_than (max_calls j)) L" by (metis obeys_prefix)
  with snoc assms(2) within_limits_snoc show ?thesis by (auto simp: fewer_than_def)
qed simp

subsection \<open>No transaction is left open\<close>

text \<open>A transaction is over when its end has been called after its beginning.\<close>

definition closed :: "tx_handle \<Rightarrow> trace \<Rightarrow> bool" where
  "closed t L \<longleftrightarrow>
     (\<exists>L0 c a L1. L = L0 @ (c, a) # L1 \<and> begun t L0 \<and> (c = CCommit t \<or> c = CRollback t))"

definition all_closed_but :: "tx_handle \<Rightarrow> trace \<Rightarrow> bool" where
  "all_closed_but t L \<longleftrightarrow> (\<forall>u. begun u L \<longrightarrow> u = t \<or> closed u L)"

definition all_closed :: "trace \<Rightarrow> bool" where
  "all_closed L \<longleftrightarrow> (\<forall>u. begun u L \<longrightarrow> closed u L)"

lemma closed_snoc [simp]:
  "closed t (L @ [(c, a)]) \<longleftrightarrow> closed t L \<or> begun t L \<and> (c = CCommit t \<or> c = CRollback t)" "\<not> closed t []"
proof -
  have "closed t (L @ [(c, a)])" if "closed t L"
  proof -
    from that obtain L0 d x L1 where "L = L0 @ (d, x) # L1" "begun t L0" "d = CCommit t \<or> d = CRollback t"
      unfolding closed_def by blast
    then show ?thesis unfolding closed_def by (intro exI [of _ L0] exI [of _ d] exI [of _ x] exI [of _ "L1 @ [(c, a)]"]) simp
  qed
  moreover have "closed t L \<or> begun t L \<and> (c = CCommit t \<or> c = CRollback t)" if "closed t (L @ [(c, a)])"
  proof -
    from that obtain L0 d x L1 where L: "L @ [(c, a)] = L0 @ (d, x) # L1" and "begun t L0" "d = CCommit t \<or> d = CRollback t"
      unfolding closed_def by blast
    with L show ?thesis unfolding closed_def by (cases L1 rule: rev_cases) auto
  qed
  moreover have "closed t (L @ [(c, a)])" if "begun t L" "c = CCommit t \<or> c = CRollback t"
    unfolding closed_def using that by (intro exI [of _ L] exI [of _ c] exI [of _ a] exI [of _ "[]"]) simp
  ultimately show "closed t (L @ [(c, a)]) \<longleftrightarrow> closed t L \<or> begun t L \<and> (c = CCommit t \<or> c = CRollback t)" by blast
qed (simp add: closed_def)

text \<open>The second interpretation: whatever is called inside, only the own transaction is open.\<close>

interpretation quiet: budget "\<lambda>L c. True" "\<lambda>n. all_closed_but t" for t
  by unfold_locales (auto simp: all_closed_but_def)

lemma along_closing:
  assumes work: "\<And>t. along (\<lambda>L c. True) (all_closed_but t) (fn (tx_ctx t)) (\<lambda>r. all_closed_but t)"
  shows "along (\<lambda>L c. True) all_closed (TransactionManager_WithinTransaction (script_driver tosql) Background fn)
    (\<lambda>r. all_closed)"
proof -
  have starts: "along (\<lambda>L c. True) all_closed (ask CBegin tx_of e)
      (\<lambda>r. case r of Inl e \<Rightarrow> all_closed | Inr t \<Rightarrow> all_closed_but t)" for e
    by (rule along_ask) (auto simp: all_closed_def all_closed_but_def split: sum.split)
  have ends: "along (\<lambda>L c. True) (all_closed_but t) (ask (CRollback t) done_of e) (\<lambda>r. all_closed)"
    "along (\<lambda>L c. True) (all_closed_but t) (ask (CCommit t) done_of e) (\<lambda>r. all_closed)" for t e
    by (rule along_ask; auto simp: all_closed_def all_closed_but_def)+
  have "along (\<lambda>L c. True) all_closed (\<lambda>w.
      try_io (ask CBegin tx_of (Inl end_of_script)) (\<lambda>e. Inl (wrap ''begin transaction'' e))
        (\<lambda>tx w. case fn (tx_ctx tx) w of (x, w) \<Rightarrow> (case x of
            Inl err \<Rightarrow> try_cmd (ask (CRollback tx) done_of (Some end_of_script))
              (\<lambda>rollbackErr. Inl (Errorf ''rollback transaction after '' err ('': '' @ error_text rollbackErr)))
              (\<lambda>w. (Inl err, w)) w
          | Inr result \<Rightarrow> try_cmd (ask (CCommit tx) done_of (Some end_of_script))
              (\<lambda>e. Inl (wrap ''commit transaction'' e)) (\<lambda>w. (Inr result, w)) w)) w) (\<lambda>r. all_closed)"
    by (rule along_try_io [OF starts], simp, rule along_bind [OF work [THEN along_pre]], simp, rule along_case_sum)
      (auto intro!: along_try_cmd [OF ends(1)] along_try_cmd [OF ends(2)] along_intros)
  then show ?thesis
    unfolding TransactionManager_WithinTransaction_def [abs_def] script_driver_simps tx_ctx_Background
    by (simp add: txFromContext_def Background_def)
qed

text \<open>Every job: whatever happened, the transactions that it began are over when it returns.\<close>

lemma along_service_closing:
  assumes "\<And>t. along (\<lambda>L c. True) (all_closed_but t) (fn (tx_ctx t)) (\<lambda>r. all_closed_but t)"
  shows "along (\<lambda>L c. True) all_closed (Service_withinTransaction (script_service lib tosql) Background fn)
    (\<lambda>r. all_closed)"
  unfolding Service_withinTransaction_def script_service_defs option.case by (rule along_closing [OF assms])

text \<open>The same for what is called outside of transactions.\<close>

interpretation outside: budget "\<lambda>L c. True" "\<lambda>n. all_closed"
  by unfold_locales (auto simp: all_closed_def)

lemma along_closed: "along (\<lambda>L c. True) all_closed (run_job lib tosql j) (\<lambda>r. all_closed)"
proof (cases j)
  case (AskCreate input)
  show ?thesis
    unfolding AskCreate run_job.simps CreateCompany_def [abs_def] script_driver_simps comp_def
    by (intro along_mapped along_bind [OF outside.along_call] along_intros along_service_closing
        quiet.along_creating) simp_all
next
  case (AskPatch i input)
  show ?thesis
    unfolding AskPatch run_job.simps PatchCompany_def [abs_def] comp_def
    by (intro along_mapped along_intros along_service_closing quiet.along_patching)
next
  case (AskDelete i)
  have "run_job lib tosql (AskDelete i) = (\<lambda>s.
      case Service_withinTransaction (script_service lib tosql) Background
        (delete_in_tx (script_service lib tosql) i) s of
        (x, s) \<Rightarrow> (case x of Inl e \<Rightarrow> Inl e | Inr c \<Rightarrow> Inr None, s))"
    by (simp add: fun_eq_iff DeleteCompany_def split: prod.split sum.split)
  moreover have "along (\<lambda>L c. True) all_closed \<dots> (\<lambda>r. all_closed)"
    by (rule along_bind [OF along_service_closing [OF quiet.along_deleting]]) (auto intro!: along_intros)
  ultimately show ?thesis unfolding AskDelete by simp
next
  case (AskGet i)
  show ?thesis
    unfolding AskGet run_job.simps GetCompany_def [abs_def] script_service_defs comp_def
    by (intro along_mapped along_try_io [OF outside.along_lookup(1)] along_intros)
next
  case (RunBatch interval n)
  show ?thesis
    unfolding RunBatch run_job.simps ProcessBatch_def script_publisher_defs option.case
    by (intro along_mapped along_closing quiet.along_batch)
qed

lemma returned_closed:
  assumes "returned lib tosql j L r" and "begun t L"
  shows "closed t L"
  using alongD(2) [OF along_closed _ _ assms(1) [unfolded returned_def]] assms(2)
  by (simp add: all_closed_def obeys_def)

end
