(* ===== verification/Endings.thy ===== *)
theory Endings
  imports Races Budgets
begin

text \<open>
  How runs end: every job makes a bounded number of calls and leaves no transaction behind, and it
  does not matter in which order two open transactions commit.
\<close>

subsection \<open>Jobs and their transactions\<close>

lemma serve_handles:
  assumes "serve s c a s'"
  shows "next_handle s \<le> next_handle s'"
    and "t < next_handle s \<Longrightarrow> active s t = None \<Longrightarrow> active s' t = None"
    and "c = CBegin \<Longrightarrow> a = ATx (Inr t) \<Longrightarrow> t < next_handle s'"
    and "c = CCommit t \<or> c = CRollback t \<Longrightarrow> active s' t = None"
  using assms
  by (cases; auto simp: writing_def locking_def ending_def dropped_def elim!: reads.cases split: executor.split)+

lemma interleaved_handles:
  assumes "interleaved lib tosql jobs s logs"
  shows "(begun t (logs k) \<longrightarrow> t < next_handle s) \<and> (closed t (logs k) \<longrightarrow> t < next_handle s \<and> active s t = None)"
  using assms
proof (induction arbitrary: k rule: interleaved.induct)
  case (call s logs j c a s')
  note s = serve_handles(1) [OF call(3)] serve_handles(2) [OF call(3), of t] serve_handles(3) [OF call(3), of t]
    serve_handles(4) [OF call(3), of t]
  have old: "(begun t (logs i) \<longrightarrow> t < next_handle s')
      \<and> (closed t (logs i) \<longrightarrow> t < next_handle s' \<and> active s' t = None)" for i
    using call(4) [of i] s(1,2) by auto
  show ?case
  proof (cases "k = j")
    case True
    with old [of j] s(3,4) show ?thesis by auto
  next
    case False
    with old [of k] show ?thesis by simp
  qed
qed (auto simp: ending_def)

lemma reads_limit:
  "reads s x (outbox_select m) rows s' \<Longrightarrow> length rows \<le> m"
  by (auto simp: outbox_select_def selected_def Let_def elim!: reads.cases split: option.splits sum.splits)

lemma serve_limit:
  "serve s (CQuery x (outbox_select m)) (ARows (Inr (rows, None))) s' \<Longrightarrow> length rows \<le> m"
  by (erule serve.cases) (auto dest: reads_limit)

lemma interleaved_limits: "interleaved lib tosql jobs s logs \<Longrightarrow> within_limits (logs k)"
proof (induction arbitrary: k rule: interleaved.induct)
  case (call s logs j c a s')
  with serve_limit show ?case by (fastforce simp: within_limits_def)
qed (simp_all add: within_limits_def)

lemma interleaved_trace: "interleaved lib tosql jobs s logs \<Longrightarrow> is_trace lib tosql (jobs k) (logs k)"
  by (induction rule: interleaved.induct) (auto simp: is_trace_def)

text \<open>
  Property C15: no job goes on for ever: whatever the server answers and whatever else is running, a
  request makes at most nine calls, and a batch at most three and two for every event of the
  configured batch size.
\<close>

theorem jobs_are_bounded:
  assumes "interleaved lib tosql jobs s logs"
  shows "length (logs k) \<le> max_calls (jobs k)"
  by (rule trace_length [OF interleaved_trace [OF assms] interleaved_limits [OF assms]])

theorem jobs_are_bounded_witness:
  "\<exists>s logs. interleaved canonical_uuids (\<lambda>st. None) race_jobs s logs \<and> length (logs 1) = 8
    \<and> max_calls (race_jobs 1) = 9 \<and> length (logs 1) \<le> max_calls (race_jobs 1)"
proof -
  let ?logs = "race_logs(1 := dismiss_trace, 2 := unregister_trace)"
  from race_run obtain s where "calm canonical_uuids race_jobs race_end {} 3 s ?logs" ..
  then have run: "interleaved canonical_uuids (\<lambda>st. None) race_jobs s ?logs" by (simp add: calm_def)
  from jobs_are_bounded [OF run, of 1] run show ?thesis
    by (intro exI [of _ s] exI [of _ ?logs])
      (simp add: dismiss_trace_def patch_reads_def change_writes_def race_jobs_def)
qed

text \<open>
  Property C12: when a request or a batch has returned, with success or with an error, every
  transaction that it has begun was committed or rolled back, and the server holds it open no more.
\<close>

theorem returned_jobs_hold_no_transaction:
  assumes "interleaved lib tosql jobs s logs"
    and "returned lib tosql (jobs k) (logs k) r" and "begun t (logs k)"
  shows "((\<exists>a. (CCommit t, a) \<in> set (logs k)) \<or> (\<exists>a. (CRollback t, a) \<in> set (logs k))) \<and> active s t = None"
  using interleaved_handles [OF assms(1), of t k] returned_closed [OF assms(2,3)]
  by (auto simp: closed_def)

theorem returned_jobs_hold_no_transaction_witness:
  "\<exists>s logs. interleaved canonical_uuids (\<lambda>st. None) race_jobs s logs
    \<and> returned canonical_uuids (\<lambda>st. None) (race_jobs 2) (logs 2) (Inr (Some acme_unregistered))
    \<and> begun 2 (logs 2) \<and> active s 2 = None"
proof -
  let ?logs = "race_logs(1 := dismiss_trace, 2 := unregister_trace)"
  from race_run obtain s where "calm canonical_uuids race_jobs race_end {} 3 s ?logs" ..
  then have run: "interleaved canonical_uuids (\<lambda>st. None) race_jobs s ?logs" by (simp add: calm_def)
  have ret: "returned canonical_uuids (\<lambda>st. None) (race_jobs 2) (?logs 2) (Inr (Some acme_unregistered))"
    using race_returns(2) by simp
  have begun: "begun 2 (?logs 2)" by (simp add: unregister_trace_def patch_reads_def begun_def)
  from returned_jobs_hold_no_transaction [OF run ret begun] run ret begun show ?thesis by blast
qed

end
