(* ===== verification/Typing.thy ===== *)
theory Typing
  imports Jobs Isolation
begin

text \<open>
  Types: the statements of the program fit the columns of the migrations; a statement that fits is
  never refused for a name, a type or a missing value, and leaves tables and results of the right
  types.
\<close>

subsection \<open>Typed values, expressions and statements\<close>

fun has_type :: "coltype \<Rightarrow> sqlval \<Rightarrow> bool" where
  "has_type ty VNull = True"
| "has_type UuidType (VUuid u) = True"
| "has_type TextType (VText s) = True"
| "has_type IntegerType (VInt n) = True"
| "has_type BooleanType (VBool b) = True"
| "has_type TimestamptzType (VTime t) = True"
| "has_type JsonbType (VJson j) = True"
| "has_type _ _ = False"

text \<open>A value for a column: of its type, and NULL only where that is allowed.\<close>

definition column_fits :: "column \<Rightarrow> sqlval \<Rightarrow> bool" where
  "column_fits d v \<longleftrightarrow> has_type (col_type d) v \<and> (v = VNull \<longrightarrow> \<not> not_null d)"

definition fits :: "table \<Rightarrow> string \<Rightarrow> sqlval \<Rightarrow> bool" where
  "fits t c v \<longleftrightarrow> list_ex (\<lambda>d. col_name d = c \<and> column_fits d v) (columns t)"

definition has_column :: "table \<Rightarrow> string \<Rightarrow> (column \<Rightarrow> bool) \<Rightarrow> bool" where
  "has_column t c P \<longleftrightarrow> list_ex (\<lambda>d. col_name d = c \<and> P d) (columns t)"

fun set_typed :: "table \<Rightarrow> string \<times> sqlexpr \<Rightarrow> bool" where
  "set_typed t (c, Bind v) = fits t c v"
| "set_typed t (c, NowExpr) = has_column t c (\<lambda>d. col_type d = TimestamptzType)"
| "set_typed t (c, NowPlusSeconds n) = has_column t c (\<lambda>d. col_type d = TimestamptzType)"
| "set_typed t (c, ColumnPlus c' n) =
     (has_column t c (\<lambda>d. col_type d = IntegerType) \<and> has_column t c' (\<lambda>d. col_type d = IntegerType \<and> not_null d))"

fun cond_typed :: "table \<Rightarrow> sqlcond \<Rightarrow> bool" where
  "cond_typed t (Eq c v) = has_column t c (\<lambda>d. has_type (col_type d) v)"
| "cond_typed t (IsNull c) = has_column t c (\<lambda>d. True)"
| "cond_typed t (LeNow c) = has_column t c (\<lambda>d. col_type d = TimestamptzType)"

fun well_typed :: "stmt \<Rightarrow> bool" where
  "well_typed (Insert name cols vals) =
     (case table_of name of
        None \<Rightarrow> False
      | Some t \<Rightarrow> distinct cols \<and> list_all2 (fits t) cols vals
          \<and> list_all (\<lambda>d. col_name d \<in> set cols \<or> col_default d \<noteq> None \<or> \<not> not_null d) (columns t))"
| "well_typed (UpdateSet name sets conds) =
     (case table_of name of
        None \<Rightarrow> False
      | Some t \<Rightarrow> list_all (set_typed t) sets \<and> list_all (cond_typed t) conds)"
| "well_typed (DeleteFrom name conds) =
     (case table_of name of None \<Rightarrow> False | Some t \<Rightarrow> list_all (cond_typed t) conds)"
| "well_typed (Select cols name conds order limit sfx) =
     (case table_of name of
        None \<Rightarrow> False
      | Some t \<Rightarrow> list_all (\<lambda>c. has_column t c (\<lambda>d. True)) cols \<and> list_all (cond_typed t) conds
          \<and> (case order of None \<Rightarrow> True | Some c \<Rightarrow> has_column t c (\<lambda>d. True)))"

text \<open>Tables whose rows have the columns of the migration, each with a value that fits.\<close>

definition row_typed :: "column list \<Rightarrow> row \<Rightarrow> bool" where
  "row_typed = list_all2 (\<lambda>d cv. fst cv = col_name d \<and> column_fits d (snd cv))"

definition tables_typed :: "database \<Rightarrow> bool" where
  "tables_typed db \<longleftrightarrow>
     list_all (row_typed (columns companies_table)) (companies db)
     \<and> list_all (row_typed (columns outbox_events_table)) (outbox_events db)"

fun rows_typed :: "stmt \<Rightarrow> sqlval list list \<Rightarrow> bool" where
  "rows_typed (Select cols name conds order limit sfx) rows =
     (case table_of name of None \<Rightarrow> False | Some t \<Rightarrow> list_all (list_all2 (fits t) cols) rows)"
| "rows_typed _ rows = (rows = [])"

text \<open>The errors that a statement of the wrong shape would get.\<close>

definition type_error :: "goerr \<Rightarrow> bool" where
  "type_error e \<longleftrightarrow>
     e = no_table \<or> e = OtherError ''cannot convert value to the type of the column''
     \<or> e = PgError ''23502'' '''' ''null value violates not-null constraint''"

lemma program_statements_typed:
  "well_typed (company_insert c)" "well_typed (company_update c)" "well_typed (company_delete i)"
  "well_typed (selectCompany [Eq ''id'' (VUuid i)])" "well_typed (selectCompany [Eq ''name'' (VText n)])"
  "well_typed (outbox_insert ev j)" "well_typed (outbox_select m)"
  "well_typed (outbox_published i)" "well_typed (outbox_failed i msg)"
  by (simp_all add: company_insert_def company_update_def company_delete_def selectCompany_def outbox_insert_def
      outbox_select_def outbox_published_def outbox_failed_def fits_def has_column_def column_fits_def
      companies_table_def outbox_events_table_def)

subsection \<open>Rows\<close>

definition schema_ok :: "table \<Rightarrow> bool" where
  "schema_ok t \<longleftrightarrow>
     distinct (map col_name (columns t))
     \<and> (\<forall>d\<in>set (columns t). column_type t (col_name d) = col_type d
          \<and> (\<forall>ex now. col_default d = Some ex \<longrightarrow>
               (\<exists>v. eval_expr now [] ex = Inr v \<and> has_type (col_type d) v \<and> v \<noteq> VNull)))"

lemma schemas_ok: "schema_ok companies_table" "schema_ok outbox_events_table"
  by (simp_all add: schema_ok_def companies_table_def outbox_events_table_def column_type_def)

lemma schema_ok_of: "table_of name = Some t \<Longrightarrow> schema_ok t"
  by (auto simp: table_of_def schemas_ok split: if_splits)

lemma encode_typed:
  assumes "has_type ty v"
  shows "case encode ty v of Inl e \<Rightarrow> \<not> type_error e | Inr v' \<Rightarrow> has_type ty v' \<and> (v' = VNull \<longleftrightarrow> v = VNull)"
  using assms by (cases "(ty, v)" rule: encode.cases) (auto simp: type_error_def no_table_def)

lemma encode_fits:
  assumes "schema_ok t" and "fits t c v"
  shows "case encode (column_type t c) v of Inl e \<Rightarrow> \<not> type_error e | Inr v' \<Rightarrow> fits t c v'"
proof -
  from assms(2) obtain d where d: "d \<in> set (columns t)" "col_name d = c" "column_fits d v"
    by (auto simp: fits_def list_ex_iff)
  with assms(1) have "column_type t c = col_type d" by (auto simp: schema_ok_def)
  with d encode_typed [of "col_type d" v] show ?thesis
    by (auto simp: fits_def list_ex_iff column_fits_def split: sum.splits)
qed

lemma row_typed_col:
  assumes "row_typed cs r" and "distinct (map col_name cs)" and "d \<in> set cs"
  shows "column_fits d (col r (col_name d))"
  using assms unfolding row_typed_def
proof (induction rule: list_all2_induct)
  case (Cons d' cs cv r)
  then show ?case by (cases cv) (auto simp: col_def image_iff)
qed simp

lemma row_typed_update:
  assumes "row_typed cs r" and "distinct (map col_name cs)" and "d \<in> set cs" and "column_fits d v"
  shows "row_typed cs (AList.update (col_name d) v r)"
  using assms unfolding row_typed_def
proof (induction rule: list_all2_induct)
  case (Cons d' cs cv r)
  then show ?case by (cases cv) auto
qed simp

lemma build_row_typed:
  assumes "\<forall>d\<in>set cs. \<forall>ex now. col_default d = Some ex \<longrightarrow>
      (\<exists>v. eval_expr now [] ex = Inr v \<and> has_type (col_type d) v \<and> v \<noteq> VNull)"
    and "\<forall>d\<in>set cs. case map_of given (col_name d) of
      None \<Rightarrow> col_default d \<noteq> None \<or> \<not> not_null d | Some v \<Rightarrow> column_fits d v"
  shows "case build_row now cs given of Inl e \<Rightarrow> \<not> type_error e | Inr r \<Rightarrow> row_typed cs r"
  using assms
proof (induction cs)
  case (Cons d cs)
  let ?x = "case map_of given (col_name d) of
      Some v \<Rightarrow> encode (col_type d) v
    | None \<Rightarrow> (case col_default d of None \<Rightarrow> Inr VNull
        | Some ex \<Rightarrow> (case eval_expr now [] ex of Inl e \<Rightarrow> Inl e | Inr v \<Rightarrow> encode (col_type d) v))"
  have "case ?x of Inl e \<Rightarrow> \<not> type_error e | Inr v \<Rightarrow> column_fits d v"
  proof (cases "map_of given (col_name d)")
    case None
    show ?thesis
    proof (cases "col_default d")
      case (Some ex)
      with Cons.prems(1) obtain v where "eval_expr now [] ex = Inr v" "has_type (col_type d) v" "v \<noteq> VNull" by force
      with None Some encode_typed [of "col_type d" v] show ?thesis by (auto simp: column_fits_def split: sum.splits)
    qed (use None Cons.prems(2) in \<open>auto simp: column_fits_def\<close>)
  next
    case (Some v)
    with Cons.prems(2) have "column_fits d v" by simp
    with Some encode_typed [of "col_type d" v] show ?thesis by (auto simp: column_fits_def split: sum.splits)
  qed
  moreover have "case build_row now cs given of Inl e \<Rightarrow> \<not> type_error e | Inr r \<Rightarrow> row_typed cs r"
    using Cons by simp
  ultimately show ?case by (auto simp: row_typed_def split: sum.splits)
qed (simp add: row_typed_def)

text \<open>The expressions of an UPDATE on a typed row.\<close>

lemma list_ex_column:
  "has_column t c P \<longleftrightarrow> (\<exists>d\<in>set (columns t). col_name d = c \<and> P d)"
  "fits t c v \<longleftrightarrow> (\<exists>d\<in>set (columns t). col_name d = c \<and> column_fits d v)"
  by (auto simp: has_column_def fits_def list_ex_iff)

lemma set_typed_eval:
  assumes t: "schema_ok t" and r: "row_typed (columns t) r" and set: "set_typed t (c, ex)"
  shows "case eval_expr now r ex of Inl e \<Rightarrow> \<not> type_error e | Inr v \<Rightarrow> fits t c v"
proof (cases ex)
  case (ColumnPlus c' n)
  with set obtain d d' where d: "d \<in> set (columns t)" "col_name d = c" "col_type d = IntegerType"
    and d': "d' \<in> set (columns t)" "col_name d' = c'" "col_type d' = IntegerType" "not_null d'"
    by (auto simp: list_ex_column)
  have "column_fits d' (col r c')" using row_typed_col [OF r _ d'(1)] t d'(2) by (simp add: schema_ok_def)
  with d' obtain m where "col r c' = VInt m" by (cases "col r c'") (auto simp: column_fits_def)
  with ColumnPlus d show ?thesis
    by (auto simp: type_error_def no_table_def list_ex_column column_fits_def)
qed (use set in \<open>auto simp: list_ex_column column_fits_def\<close>)

lemma assign_typed:
  assumes t: "schema_ok t" and old: "row_typed (columns t) old"
  shows "list_all (set_typed t) sets \<Longrightarrow> row_typed (columns t) r \<Longrightarrow>
    case assign now t old sets r of Inl e \<Rightarrow> \<not> type_error e | Inr r' \<Rightarrow> row_typed (columns t) r'"
proof (induction sets arbitrary: r)
  case (Cons cx sets)
  obtain c ex where cx: "cx = (c, ex)" by fastforce
  show ?case
  proof (cases "eval_expr now old ex")
    case (Inl e)
    with set_typed_eval [OF t old, of c ex now] Cons.prems(1) show ?thesis by (simp add: cx)
  next
    case (Inr v)
    with set_typed_eval [OF t old, of c ex now] Cons.prems(1) have v: "fits t c v" by (simp add: cx)
    show ?thesis
    proof (cases "encode (column_type t c) v")
      case (Inl e)
      with encode_fits [OF t v] Inr show ?thesis by (simp add: cx)
    next
      case enc: (Inr v')
      with encode_fits [OF t v] obtain d where "d \<in> set (columns t)" "col_name d = c" "column_fits d v'"
        by (auto simp: list_ex_column)
      then have "row_typed (columns t) (AList.update c v' r)"
        using row_typed_update [OF Cons.prems(2)] t by (auto simp: schema_ok_def)
      with Cons Inr enc show ?thesis by (simp add: cx)
    qed
  qed
qed simp

lemma violation_typed:
  assumes "schema_ok t" and "row_typed (columns t) r" and "row_violation t rs r = Some e"
  shows "\<not> type_error e"
proof -
  have "col r (col_name d) \<noteq> VNull" if "d \<in> set (columns t)" "not_null d" for d
    using row_typed_col [OF assms(2) _ that(1)] assms(1) that(2) by (auto simp: schema_ok_def column_fits_def)
  then have "null_violation t r = None"
    by (auto simp: null_violation_def filter_empty_conv split: list.split)
  with assms(3) show ?thesis
    by (auto simp: row_violation_def check_violation_def unique_violation_def type_error_def no_table_def
        split: list.splits option.splits)
qed

lemma update_rows_typed:
  assumes t: "schema_ok t" and sets: "list_all (set_typed t) sets"
  shows "list_all (row_typed (columns t)) rs \<Longrightarrow> list_all (row_typed (columns t)) earlier \<Longrightarrow>
    case update_rows now t sets cs earlier rs of
      Inl e \<Rightarrow> \<not> type_error e | Inr (rs', n) \<Rightarrow> list_all (row_typed (columns t)) rs'"
proof (induction rs arbitrary: earlier)
  case (Cons r rs)
  show ?case
  proof (cases "matches now cs r")
    case True
    from Cons.prems(1) have r: "row_typed (columns t) r" by simp
    show ?thesis
    proof (cases "assign now t r sets r")
      case (Inl e)
      with assign_typed [OF t r sets r, of now] True show ?thesis by simp
    next
      case (Inr r')
      with assign_typed [OF t r sets r, of now] have r': "row_typed (columns t) r'" by simp
      show ?thesis
      proof (cases "row_violation t (earlier @ rs) r'")
        case None
        with Cons r' True Inr show ?thesis
          by (force split: sum.splits dest: Cons.IH [of "earlier @ [r']"])
      qed (use violation_typed [OF t r'] True Inr in simp)
    qed
  qed (use Cons in simp)
qed simp

lemma bind_sets_typed:
  assumes t: "schema_ok t"
  shows "list_all (set_typed t) sets \<Longrightarrow>
    case bind_sets t sets of Inl e \<Rightarrow> \<not> type_error e | Inr sets' \<Rightarrow> list_all (set_typed t) sets'"
proof (induction sets)
  case (Cons cx sets)
  obtain c ex where cx: "cx = (c, ex)" by fastforce
  show ?case
  proof (cases ex)
    case (Bind v)
    with Cons.prems cx have "fits t c v" by simp
    with encode_fits [OF t this] Cons cx Bind show ?thesis by (auto split: sum.splits)
  qed (use Cons cx in \<open>auto split: sum.splits\<close>)
qed simp

lemma bind_conds_typed:
  assumes t: "schema_ok t"
  shows "list_all (cond_typed t) cs \<Longrightarrow> bind_conds t cs = Inl e \<Longrightarrow> \<not> type_error e"
proof (induction cs)
  case (Cons x cs)
  show ?case
  proof (cases x)
    case (Eq c v)
    with Cons.prems obtain d where d: "d \<in> set (columns t)" "col_name d = c" "has_type (col_type d) v"
      by (auto simp: list_ex_column)
    with t have "column_type t c = col_type d" by (auto simp: schema_ok_def)
    with encode_typed [OF d(3)] Cons Eq show ?thesis by (auto split: sum.splits)
  qed (use Cons in \<open>auto split: sum.splits\<close>)
qed simp

subsection \<open>Well-typed statements do not go wrong\<close>

lemma map_of_zip_fits:
  assumes "list_all2 (fits t) cs vs" and "map_of (zip cs vs) c = Some v"
  shows "fits t c v"
  using assms by (induction rule: list_all2_induct) (auto split: if_splits)

lemma map_of_zip_None:
  assumes "list_all2 (fits t) cs vs"
  shows "map_of (zip cs vs) c = None \<longleftrightarrow> c \<notin> set cs"
  using assms by (induction rule: list_all2_induct) auto

lemma set_rows_typed:
  assumes "table_of name = Some t" and "tables_typed db" and "list_all (row_typed (columns t)) rs"
  shows "tables_typed (set_rows name rs db)"
  using assms by (auto simp: table_of_def set_rows_def tables_typed_def split: if_splits)

lemma rows_of_typed:
  "table_of name = Some t \<Longrightarrow> tables_typed db \<Longrightarrow> list_all (row_typed (columns t)) (rows_of name db)"
  by (auto simp: table_of_def rows_of_def tables_typed_def split: if_splits)

lemma selected_subset: "set (selected now cs order limit rs) \<subseteq> set rs"
  by (auto simp: selected_def Let_def split: option.splits dest: in_set_takeD)

theorem well_typed_sound:
  assumes "well_typed st" and db: "tables_typed db"
  shows "case sql_exec now st db of
      Inl e \<Rightarrow> \<not> type_error e | Inr (rows, n, db') \<Rightarrow> rows_typed st rows \<and> tables_typed db'"
proof (cases st)
  case (Insert name cols vals)
  with assms(1) obtain t where t: "table_of name = Some t" and cols: "list_all2 (fits t) cols vals"
    and all: "list_all (\<lambda>d. col_name d \<in> set cols \<or> col_default d \<noteq> None \<or> \<not> not_null d) (columns t)"
    by (auto split: option.splits)
  note ok = schema_ok_of [OF t]
  have given: "column_fits d v" if "d \<in> set (columns t)" "map_of (zip cols vals) (col_name d) = Some v" for d v
  proof -
    from map_of_zip_fits [OF cols that(2)] obtain d' where "d' \<in> set (columns t)" "col_name d' = col_name d" "column_fits d' v"
      by (auto simp: list_ex_column)
    with ok that(1) show ?thesis by (auto simp: schema_ok_def distinct_map dest: inj_onD)
  qed
  have row: "case build_row now (columns t) (zip cols vals) of
      Inl e \<Rightarrow> \<not> type_error e | Inr r \<Rightarrow> row_typed (columns t) r"
    by (rule build_row_typed)
      (use ok all given map_of_zip_None [OF cols] in \<open>auto simp: schema_ok_def list_all_iff split: option.splits\<close>)
  show ?thesis
  proof (cases "build_row now (columns t) (zip cols vals)")
    case (Inr r)
    with row have "row_typed (columns t) r" by simp
    with Inr Insert t violation_typed [OF ok this] rows_of_typed [OF t db] show ?thesis
      by (auto split: option.splits intro!: set_rows_typed [OF t db])
  qed (use row Insert t in simp)
next
  case (UpdateSet name sets conds)
  with assms(1) obtain t where t: "table_of name = Some t" and sets: "list_all (set_typed t) sets"
    and conds: "list_all (cond_typed t) conds" by (auto split: option.splits)
  note ok = schema_ok_of [OF t]
  show ?thesis
  proof (cases "bind_sets t sets")
    case (Inr sets')
    with bind_sets_typed [OF ok sets] have sets': "list_all (set_typed t) sets'" by simp
    with UpdateSet t Inr bind_conds_typed [OF ok conds] update_rows_typed [OF ok sets' rows_of_typed [OF t db], of "[]" now]
    show ?thesis by (force split: sum.splits intro!: set_rows_typed [OF t db])
  qed (use bind_sets_typed [OF ok sets] UpdateSet t in simp)
next
  case (DeleteFrom name conds)
  with assms(1) obtain t where t: "table_of name = Some t" and conds: "list_all (cond_typed t) conds"
    by (auto split: option.splits)
  have "list_all (row_typed (columns t)) (filter P (rows_of name db))" for P
    using rows_of_typed [OF t db] by (auto simp: list_all_iff)
  with DeleteFrom t bind_conds_typed [OF schema_ok_of [OF t] conds] show ?thesis
    by (auto simp: Let_def split: sum.splits intro!: set_rows_typed [OF t db])
next
  case (Select cols name conds order limit sfx)
  with assms(1) obtain t where t: "table_of name = Some t" and conds: "list_all (cond_typed t) conds"
    and cols: "list_all (\<lambda>c. has_column t c (\<lambda>d. True)) cols" by (auto split: option.splits)
  have "list_all2 (fits t) cols (map (col r) cols)" if "r \<in> set (rows_of name db)" for r
  proof -
    from rows_of_typed [OF t db] that have r: "row_typed (columns t) r" by (simp add: list_all_iff)
    have "fits t c (col r c)" if "c \<in> set cols" for c
    proof -
      from cols that obtain d where "d \<in> set (columns t)" "col_name d = c"
        by (auto simp: list_all_iff list_ex_column)
      with row_typed_col [OF r] schema_ok_of [OF t] show ?thesis by (auto simp: schema_ok_def list_ex_column)
    qed
    then show ?thesis by (simp add: list_all2_map2 list.rel_refl_strong)
  qed
  with Select t db bind_conds_typed [OF schema_ok_of [OF t] conds] selected_subset show ?thesis
    by (fastforce simp: list_all_iff split: sum.splits)
qed

subsection \<open>The statements of a run\<close>

lemma protocol_typed:
  "protocol lib L c \<Longrightarrow> stmt_of c = Some st \<Longrightarrow> well_typed st"
proof (induction lib L c rule: protocol.induct)
  case (1 lib L x st')
  then obtain ch ev j where "st = write_stmt ch \<or> st = outbox_insert ev j" by (auto simp: may_write_def)
  moreover have "well_typed (write_stmt ch)" by (cases ch) (simp_all add: program_statements_typed)
  ultimately show ?case by (auto simp: program_statements_typed)
qed (auto simp: program_statements_typed simp del: well_typed.simps)

lemma batch_protocol_typed:
  "batch_protocol lib L c \<Longrightarrow> stmt_of c = Some st \<Longrightarrow> well_typed st"
  by (induction lib L c rule: batch_protocol.induct) (auto simp: program_statements_typed simp del: well_typed.simps)

lemma obeys_member:
  assumes "obeys I L" and "(c, a) \<in> set L"
  obtains M where "I M c"
proof -
  from assms(2) obtain k where "k < length L" "L ! k = (c, a)" by (auto simp: in_set_conv_nth)
  with assms(1) that show ?thesis by (force simp: obeys_def)
qed

text \<open>
  Property C14: every statement that a request or a batch sends fits the tables of the migrations.  So
  the server never refuses one for a missing table, for a value of the wrong type or for a missing
  value, the rows that it returns have the types of the columns asked for, and the tables stay typed.
\<close>

theorem statements_fit_the_schema:
  assumes "is_trace lib tosql j L" and "(c, a) \<in> set L" and "stmt_of c = Some st" and "tables_typed db"
  shows "well_typed st
    \<and> (case sql_exec now st db of
        Inl e \<Rightarrow> \<not> type_error e
      | Inr (rows, n, db') \<Rightarrow> rows_typed st rows \<and> tables_typed db')"
proof -
  from obeys_member [OF trace_obeys [OF assms(1)] assms(2)] obtain M where "job_protocol lib j M c" .
  with assms(3) have "well_typed st" by (cases j) (auto intro: protocol_typed batch_protocol_typed)
  with well_typed_sound [OF this assms(4)] show ?thesis by blast
qed

text \<open>The tables that stand for a ledger are typed.\<close>

lemma tables_typed_conc: "tables_typed (conc lib l)"
  by (auto simp: tables_typed_def conc_def list_all_iff row_typed_def column_fits_def row_of_company_def
      row_of_entry_def companies_table_def outbox_events_table_def split: option.splits)

theorem statements_fit_the_schema_witness:
  "\<exists>L x a. (CQueryRow x (selectCompany [Eq ''id'' (VUuid 1)]), a) \<in> set L
    \<and> is_trace canonical_uuids (\<lambda>st. None) (AskGet 1) L
    \<and> (case sql_exec 0 (selectCompany [Eq ''id'' (VUuid 1)]) (conc canonical_uuids acme_ledger) of
        Inl e \<Rightarrow> \<not> type_error e
      | Inr (rows, n, db) \<Rightarrow> rows_typed (selectCompany [Eq ''id'' (VUuid 1)]) rows \<and> tables_typed db)"
proof -
  let ?st = "selectCompany [Eq ''id'' (VUuid 1)]"
  let ?L = "[(CQueryRow PoolExecutor ?st, ARow (Inl ErrNoRows))]"
  have "row_fits ?st (Inl ErrNoRows)" by (simp add: selectCompany_def)
  then have "log (snd (run_job canonical_uuids (\<lambda>st. None) (AskGet 1) \<lparr>answers = [ARow (Inl ErrNoRows)], log = []\<rparr>)) = ?L"
    by (simp add: map_result_def GetCompany_def script_service_defs CompanyRepository_GetByID_def script_driver_simps
        io_simps ask_def executorFromContext_def txFromContext_def Background_def scanCompany_def errors_Is.simps)
  then have trace: "is_trace canonical_uuids (\<lambda>st. None) (AskGet 1) ?L" unfolding is_trace_def by (metis prefix_order.refl)
  from statements_fit_the_schema [OF trace _ _ tables_typed_conc [of canonical_uuids acme_ledger], of "CQueryRow PoolExecutor ?st"
      "ARow (Inl ErrNoRows)" ?st 0] trace
  show ?thesis by (intro exI [of _ ?L] exI [of _ PoolExecutor] exI [of _ "ARow (Inl ErrNoRows)"]) simp
qed

end
