(* ===== verification/Docs.thy ===== *)
theory Docs
  imports Json
begin

text \<open>
  The API documentation (\<^verbatim>\<open>docs/docs.go\<close>): the Swagger 2.0 document that the service serves under
  \<^verbatim>\<open>/swagger/\<close>, and how such a document is read.

  \<^verbatim>\<open>docTemplate\<close> is a template whose holes are fields of a \<^verbatim>\<open>swag.Spec\<close>.  Here it is the function from
  those fields to the JSON document that the expanded template is; one definition stands for each
  operation and each schema, with the keys in the order of the text.  The expansion itself
  (\<^verbatim>\<open>text/template\<close>) and the registry of documents belong to libraries.
\<close>

subsection \<open>The template\<close>

record swag_info =
  sw_Version :: string
  sw_Host :: string
  sw_BasePath :: string
  sw_Schemes :: "string list"
  sw_Title :: string
  sw_Description :: string
  sw_InfoInstanceName :: string
  sw_LeftDelim :: string
  sw_RightDelim :: string

record swag_spec = swag_info +
  sw_SwaggerTemplate :: "swag_info \<Rightarrow> json"

text \<open>Parts that occur again and again.\<close>

definition bearer_security :: json where
  "bearer_security = JArr [JObj [(''BearerAuth'', JArr [])]]"

definition application_json :: json where
  "application_json = JArr [JStr ''application/json'']"

definition schema_ref :: "string \<Rightarrow> json" where
  "schema_ref name = JObj [(''$ref'', JStr (''#/definitions/'' @ name))]"

definition response_doc :: "string \<Rightarrow> json \<Rightarrow> json" where
  "response_doc description schema = JObj [(''description'', JStr description), (''schema'', schema)]"

definition error_doc :: "string \<Rightarrow> json" where
  "error_doc description = response_doc description (schema_ref ''http.errorResponse'')"

definition typed :: "string \<Rightarrow> json" where
  "typed t = JObj [(''type'', JStr t)]"

definition string_map_schema :: json where
  "string_map_schema = JObj [(''type'', JStr ''object''), (''additionalProperties'', typed ''string'')]"

definition id_parameter :: json where
  "id_parameter = JObj
     [(''type'', JStr ''string''), (''format'', JStr ''uuid''),
      (''description'', JStr ''Company ID''), (''name'', JStr ''id''), (''in'', JStr ''path''),
      (''required'', JBool True)]"

definition body_parameter :: "string \<Rightarrow> string \<Rightarrow> json" where
  "body_parameter description schema = JObj
     [(''description'', JStr description), (''name'', JStr ''company''), (''in'', JStr ''body''),
      (''required'', JBool True), (''schema'', schema_ref schema)]"

subsection \<open>Operations\<close>

definition post_companies_doc :: json where
  "post_companies_doc = JObj
     [(''security'', bearer_security),
      (''description'', JStr ''Creates a company and publishes a company.created event.''),
      (''consumes'', application_json),
      (''produces'', application_json),
      (''tags'', JArr [JStr ''companies'']),
      (''summary'', JStr ''Create a company''),
      (''parameters'', JArr [body_parameter ''Company payload'' ''http.createCompanyRequest'']),
      (''responses'', JObj
        [(''201'', response_doc ''Created'' (schema_ref ''http.companyResponse'')),
         (''400'', error_doc ''Bad Request''),
         (''401'', error_doc ''Unauthorized''),
         (''409'', error_doc ''Conflict''),
         (''500'', error_doc ''Internal Server Error'')])]"

definition get_company_doc :: json where
  "get_company_doc = JObj
     [(''description'', JStr ''Returns a company by ID. This endpoint is public.''),
      (''produces'', application_json),
      (''tags'', JArr [JStr ''companies'']),
      (''summary'', JStr ''Get a company''),
      (''parameters'', JArr [id_parameter]),
      (''responses'', JObj
        [(''200'', response_doc ''OK'' (schema_ref ''http.companyResponse'')),
         (''400'', error_doc ''Bad Request''),
         (''404'', error_doc ''Not Found''),
         (''500'', error_doc ''Internal Server Error'')])]"

definition delete_company_doc :: json where
  "delete_company_doc = JObj
     [(''security'', bearer_security),
      (''description'', JStr ''Deletes an existing company and publishes a company.deleted event.''),
      (''produces'', application_json),
      (''tags'', JArr [JStr ''companies'']),
      (''summary'', JStr ''Delete a company''),
      (''parameters'', JArr [id_parameter]),
      (''responses'', JObj
        [(''204'', JObj [(''description'', JStr ''No Content'')]),
         (''400'', error_doc ''Bad Request''),
         (''401'', error_doc ''Unauthorized''),
         (''404'', error_doc ''Not Found''),
         (''500'', error_doc ''Internal Server Error'')])]"

definition patch_company_doc :: json where
  "patch_company_doc = JObj
     [(''security'', bearer_security),
      (''description'',
        JStr ''Partially updates an existing company and publishes a company.updated event.''),
      (''consumes'', application_json),
      (''produces'', application_json),
      (''tags'', JArr [JStr ''companies'']),
      (''summary'', JStr ''Patch a company''),
      (''parameters'', JArr
        [id_parameter, body_parameter ''Fields to update'' ''http.patchCompanyRequest'']),
      (''responses'', JObj
        [(''200'', response_doc ''OK'' (schema_ref ''http.companyResponse'')),
         (''400'', error_doc ''Bad Request''),
         (''401'', error_doc ''Unauthorized''),
         (''404'', error_doc ''Not Found''),
         (''409'', error_doc ''Conflict''),
         (''500'', error_doc ''Internal Server Error'')])]"

definition healthz_doc :: json where
  "healthz_doc = JObj
     [(''description'', JStr ''Returns a simple status response when the process is running.''),
      (''produces'', application_json),
      (''tags'', JArr [JStr ''health'']),
      (''summary'', JStr ''Health check''),
      (''responses'', JObj [(''200'', response_doc ''OK'' string_map_schema)])]"

definition readyz_doc :: json where
  "readyz_doc = JObj
     [(''description'', JStr ''Checks whether the service can reach its database dependency.''),
      (''produces'', application_json),
      (''tags'', JArr [JStr ''health'']),
      (''summary'', JStr ''Readiness check''),
      (''responses'', JObj
        [(''200'', response_doc ''OK'' string_map_schema),
         (''503'', error_doc ''Service Unavailable'')])]"

definition docs_paths :: json where
  "docs_paths = JObj
     [(''/companies'', JObj [(''post'', post_companies_doc)]),
      (''/companies/{id}'', JObj
        [(''get'', get_company_doc), (''delete'', delete_company_doc),
         (''patch'', patch_company_doc)]),
      (''/healthz'', JObj [(''get'', healthz_doc)]),
      (''/readyz'', JObj [(''get'', readyz_doc)])]"

subsection \<open>Schemas\<close>

definition companyResponse_schema :: json where
  "companyResponse_schema = JObj
     [(''type'', JStr ''object''),
      (''properties'', JObj
        [(''amount_of_employees'', typed ''integer''), (''created_at'', typed ''string''),
         (''description'', typed ''string''), (''id'', typed ''string''), (''name'', typed ''string''),
         (''registered'', typed ''boolean''), (''type'', typed ''string''),
         (''updated_at'', typed ''string'')])]"

definition createCompanyRequest_schema :: json where
  "createCompanyRequest_schema = JObj
     [(''type'', JStr ''object''),
      (''properties'', JObj
        [(''amount_of_employees'', typed ''integer''), (''description'', typed ''string''),
         (''id'', typed ''string''), (''name'', typed ''string''),
         (''registered'', typed ''boolean''), (''type'', typed ''string'')])]"

definition errorResponse_schema :: json where
  "errorResponse_schema = JObj
     [(''type'', JStr ''object''),
      (''properties'', JObj [(''error'', typed ''string''), (''fields'', string_map_schema)])]"

definition patchCompanyRequest_schema :: json where
  "patchCompanyRequest_schema = JObj
     [(''type'', JStr ''object''),
      (''properties'', JObj
        [(''amount_of_employees'', typed ''integer''), (''description'', typed ''string''),
         (''name'', typed ''string''), (''registered'', typed ''boolean''),
         (''type'', typed ''string'')])]"

definition docs_definitions :: json where
  "docs_definitions = JObj
     [(''http.companyResponse'', companyResponse_schema),
      (''http.createCompanyRequest'', createCompanyRequest_schema),
      (''http.errorResponse'', errorResponse_schema),
      (''http.patchCompanyRequest'', patchCompanyRequest_schema)]"

definition docs_securityDefinitions :: json where
  "docs_securityDefinitions = JObj
     [(''BearerAuth'', JObj
        [(''description'', JStr (''Type '' @ [CHR 0x22] @ ''Bearer'' @ [CHR 0x22]
           @ '' followed by a space and a JWT token.'')),
         (''type'', JStr ''apiKey''), (''name'', JStr ''Authorization''), (''in'', JStr ''header'')])]"

subsection \<open>The document\<close>

definition docTemplate :: "swag_info \<Rightarrow> json" where
  "docTemplate info = JObj
     [(''schemes'', JArr (map JStr (sw_Schemes info))),
      (''swagger'', JStr ''2.0''),
      (''info'', JObj
        [(''description'', JStr (sw_Description info)), (''title'', JStr (sw_Title info)),
         (''contact'', JObj []), (''version'', JStr (sw_Version info))]),
      (''host'', JStr (sw_Host info)),
      (''basePath'', JStr (sw_BasePath info)),
      (''paths'', docs_paths),
      (''definitions'', docs_definitions),
      (''securityDefinitions'', docs_securityDefinitions)]"

definition SwaggerInfo :: swag_spec where
  "SwaggerInfo = \<lparr>sw_Version = ''1.0'', sw_Host = ''localhost:8080'', sw_BasePath = ''/'',
     sw_Schemes = [''http''], sw_Title = ''Company Service API'',
     sw_Description = ''REST API for managing companies.'', sw_InfoInstanceName = ''swagger'',
     sw_LeftDelim = ''{{'', sw_RightDelim = ''}}'', sw_SwaggerTemplate = docTemplate\<rparr>"

text \<open>
  \<^verbatim>\<open>init\<close> puts the specification into the registry of \<^verbatim>\<open>swag\<close>, from where the documentation handler
  takes it; the registry and the name of an instance belong to the library.
\<close>

definition docs_init ::
    "(swag_spec \<Rightarrow> string) \<Rightarrow> (string \<Rightarrow> swag_spec \<Rightarrow> 'w \<Rightarrow> 'w) \<Rightarrow> 'w \<Rightarrow> 'w" where
  "docs_init InstanceName Register w = Register (InstanceName SwaggerInfo) SwaggerInfo w"

definition api_document :: json where
  "api_document = sw_SwaggerTemplate SwaggerInfo (swag_info.truncate SwaggerInfo)"

section \<open>Reading a document\<close>

fun jfield :: "string \<Rightarrow> json \<Rightarrow> json option" where
  "jfield k (JObj kvs) = map_of kvs k"
| "jfield k _ = None"

fun jentries :: "json \<Rightarrow> (string \<times> json) list" where
  "jentries (JObj kvs) = kvs"
| "jentries _ = []"

fun jitems :: "json \<Rightarrow> json list" where
  "jitems (JArr xs) = xs"
| "jitems _ = []"

fun jstring :: "json \<Rightarrow> string option" where
  "jstring (JStr s) = Some s"
| "jstring _ = None"

definition jpath :: "string \<Rightarrow> string \<Rightarrow> json \<Rightarrow> json option" where
  "jpath k k' j = Option.bind (jfield k j) (jfield k')"

subsection \<open>Operations\<close>

text \<open>
  The operations of a document: under each path one for each verb.  The path of an operation is
  relative to the base path.
\<close>

definition swagger_verbs :: "(string \<times> string) list" where
  "swagger_verbs =
     [(''get'', ''GET''), (''put'', ''PUT''), (''post'', ''POST''), (''delete'', ''DELETE''),
      (''options'', ''OPTIONS''), (''head'', ''HEAD''), (''patch'', ''PATCH'')]"

definition full_path :: "json \<Rightarrow> string \<Rightarrow> string" where
  "full_path doc path =
     (case Option.bind (jfield ''basePath'' doc) jstring of
        None \<Rightarrow> path | Some base \<Rightarrow> (if base = ''/'' then path else base @ path))"

definition path_operations :: "json \<Rightarrow> string \<Rightarrow> json \<Rightarrow> ((string \<times> string) \<times> json) list" where
  "path_operations doc path item =
     concat (map (\<lambda>(verb, op).
       case map_of swagger_verbs verb of None \<Rightarrow> [] | Some m \<Rightarrow> [((m, full_path doc path), op)])
       (jentries item))"

definition documented_operations :: "json \<Rightarrow> ((string \<times> string) \<times> json) list" where
  "documented_operations doc =
     (case jfield ''paths'' doc of
        None \<Rightarrow> []
      | Some paths \<Rightarrow> concat (map (\<lambda>(path, item). path_operations doc path item) (jentries paths)))"

definition documented_op :: "json \<Rightarrow> string \<Rightarrow> string \<Rightarrow> json option" where
  "documented_op doc verb path = map_of (documented_operations doc) (verb, path)"

text \<open>An operation is secured by a token when it asks for a scheme that reads the given header.\<close>

definition security_schemes :: "json \<Rightarrow> string list" where
  "security_schemes op =
     (case jfield ''security'' op of
        None \<Rightarrow> [] | Some s \<Rightarrow> map fst (concat (map jentries (jitems s))))"

definition key_header :: "json \<Rightarrow> string \<Rightarrow> string option" where
  "key_header doc scheme =
     (case jpath ''securityDefinitions'' scheme doc of
        None \<Rightarrow> None
      | Some s \<Rightarrow>
          if jfield ''type'' s = Some (JStr ''apiKey'') \<and> jfield ''in'' s = Some (JStr ''header'')
          then Option.bind (jfield ''name'' s) jstring else None)"

definition secured_by :: "json \<Rightarrow> string \<Rightarrow> json \<Rightarrow> bool" where
  "secured_by doc header op \<longleftrightarrow>
     list_ex (\<lambda>scheme. key_header doc scheme = Some header) (security_schemes op)"

text \<open>The response of an operation to a status; the keys are decimal numbers.\<close>

fun Itoa :: "nat \<Rightarrow> string" where
  "Itoa n =
     (if n < 10 then [''0123456789'' ! n] else Itoa (n div 10) @ [''0123456789'' ! (n mod 10)])"

declare Itoa.simps [simp del]

definition documented_response :: "json \<Rightarrow> nat \<Rightarrow> json option" where
  "documented_response op status = jpath ''responses'' (Itoa status) op"

subsection \<open>Schemas\<close>

text \<open>A reference stands for the definition it names.\<close>

definition deref :: "json \<Rightarrow> json \<Rightarrow> json option" where
  "deref doc schema =
     (case jfield ''$ref'' schema of
        None \<Rightarrow> Some schema
      | Some ref \<Rightarrow>
          (case (jstring ref, jfield ''definitions'' doc) of
             (Some r, Some ds) \<Rightarrow>
               map_of (map (\<lambda>(name, s). (''#/definitions/'' @ name, s)) (jentries ds)) r
           | _ \<Rightarrow> None))"

definition schema_type :: "json \<Rightarrow> json \<Rightarrow> string option" where
  "schema_type doc schema =
     Option.bind (deref doc schema) (\<lambda>s. Option.bind (jfield ''type'' s) jstring)"

definition item_schema :: "json \<Rightarrow> json \<Rightarrow> json option" where
  "item_schema doc schema = Option.bind (deref doc schema) (jfield ''items'')"

text \<open>
  The schema of a field of an object: the one of the property with that name, or else the one for
  additional properties.  A field with neither is not documented.
\<close>

definition property_schema :: "json \<Rightarrow> json \<Rightarrow> string \<Rightarrow> json option" where
  "property_schema doc schema k =
     Option.bind (deref doc schema) (\<lambda>s.
       case jpath ''properties'' k s of
         None \<Rightarrow> jfield ''additionalProperties'' s | Some p \<Rightarrow> Some p)"

text \<open>The names of the properties.\<close>

definition property_names :: "json \<Rightarrow> json \<Rightarrow> string list" where
  "property_names doc schema =
     (case Option.bind (deref doc schema) (jfield ''properties'') of
        None \<Rightarrow> [] | Some ps \<Rightarrow> map fst (jentries ps))"

text \<open>
  A value conforms to a schema when it is of the schema's type, instants being strings; an object,
  when all its fields are documented and conform; an array, when its items do.  Documented null
  values do not exist in this version of Swagger.
\<close>

fun conforms :: "json \<Rightarrow> json \<Rightarrow> json \<Rightarrow> bool" where
  "conforms doc schema JNull \<longleftrightarrow> False"
| "conforms doc schema (JBool b) \<longleftrightarrow> schema_type doc schema = Some ''boolean''"
| "conforms doc schema (JInt n) \<longleftrightarrow> schema_type doc schema \<in> {Some ''integer'', Some ''number''}"
| "conforms doc schema (JFrac s) \<longleftrightarrow> schema_type doc schema = Some ''number''"
| "conforms doc schema (JStr s) \<longleftrightarrow> schema_type doc schema = Some ''string''"
| "conforms doc schema (JTime t) \<longleftrightarrow> schema_type doc schema = Some ''string''"
| "conforms doc schema (JArr xs) \<longleftrightarrow> schema_type doc schema = Some ''array''
     \<and> (case item_schema doc schema of None \<Rightarrow> False | Some s \<Rightarrow> \<forall>x\<in>set xs. conforms doc s x)"
| "conforms doc schema (JObj kvs) \<longleftrightarrow> schema_type doc schema = Some ''object''
     \<and> (\<forall>kv\<in>set kvs. case property_schema doc schema (fst kv) of
            None \<Rightarrow> False | Some s \<Rightarrow> conforms doc s (snd kv))"

end
