(* ===== verification/Documented.thy ===== *)
theory Documented
  imports Docs HttpRouter HttpPromises
begin

text \<open>
  The service against its documentation: the routes that exist are the documented ones, what they
  answer is documented, and the request bodies they accept are the documented ones.
\<close>

subsection \<open>The document, looked up\<close>

lemmas api_parts = api_document_def SwaggerInfo_def swag_info.truncate_def docTemplate_def

lemma api_fields [simp]:
  "jfield ''basePath'' api_document = Some (JStr ''/'')"
  "jfield ''paths'' api_document = Some docs_paths"
  "jfield ''definitions'' api_document = Some docs_definitions"
  "jfield ''securityDefinitions'' api_document = Some docs_securityDefinitions"
  by (simp_all add: api_parts)

lemma api_operations:
  "documented_operations api_document =
     [((''POST'', ''/companies''), post_companies_doc),
      ((''GET'', ''/companies/{id}''), get_company_doc),
      ((''DELETE'', ''/companies/{id}''), delete_company_doc),
      ((''PATCH'', ''/companies/{id}''), patch_company_doc),
      ((''GET'', ''/healthz''), healthz_doc), ((''GET'', ''/readyz''), readyz_doc)]"
  by (simp add: documented_operations_def path_operations_def docs_paths_def swagger_verbs_def
      full_path_def)

lemma api_op [simp]:
  "documented_op api_document ''POST'' ''/companies'' = Some post_companies_doc"
  "documented_op api_document ''GET'' ''/companies/{id}'' = Some get_company_doc"
  "documented_op api_document ''DELETE'' ''/companies/{id}'' = Some delete_company_doc"
  "documented_op api_document ''PATCH'' ''/companies/{id}'' = Some patch_company_doc"
  "documented_op api_document ''GET'' ''/healthz'' = Some healthz_doc"
  "documented_op api_document ''GET'' ''/readyz'' = Some readyz_doc"
  "documented_op api_document ''GET'' ''/swagger/*'' = None"
  by (simp_all add: documented_op_def api_operations)

lemma Itoa_status [simp]:
  "Itoa 200 = ''200''" "Itoa 201 = ''201''" "Itoa 204 = ''204''" "Itoa 400 = ''400''"
  "Itoa 401 = ''401''" "Itoa 404 = ''404''" "Itoa 409 = ''409''" "Itoa 500 = ''500''"
  "Itoa 503 = ''503''"
  by (simp_all add: Itoa.simps [of "_ :: nat"])

lemma bearer_header: "key_header api_document ''BearerAuth'' = Some ''Authorization''"
  by (simp add: key_header_def jpath_def docs_securityDefinitions_def)

lemma api_secured [simp]:
  "secured_by api_document ''Authorization'' post_companies_doc"
  "secured_by api_document ''Authorization'' delete_company_doc"
  "secured_by api_document ''Authorization'' patch_company_doc"
  "\<not> secured_by api_document ''Authorization'' get_company_doc"
  "\<not> secured_by api_document ''Authorization'' healthz_doc"
  "\<not> secured_by api_document ''Authorization'' readyz_doc"
  by (simp_all add: secured_by_def security_schemes_def bearer_security_def bearer_header
      post_companies_doc_def delete_company_doc_def patch_company_doc_def get_company_doc_def
      healthz_doc_def readyz_doc_def)

lemma api_responses [simp]:
  "documented_response post_companies_doc 201
     = Some (response_doc ''Created'' (schema_ref ''http.companyResponse''))"
  "documented_response get_company_doc 200
     = Some (response_doc ''OK'' (schema_ref ''http.companyResponse''))"
  "documented_response patch_company_doc 200
     = Some (response_doc ''OK'' (schema_ref ''http.companyResponse''))"
  "documented_response delete_company_doc 204 = Some (JObj [(''description'', JStr ''No Content'')])"
  "documented_response healthz_doc 200 = Some (response_doc ''OK'' string_map_schema)"
  "documented_response readyz_doc 200 = Some (response_doc ''OK'' string_map_schema)"
  "documented_response readyz_doc 503 = Some (error_doc ''Service Unavailable'')"
  by (simp_all add: documented_response_def jpath_def post_companies_doc_def get_company_doc_def
      patch_company_doc_def delete_company_doc_def healthz_doc_def readyz_doc_def)

lemma api_errors:
  "st \<in> {400, 401, 409, 500} \<Longrightarrow> \<exists>d. documented_response post_companies_doc st = Some (error_doc d)"
  "st \<in> {400, 404, 500} \<Longrightarrow> \<exists>d. documented_response get_company_doc st = Some (error_doc d)"
  "st \<in> {400, 401, 404, 500} \<Longrightarrow> \<exists>d. documented_response delete_company_doc st = Some (error_doc d)"
  "st \<in> {400, 401, 404, 409, 500} \<Longrightarrow> \<exists>d. documented_response patch_company_doc st = Some (error_doc d)"
  by (auto simp: documented_response_def jpath_def post_companies_doc_def get_company_doc_def
      patch_company_doc_def delete_company_doc_def)

subsection \<open>The schemas, looked up\<close>

lemma deref_simps [simp]:
  "deref api_document (schema_ref ''http.companyResponse'') = Some companyResponse_schema"
  "deref api_document (schema_ref ''http.createCompanyRequest'') = Some createCompanyRequest_schema"
  "deref api_document (schema_ref ''http.errorResponse'') = Some errorResponse_schema"
  "deref api_document (schema_ref ''http.patchCompanyRequest'') = Some patchCompanyRequest_schema"
  "deref api_document (typed t) = Some (typed t)"
  "deref api_document string_map_schema = Some string_map_schema"
  by (simp_all add: deref_def schema_ref_def docs_definitions_def typed_def string_map_schema_def)

lemmas schema_parts = schema_type_def property_schema_def jpath_def
  companyResponse_schema_def createCompanyRequest_schema_def errorResponse_schema_def
  patchCompanyRequest_schema_def

lemma typed_fields [simp]:
  "jfield ''type'' (typed t) = Some (JStr t)"
  by (simp add: typed_def)

lemma typed_conforms [simp]:
  "schema_type api_document (typed t) = Some t"
  by (simp add: schema_type_def)

lemma string_map_conforms:
  "list_all (\<lambda>kv. \<exists>s. snd kv = JStr s) kvs \<Longrightarrow> conforms api_document string_map_schema (JObj kvs)"
  by (auto simp: schema_type_def property_schema_def list_all_iff)
    (auto simp: string_map_schema_def jpath_def split: option.split)

lemma error_conforms:
  assumes "encode_error er = Inr doc"
  shows "conforms api_document (schema_ref ''http.errorResponse'') doc"
proof -
  have "conforms api_document string_map_schema (encode_fields (er_Fields er))"
    by (auto simp del: conforms.simps simp: encode_fields_def list_all_iff intro!: string_map_conforms)
  with assms show ?thesis by (auto simp: encode_error_def schema_parts)
qed

lemma company_conforms:
  assumes "encode_company re = Inr doc"
  shows "conforms api_document (schema_ref ''http.companyResponse'') doc"
  using assms by (auto simp: encode_company_def marshal_time_def schema_parts split: if_splits)

subsection \<open>Documented answers\<close>

text \<open>
  An answer is documented when its status is, and it has one body, of the documented type, that
  conforms to the documented schema; a response without a schema has no body.
\<close>

definition answer_documented :: "json \<Rightarrow> json \<Rightarrow> writer \<Rightarrow> bool" where
  "answer_documented doc op wr \<longleftrightarrow>
     (case Option.bind (status_sent wr) (documented_response op) of
        None \<Rightarrow> False
      | Some response \<Rightarrow>
          (case jfield ''schema'' response of
             None \<Rightarrow> body_sent wr = []
           | Some schema \<Rightarrow>
               (\<exists>body. body_sent wr = [body] \<and> conforms doc schema body)
               \<and> (case jfield ''produces'' op of
                    None \<Rightarrow> False | Some types \<Rightarrow> JStr (content_type wr) \<in> set (jitems types))))"

definition error_answer :: "nat \<Rightarrow> writer \<Rightarrow> bool" where
  "error_answer st wr \<longleftrightarrow> 400 \<le> st \<and> (\<exists>er. wr = writeJSON st (Some (encode_error er)) fresh_writer)"

definition company_answer :: "nat \<Rightarrow> writer \<Rightarrow> bool" where
  "company_answer st wr \<longleftrightarrow> (\<exists>re. wr = writeJSON st (Some (encode_company re)) fresh_writer)"

lemma content_type_writeJSON [simp]: "content_type (writeJSON st v wr) = ''application/json''"
  by (auto simp: writeJSON_def WriteHeader_def Let_def split: option.split sum.split)

lemma encode_error_Inr: "\<exists>doc. encode_error er = Inr doc"
  by (simp add: encode_error_def)

lemma error_documented:
  assumes "error_answer st wr" and "documented_response op st = Some (error_doc d)"
    and "jfield ''produces'' op = Some application_json"
  shows "answer_documented api_document op wr"
proof -
  from assms(1) obtain er where wr: "wr = writeJSON st (Some (encode_error er)) fresh_writer"
    by (auto simp: error_answer_def)
  from encode_error_Inr obtain doc where "encode_error er = Inr doc" by blast
  with wr assms(2,3) error_conforms [of er doc] show ?thesis
    by (auto simp: answer_documented_def error_doc_def response_doc_def application_json_def
        simp del: conforms.simps)
qed

lemma company_documented:
  assumes "company_answer st wr" and "body_sent wr \<noteq> []"
    and "documented_response op st = Some (response_doc d (schema_ref ''http.companyResponse''))"
    and "jfield ''produces'' op = Some application_json"
  shows "answer_documented api_document op wr"
  using assms company_conforms
  by (auto simp: company_answer_def answer_documented_def response_doc_def
      application_json_def split: sum.splits)

lemma api_produces [simp]:
  "jfield ''produces'' post_companies_doc = Some application_json"
  "jfield ''produces'' get_company_doc = Some application_json"
  "jfield ''produces'' delete_company_doc = Some application_json"
  "jfield ''produces'' patch_company_doc = Some application_json"
  "jfield ''produces'' healthz_doc = Some application_json"
  "jfield ''produces'' readyz_doc = Some application_json"
  by (simp_all add: post_companies_doc_def get_company_doc_def delete_company_doc_def
      patch_company_doc_def healthz_doc_def readyz_doc_def)

subsection \<open>What the handlers write\<close>

lemma error_answers [simp]:
  "400 \<le> st \<Longrightarrow> error_answer st (writeJSON st (error_message msg) fresh_writer)"
  "error_answer (appErrorStatus err) (writeAppError err fresh_writer)"
proof -
  have encoded: "error_answer st (writeJSON st (Some (encode_error er)) fresh_writer)"
    if "400 \<le> st" for st er
    using that by (auto simp: error_answer_def)
  then show "400 \<le> st \<Longrightarrow> error_answer st (writeJSON st (error_message msg) fresh_writer)"
    by (simp add: error_message_def)
  with encoded show "error_answer (appErrorStatus err) (writeAppError err fresh_writer)"
    by (simp add: writeAppError_def appErrorStatus_def error_message_def split: option.split)
qed

lemma create_writes:
  "Handler_CreateCompany lib rt s r fresh_writer w = (wr, w') \<Longrightarrow>
   (\<exists>st. error_answer st wr) \<or> company_answer 201 wr"
  by (auto simp: Handler_CreateCompany_def company_answer_def intro: error_answers
      split: sum.splits prod.splits)

lemma patch_writes:
  "Handler_PatchCompany lib rt s r fresh_writer w = (wr, w') \<Longrightarrow>
   (\<exists>st. error_answer st wr) \<or> company_answer 200 wr"
  by (auto simp: Handler_PatchCompany_def company_answer_def parseID_def intro: error_answers
      split: sum.splits prod.splits)

lemma get_writes:
  "Handler_GetCompany lib s r fresh_writer w = (wr, w') \<Longrightarrow>
   (\<exists>st. error_answer st wr) \<or> company_answer 200 wr"
  by (auto simp: Handler_GetCompany_def company_answer_def parseID_def intro: error_answers
      split: sum.splits prod.splits)

lemma delete_writes:
  "Handler_DeleteCompany lib s r fresh_writer w = (wr, w') \<Longrightarrow>
   (\<exists>st. error_answer st wr) \<or> wr = WriteHeader 204 fresh_writer"
  by (auto simp: Handler_DeleteCompany_def parseID_def intro: error_answers
      split: sum.splits prod.splits option.splits)

lemma answer_status:
  "error_answer st wr \<Longrightarrow> status_sent wr = Some st \<and> 400 \<le> st"
  "company_answer st wr \<Longrightarrow> status_sent wr = Some st"
  by (auto simp: error_answer_def company_answer_def)

subsection \<open>The routes\<close>

lemma error_answer_documented:
  assumes "error_answer st' wr" and "status_sent wr = Some st" and "st \<in> insert ok errs" and "ok < 400"
    and "\<And>st. st \<in> errs \<Longrightarrow> \<exists>d. documented_response op st = Some (error_doc d)"
    and "jfield ''produces'' op = Some application_json"
  shows "answer_documented api_document op wr"
proof -
  from answer_status(1) [OF assms(1)] assms(2) have st: "st' = st" "400 \<le> st" by auto
  with assms(3,4) have "st \<in> errs" by auto
  with assms(5) obtain d where "documented_response op st = Some (error_doc d)" by blast
  with assms(1) st(1) assms(6) show ?thesis by (simp add: error_documented)
qed

lemma create_documented:
  assumes sys: "service_database pg tables now outside lib rt"
    and led: "ledger_view lib tables Background w = Some l"
    and run: "Handler_CreateCompany lib rt (postgres_service lib pg rt) r fresh_writer w = (wr, w')"
  shows "answer_documented api_document post_companies_doc wr"
proof -
  from post_handler_answer [OF assms] obtain st where st: "status_sent wr = Some st"
    "st \<in> {201, 400, 409, 500}" and one: "body_sent wr \<noteq> []" by (auto elim: post_answer.cases)
  have "(\<exists>st. error_answer st wr) \<or> company_answer 201 wr"
    using create_writes [OF run] .
  then show ?thesis
  proof
    assume "\<exists>st. error_answer st wr"
    then obtain st' where "error_answer st' wr" by blast
    then show ?thesis by (rule error_answer_documented [OF _ st]) (auto intro!: api_errors(1))
  qed (use one in \<open>auto intro: company_documented\<close>)
qed

lemma patch_documented:
  assumes sys: "service_database pg tables now outside lib rt"
    and led: "ledger_view lib tables Background w = Some l"
    and run: "Handler_PatchCompany lib rt (postgres_service lib pg rt) r fresh_writer w = (wr, w')"
  shows "answer_documented api_document patch_company_doc wr"
proof -
  from patch_handler_answer [OF assms] obtain st where st: "status_sent wr = Some st"
    "st \<in> {200, 400, 404, 409, 500}" and one: "body_sent wr \<noteq> []" by (auto elim: patch_answer.cases)
  have "(\<exists>st. error_answer st wr) \<or> company_answer 200 wr"
    using patch_writes [OF run] .
  then show ?thesis
  proof
    assume "\<exists>st. error_answer st wr"
    then obtain st' where "error_answer st' wr" by blast
    then show ?thesis by (rule error_answer_documented [OF _ st]) (auto intro!: api_errors(4))
  qed (use one in \<open>auto intro: company_documented\<close>)
qed

lemma get_documented:
  assumes sys: "service_database pg tables now outside lib rt"
    and led: "ledger_view lib tables Background w = Some l" and complete: "events_complete l"
    and run: "Handler_GetCompany lib (postgres_service lib pg rt) r fresh_writer w = (wr, w')"
  shows "answer_documented api_document get_company_doc wr"
proof -
  from get_handler_answer [OF assms] obtain st where st: "status_sent wr = Some st"
    "st \<in> {200, 400, 404, 500}" and one: "body_sent wr \<noteq> []" by (auto elim: get_answer.cases)
  have "(\<exists>st. error_answer st wr) \<or> company_answer 200 wr"
    using get_writes [OF run] .
  then show ?thesis
  proof
    assume "\<exists>st. error_answer st wr"
    then obtain st' where "error_answer st' wr" by blast
    then show ?thesis by (rule error_answer_documented [OF _ st]) (auto intro!: api_errors(2))
  qed (use one in \<open>auto intro: company_documented\<close>)
qed

lemma delete_documented:
  assumes sys: "service_database pg tables now outside lib rt"
    and led: "ledger_view lib tables Background w = Some l"
    and run: "Handler_DeleteCompany lib (postgres_service lib pg rt) r fresh_writer w = (wr, w')"
  shows "answer_documented api_document delete_company_doc wr"
proof -
  from delete_handler_outcome [OF assms] obtain st where st: "status_sent wr = Some st"
    "st \<in> {204, 400, 404, 500}" by blast
  have empty: "answer_documented api_document delete_company_doc (WriteHeader 204 fresh_writer)"
    by (simp add: answer_documented_def WriteHeader_def fresh_writer_def)
  have "(\<exists>st. error_answer st wr) \<or> wr = WriteHeader 204 fresh_writer"
    using delete_writes [OF run] .
  then show ?thesis
  proof
    assume "\<exists>st. error_answer st wr"
    then obtain st' where "error_answer st' wr" by blast
    then show ?thesis by (rule error_answer_documented [OF _ st]) (auto intro!: api_errors(3))
  qed (simp add: empty)
qed

lemma AuthMiddleware_documented:
  assumes auth: "AuthMiddleware v h r fresh_writer w = (wr, w')"
    and "documented_response op 401 = Some (error_doc d)"
    and "jfield ''produces'' op = Some application_json"
    and inner: "\<And>w1. w1 = snd (tv_Validate v (bearerToken (r_Authorization r)) w) \<Longrightarrow>
      h r fresh_writer w1 = (wr, w') \<Longrightarrow> answer_documented api_document op wr"
  shows "answer_documented api_document op wr"
proof (cases "\<exists>w1. w1 = snd (tv_Validate v (bearerToken (r_Authorization r)) w)
    \<and> h r fresh_writer w1 = (wr, w')")
  case False
  with auth have "error_answer 401 wr"
    by (auto simp: AuthMiddleware_def Let_def split: if_splits prod.splits sum.splits)
  with assms(2,3) show ?thesis by (blast intro: error_documented)
qed (use inner in blast)

lemma api_unauthorized [simp]:
  "documented_response post_companies_doc 401 = Some (error_doc ''Unauthorized'')"
  "documented_response patch_company_doc 401 = Some (error_doc ''Unauthorized'')"
  "documented_response delete_company_doc 401 = Some (error_doc ''Unauthorized'')"
  by (simp_all add: documented_response_def jpath_def post_companies_doc_def patch_company_doc_def
      delete_company_doc_def)

lemma status_ok_documented:
  assumes "documented_response op 200 = Some (response_doc d string_map_schema)"
    and "jfield ''produces'' op = Some application_json"
  shows "answer_documented api_document op (writeJSON 200 status_ok fresh_writer)"
proof -
  have "conforms api_document string_map_schema (JObj [(''status'', JStr ''ok'')])"
    by (rule string_map_conforms) simp
  with assms show ?thesis
    by (simp add: answer_documented_def response_doc_def status_ok_def application_json_def
        del: conforms.simps)
qed

lemma readyz_documented:
  "answer_documented api_document readyz_doc (fst (readyz ready r fresh_writer w))"
  by (auto simp: readyz_def intro: status_ok_documented
      error_documented [where st = 503]
      split: prod.split option.split)

text \<open>The routes of the router, one by one.\<close>

lemma router_route_cases:
  assumes "route \<in> set (router_routes lib rt swagger s v ready)"
  obtains
    (documentation) "route = \<lparr>rt_Method = ''GET'', rt_Pattern = ''/swagger/*'',
      rt_Handler = swagger\<rparr>"
  | (health) "route = \<lparr>rt_Method = ''GET'', rt_Pattern = ''/healthz'',
      rt_Handler = healthz\<rparr>"
  | (readiness) "route = \<lparr>rt_Method = ''GET'', rt_Pattern = ''/readyz'',
      rt_Handler = readyz ready\<rparr>"
  | (get) "route = \<lparr>rt_Method = ''GET'', rt_Pattern = ''/companies/{id}'',
      rt_Handler = Handler_GetCompany lib s\<rparr>"
  | (create) "route = \<lparr>rt_Method = ''POST'', rt_Pattern = ''/companies'',
      rt_Handler = AuthMiddleware v (Handler_CreateCompany lib rt s)\<rparr>"
  | (patch) "route = \<lparr>rt_Method = ''PATCH'', rt_Pattern = ''/companies/{id}'',
      rt_Handler = AuthMiddleware v (Handler_PatchCompany lib rt s)\<rparr>"
  | (delete) "route = \<lparr>rt_Method = ''DELETE'', rt_Pattern = ''/companies/{id}'',
      rt_Handler = AuthMiddleware v (Handler_DeleteCompany lib s)\<rparr>"
proof -
  from assms have "route = \<lparr>rt_Method = ''GET'', rt_Pattern = ''/swagger/*'',
      rt_Handler = swagger\<rparr>
    \<or> route = \<lparr>rt_Method = ''GET'', rt_Pattern = ''/healthz'',
      rt_Handler = healthz\<rparr>
    \<or> route = \<lparr>rt_Method = ''GET'', rt_Pattern = ''/readyz'',
      rt_Handler = readyz ready\<rparr>
    \<or> route = \<lparr>rt_Method = ''GET'', rt_Pattern = ''/companies/{id}'',
      rt_Handler = Handler_GetCompany lib s\<rparr>
    \<or> route = \<lparr>rt_Method = ''POST'', rt_Pattern = ''/companies'',
      rt_Handler = AuthMiddleware v (Handler_CreateCompany lib rt s)\<rparr>
    \<or> route = \<lparr>rt_Method = ''PATCH'', rt_Pattern = ''/companies/{id}'',
      rt_Handler = AuthMiddleware v (Handler_PatchCompany lib rt s)\<rparr>
    \<or> route = \<lparr>rt_Method = ''DELETE'', rt_Pattern = ''/companies/{id}'',
      rt_Handler = AuthMiddleware v (Handler_DeleteCompany lib s)\<rparr>"
    by (simp add: router_routes_def)
  then show thesis by (elim disjE) (erule that)+
qed

text \<open>A route behind the authentication: its handler runs, if at all, on the same ledger.\<close>

lemma guarded_documented:
  assumes validator: "\<forall>token. ledger_view lib tables Background (snd (tv_Validate v token w)) = Some l"
    and "AuthMiddleware v h r fresh_writer w = (wr, w')"
    and "documented_response op 401 = Some (error_doc d)"
    and "jfield ''produces'' op = Some application_json"
    and "\<And>w1. ledger_view lib tables Background w1 = Some l \<Longrightarrow>
      h r fresh_writer w1 = (wr, w') \<Longrightarrow> answer_documented api_document op wr"
  shows "answer_documented api_document op wr"
  using assms(2-4) by (rule AuthMiddleware_documented) (use validator assms(5) in auto)

text \<open>
  Property C18: the service answers as documented.  Whatever a request holds, what a route of the
  program answers (the documentation page apart) is a response that the API documentation has for
  the method and the path of the route: the status is listed there, and where the documentation has a
  schema for it there is exactly one body, of the documented media type, with documented fields only,
  each of them of the documented type; otherwise there is none.  (The database keeps its contract, the
  events tell the whole story, as they do in every reachable state, and the validator of the tokens
  leaves the ledger alone.)
\<close>

theorem answers_are_documented:
  assumes sys: "service_database pg tables now outside lib rt"
    and led: "ledger_view lib tables Background w = Some l" and complete: "events_complete l"
    and validator: "\<forall>token. ledger_view lib tables Background (snd (tv_Validate v token w)) = Some l"
    and route: "route \<in> set (router_routes lib rt swagger (postgres_service lib pg rt) v ready)"
      "rt_Pattern route \<noteq> ''/swagger/*''"
    and run: "rt_Handler route r fresh_writer w = (wr, w')"
  shows "\<exists>op. documented_op api_document (rt_Method route) (rt_Pattern route) = Some op
    \<and> answer_documented api_document op wr"
proof -
  let ?s = "postgres_service lib pg rt"
  note auth = guarded_documented [OF validator]
  from route(1) show ?thesis
  proof (cases rule: router_route_cases)
    case documentation
    with route(2) show ?thesis by simp
  next
    case health
    with run show ?thesis by (auto simp: healthz_def intro: status_ok_documented)
  next
    case readiness
    with run show ?thesis using readyz_documented [of ready r w] by simp
  next
    case get
    with run get_documented [OF sys led complete] show ?thesis by simp
  next
    case create
    with run have "AuthMiddleware v (Handler_CreateCompany lib rt ?s) r fresh_writer w = (wr, w')" by simp
    then have "answer_documented api_document post_companies_doc wr"
      by (rule auth) (use create_documented [OF sys] in auto)
    with create show ?thesis by simp
  next
    case patch
    with run have "AuthMiddleware v (Handler_PatchCompany lib rt ?s) r fresh_writer w = (wr, w')" by simp
    then have "answer_documented api_document patch_company_doc wr"
      by (rule auth) (use patch_documented [OF sys] in auto)
    with patch show ?thesis by simp
  next
    case delete
    with run have "AuthMiddleware v (Handler_DeleteCompany lib ?s) r fresh_writer w = (wr, w')" by simp
    then have "answer_documented api_document delete_company_doc wr"
      by (rule auth) (use delete_documented [OF sys] in auto)
    with delete show ?thesis by simp
  qed
qed

theorem answers_are_documented_witness:
  "\<exists>wr w'. AuthMiddleware accept_all
      (Handler_CreateCompany canonical_uuids world_runtime world_service) acme_http fresh_writer
      acme_world = (wr, w')
    \<and> answer_documented api_document post_companies_doc wr"
proof -
  let ?h = "AuthMiddleware accept_all
    (Handler_CreateCompany canonical_uuids world_runtime world_service)"
  let ?route = "\<lparr>rt_Method = ''POST'', rt_Pattern = ''/companies'', rt_Handler = ?h\<rparr>"
  obtain wr w' where run: "?h acme_http fresh_writer acme_world = (wr, w')" by fastforce
  have validator: "\<forall>token. ledger_view canonical_uuids server_tables Background
      (snd (tv_Validate accept_all token acme_world)) = Some acme_ledger"
    by (simp add: accept_all_def)
  have route: "?route \<in> set (router_routes canonical_uuids world_runtime healthz world_service
      accept_all always_ready)" "rt_Pattern ?route \<noteq> ''/swagger/*''"
    by (simp_all add: router_routes_def)
  have "rt_Handler ?route acme_http fresh_writer acme_world = (wr, w')" using run by simp
  from answers_are_documented [OF reference_service acme_view acme_complete validator route this] run
  show ?thesis by simp
qed

subsection \<open>Documented operations\<close>

lemma handlers_never_unauthorized:
  "status_sent (fst (healthz r fresh_writer w)) \<noteq> Some 401"
  "status_sent (fst (readyz ready r fresh_writer w)) \<noteq> Some 401"
  "status_sent (fst (Handler_GetCompany lib s r fresh_writer w)) \<noteq> Some 401"
  by (auto simp: healthz_def readyz_def Handler_GetCompany_def parseID_def appErrorStatus_def
      split: option.split sum.split prod.split)

lemma guarded_unauthorized:
  "bearerToken (r_Authorization r) = '''' \<Longrightarrow>
   AuthMiddleware v h r fresh_writer w
     = (writeJSON 401 (error_message ''missing bearer token'') fresh_writer, w)"
  by (simp add: AuthMiddleware_def)

text \<open>
  A route keeps to its documentation's security: an operation that asks for the token in the
  Authorization header refuses every request without a bearer token and does nothing; any other
  never answers 401.
\<close>

definition security_documented :: "json \<Rightarrow> 'w route \<Rightarrow> bool" where
  "security_documented doc route \<longleftrightarrow>
     (\<forall>op r w. documented_op doc (rt_Method route) (rt_Pattern route) = Some op \<longrightarrow>
        (if secured_by doc ''Authorization'' op
         then bearerToken (r_Authorization r) = '''' \<longrightarrow>
           rt_Handler route r fresh_writer w
             = (writeJSON 401 (error_message ''missing bearer token'') fresh_writer, w)
         else status_sent (fst (rt_Handler route r fresh_writer w)) \<noteq> Some 401))"

lemma router_security_documented:
  assumes "route \<in> set (router_routes lib rt swagger s v ready)"
  shows "security_documented api_document route"
  using assms
  by (cases rule: router_route_cases)
    (simp_all add: security_documented_def handlers_never_unauthorized guarded_unauthorized)

text \<open>
  Property C30: the documented operations are the routes.  Every documented method and path is a route
  of the router, and every route is documented, the documentation page apart.  An operation whose
  documentation asks for the token in the Authorization header refuses every request without a bearer
  token with 401 and does nothing; the others never answer 401.  This holds whatever the service, the
  validator and the readiness check are.
\<close>

theorem documented_operations_are_the_routes:
  "insert (''GET'', ''/swagger/*'') (fst ` set (documented_operations api_document))
     = (\<lambda>route. (rt_Method route, rt_Pattern route)) ` set (router_routes lib rt swagger s v ready)
   \<and> list_all (security_documented api_document) (router_routes lib rt swagger s v ready)"
  (is "?pairs \<and> ?security")
proof
  show ?security unfolding list_all_iff by (blast intro: router_security_documented)
  show ?pairs unfolding api_operations router_routes_def by (simp add: insert_commute)
qed

subsection \<open>Request bodies\<close>

text \<open>The schema of the body an operation asks for.\<close>

definition body_schema :: "json \<Rightarrow> json option" where
  "body_schema op =
     Option.bind (jfield ''parameters'' op) (\<lambda>ps.
       Option.bind (find (\<lambda>p. jfield ''in'' p = Some (JStr ''body'')) (jitems ps)) (jfield ''schema''))"

text \<open>
  A documented body of an operation: one JSON object, each property named once, that conforms to the
  schema.  Swagger's integers have no bounds; a client keeps to the numbers that a Go \<^verbatim>\<open>int\<close> can
  hold.  (In requests every string is a string: an instant is not a leaf of a request.)
\<close>

fun request_value :: "json \<Rightarrow> bool" where
  "request_value (JInt n) \<longleftrightarrow> is_go_int n"
| "request_value (JTime t) \<longleftrightarrow> False"
| "request_value _ \<longleftrightarrow> True"

definition documented_body :: "json \<Rightarrow> json \<Rightarrow> (string \<times> json) list \<Rightarrow> bool" where
  "documented_body doc op kvs \<longleftrightarrow>
     (case body_schema op of None \<Rightarrow> False | Some schema \<Rightarrow> conforms doc schema (JObj kvs))
     \<and> distinct (map fst kvs) \<and> (\<forall>v\<in>snd ` set kvs. request_value v)"

lemma api_body_schema [simp]:
  "body_schema post_companies_doc = Some (schema_ref ''http.createCompanyRequest'')"
  "body_schema patch_company_doc = Some (schema_ref ''http.patchCompanyRequest'')"
  by (simp_all add: body_schema_def post_companies_doc_def patch_company_doc_def body_parameter_def
      id_parameter_def)

lemma request_schema_types:
  "schema_type api_document (schema_ref ''http.createCompanyRequest'') = Some ''object''"
  "schema_type api_document (schema_ref ''http.patchCompanyRequest'') = Some ''object''"
  by (simp_all add: schema_parts)

lemma EqualFold_commute: "EqualFold a b \<longleftrightarrow> EqualFold b a"
  by (auto simp: EqualFold_def)

lemma request_keys_reversed [simp]:
  "EqualFold ''id'' ''name'' = False" "EqualFold ''id'' ''description'' = False"
  "EqualFold ''id'' ''amount_of_employees'' = False" "EqualFold ''id'' ''registered'' = False"
  "EqualFold ''id'' ''type'' = False" "EqualFold ''name'' ''description'' = False"
  "EqualFold ''name'' ''amount_of_employees'' = False" "EqualFold ''name'' ''registered'' = False"
  "EqualFold ''name'' ''type'' = False" "EqualFold ''description'' ''amount_of_employees'' = False"
  "EqualFold ''description'' ''registered'' = False" "EqualFold ''description'' ''type'' = False"
  "EqualFold ''amount_of_employees'' ''registered'' = False"
  "EqualFold ''amount_of_employees'' ''type'' = False" "EqualFold ''registered'' ''type'' = False"
  by (subst EqualFold_commute, simp)+

lemma request_properties [simp]:
  "property_names api_document (schema_ref ''http.createCompanyRequest'') =
     [''amount_of_employees'', ''description'', ''id'', ''name'', ''registered'', ''type'']"
  "property_names api_document (schema_ref ''http.patchCompanyRequest'') =
     [''amount_of_employees'', ''description'', ''name'', ''registered'', ''type'']"
  by (simp_all add: property_names_def createCompanyRequest_schema_def patchCompanyRequest_schema_def)

lemma request_property_schemas [simp]:
  "property_schema api_document (schema_ref ''http.createCompanyRequest'') ''amount_of_employees'' = Some (typed ''integer'')"
  "property_schema api_document (schema_ref ''http.createCompanyRequest'') ''description'' = Some (typed ''string'')"
  "property_schema api_document (schema_ref ''http.createCompanyRequest'') ''id'' = Some (typed ''string'')"
  "property_schema api_document (schema_ref ''http.createCompanyRequest'') ''name'' = Some (typed ''string'')"
  "property_schema api_document (schema_ref ''http.createCompanyRequest'') ''registered'' = Some (typed ''boolean'')"
  "property_schema api_document (schema_ref ''http.createCompanyRequest'') ''type'' = Some (typed ''string'')"
  "property_schema api_document (schema_ref ''http.patchCompanyRequest'') ''amount_of_employees'' = Some (typed ''integer'')"
  "property_schema api_document (schema_ref ''http.patchCompanyRequest'') ''description'' = Some (typed ''string'')"
  "property_schema api_document (schema_ref ''http.patchCompanyRequest'') ''name'' = Some (typed ''string'')"
  "property_schema api_document (schema_ref ''http.patchCompanyRequest'') ''registered'' = Some (typed ''boolean'')"
  "property_schema api_document (schema_ref ''http.patchCompanyRequest'') ''type'' = Some (typed ''string'')"
  by (simp_all add: property_schema_def jpath_def createCompanyRequest_schema_def patchCompanyRequest_schema_def)

text \<open>The entries that the two schemas allow.\<close>

lemma typed_values:
  "conforms api_document (typed ''string'') v \<Longrightarrow> request_value v \<Longrightarrow> \<exists>s. v = JStr s"
  "conforms api_document (typed ''integer'') v \<Longrightarrow> request_value v \<Longrightarrow> \<exists>n. v = JInt n \<and> is_go_int n"
  "conforms api_document (typed ''boolean'') v \<Longrightarrow> \<exists>b. v = JBool b"
  by (cases v; simp)+

definition text_entry :: "string set \<Rightarrow> string \<times> json \<Rightarrow> bool" where
  "text_entry names kv \<longleftrightarrow> fst kv \<in> names \<and> (\<exists>s. snd kv = JStr s)
     \<or> fst kv = ''amount_of_employees'' \<and> (\<exists>n. snd kv = JInt n \<and> is_go_int n)
     \<or> fst kv = ''registered'' \<and> (\<exists>b. snd kv = JBool b)"

lemma request_property_schema:
  "property_schema api_document (schema_ref ''http.createCompanyRequest'') k = Some sch \<Longrightarrow>
     k \<in> {''id'', ''name'', ''description'', ''type''} \<and> sch = typed ''string''
     \<or> k = ''amount_of_employees'' \<and> sch = typed ''integer''
     \<or> k = ''registered'' \<and> sch = typed ''boolean''"
  "property_schema api_document (schema_ref ''http.patchCompanyRequest'') k = Some sch \<Longrightarrow>
     k \<in> {''name'', ''description'', ''type''} \<and> sch = typed ''string''
     \<or> k = ''amount_of_employees'' \<and> sch = typed ''integer''
     \<or> k = ''registered'' \<and> sch = typed ''boolean''"
  by (auto simp: property_schema_def jpath_def createCompanyRequest_schema_def
      patchCompanyRequest_schema_def split: if_splits)

lemma conforming_entry:
  assumes "conforms doc schema (JObj kvs)" and "kv \<in> set kvs"
  obtains sch where "property_schema doc schema (fst kv) = Some sch" "conforms doc sch (snd kv)"
  using assms by (cases "property_schema doc schema (fst kv)") auto

lemma conforming_entries:
  assumes "conforms api_document schema (JObj kvs)" and "\<forall>v\<in>snd ` set kvs. request_value v"
    and "\<And>k sch. property_schema api_document schema k = Some sch \<Longrightarrow>
      k \<in> names \<and> sch = typed ''string'' \<or> k = ''amount_of_employees'' \<and> sch = typed ''integer''
      \<or> k = ''registered'' \<and> sch = typed ''boolean''"
  shows "\<forall>kv\<in>set kvs. text_entry names kv"
proof
  fix kv assume kv: "kv \<in> set kvs"
  then have val: "request_value (snd kv)" using assms(2) by simp
  from conforming_entry [OF assms(1) kv] obtain sch where
    sch: "property_schema api_document schema (fst kv) = Some sch" "conforms api_document sch (snd kv)"
    by blast
  from assms(3) [OF sch(1)] show "text_entry names kv"
    using typed_values(1,2) [OF _ val] typed_values(3) sch(2) by (auto simp: text_entry_def simp del: conforms.simps)
qed

lemma documented_entries:
  "documented_body api_document post_companies_doc kvs \<Longrightarrow>
     distinct (map fst kvs) \<and> (\<forall>kv\<in>set kvs. text_entry {''id'', ''name'', ''description'', ''type''} kv)"
  "documented_body api_document patch_company_doc kvs \<Longrightarrow>
     distinct (map fst kvs) \<and> (\<forall>kv\<in>set kvs. text_entry {''name'', ''description'', ''type''} kv)"
proof -
  assume "documented_body api_document post_companies_doc kvs"
  then have doc: "conforms api_document (schema_ref ''http.createCompanyRequest'') (JObj kvs)"
    "\<forall>v\<in>snd ` set kvs. request_value v" "distinct (map fst kvs)"
    unfolding documented_body_def by (simp_all del: conforms.simps)
  from doc(3) conforming_entries [OF doc(1,2) request_property_schema(1)]
  show "distinct (map fst kvs) \<and> (\<forall>kv\<in>set kvs. text_entry {''id'', ''name'', ''description'', ''type''} kv)"
    by blast
next
  assume "documented_body api_document patch_company_doc kvs"
  then have doc: "conforms api_document (schema_ref ''http.patchCompanyRequest'') (JObj kvs)"
    "\<forall>v\<in>snd ` set kvs. request_value v" "distinct (map fst kvs)"
    unfolding documented_body_def by (simp_all del: conforms.simps)
  from doc(3) conforming_entries [OF doc(1,2) request_property_schema(2)]
  show "distinct (map fst kvs) \<and> (\<forall>kv\<in>set kvs. text_entry {''name'', ''description'', ''type''} kv)"
    by blast
qed

text \<open>What a list of such entries makes of a request.\<close>

definition entry_or :: "('a \<Rightarrow> json) \<Rightarrow> (string \<times> json) list \<Rightarrow> string \<Rightarrow> 'a option \<Rightarrow> 'a option \<Rightarrow> bool" where
  "entry_or put kvs k old new \<longleftrightarrow>
     (case map_of kvs k of None \<Rightarrow> new = old | Some v \<Rightarrow> map_option put new = Some v)"

lemma entry_or_simps [simp]:
  "entry_or put [] k old new \<longleftrightarrow> new = old"
  "entry_or put ((k', v) # kvs) k old new \<longleftrightarrow>
     (if k' = k then map_option put new = Some v else entry_or put kvs k old new)"
  by (simp_all add: entry_or_def)

lemma entry_or_new: "k \<notin> fst ` set kvs \<Longrightarrow> entry_or put kvs k old new \<longleftrightarrow> new = old"
  by (simp add: entry_or_def map_of_eq_None_iff [symmetric])

lemma entry_or_None: "entry_or put kvs k None new \<longleftrightarrow> map_of kvs k = map_option put new"
  by (cases "map_of kvs k"; cases new) (auto simp: entry_or_def)

lemma create_entries_fill:
  assumes "distinct (map fst kvs)"
    and "\<forall>kv\<in>set kvs. text_entry {''id'', ''name'', ''description'', ''type''} kv"
  shows "\<exists>r'. fill_struct set_create_field kvs r = Inr r'
    \<and> entry_or JStr kvs ''id'' (cr_ID r) (cr_ID r') \<and> entry_or JStr kvs ''name'' (cr_Name r) (cr_Name r')
    \<and> entry_or JStr kvs ''description'' (cr_Description r) (cr_Description r')
    \<and> entry_or JInt kvs ''amount_of_employees'' (cr_AmountOfEmployees r) (cr_AmountOfEmployees r')
    \<and> entry_or JBool kvs ''registered'' (cr_Registered r) (cr_Registered r')
    \<and> entry_or JStr kvs ''type'' (cr_Type r) (cr_Type r')"
  using assms
proof (induction kvs arbitrary: r)
  case (Cons kv kvs)
  obtain k v where kv: "kv = (k, v)" by fastforce
  have new: "k \<notin> fst ` set kvs" using Cons.prems(1) kv by auto
  from Cons.prems(2) kv have "text_entry {''id'', ''name'', ''description'', ''type''} (k, v)" by simp
  then consider (id) s where "k = ''id''" "v = JStr s" | (name) s where "k = ''name''" "v = JStr s"
    | (desc) s where "k = ''description''" "v = JStr s" | (ty) s where "k = ''type''" "v = JStr s"
    | (amount) n where "k = ''amount_of_employees''" "v = JInt n" "is_go_int n"
    | (registered) b where "k = ''registered''" "v = JBool b"
    by (auto simp: text_entry_def)
  then show ?case
  proof cases
    case id
    with Cons.IH [of "r\<lparr>cr_ID := Some s\<rparr>"] Cons.prems new kv show ?thesis
      by (auto simp: set_create_field_def entry_or_new)
  next
    case name
    with Cons.IH [of "r\<lparr>cr_Name := Some s\<rparr>"] Cons.prems new kv show ?thesis
      by (auto simp: set_create_field_def entry_or_new)
  next
    case desc
    with Cons.IH [of "r\<lparr>cr_Description := Some s\<rparr>"] Cons.prems new kv show ?thesis
      by (auto simp: set_create_field_def entry_or_new)
  next
    case ty
    with Cons.IH [of "r\<lparr>cr_Type := Some s\<rparr>"] Cons.prems new kv show ?thesis
      by (auto simp: set_create_field_def entry_or_new)
  next
    case amount
    with Cons.IH [of "r\<lparr>cr_AmountOfEmployees := Some n\<rparr>"] Cons.prems new kv show ?thesis
      by (auto simp: set_create_field_def entry_or_new)
  next
    case registered
    with Cons.IH [of "r\<lparr>cr_Registered := Some b\<rparr>"] Cons.prems new kv show ?thesis
      by (auto simp: set_create_field_def entry_or_new)
  qed
qed simp

lemma patch_entries_fill:
  assumes "distinct (map fst kvs)"
    and "\<forall>kv\<in>set kvs. text_entry {''name'', ''description'', ''type''} kv"
  shows "\<exists>r'. fill_struct set_patch_field kvs r = Inr r'
    \<and> entry_or JStr kvs ''name'' (pr_Name r) (pr_Name r')
    \<and> entry_or JStr kvs ''description'' (pr_Description r) (pr_Description r')
    \<and> entry_or JInt kvs ''amount_of_employees'' (pr_AmountOfEmployees r) (pr_AmountOfEmployees r')
    \<and> entry_or JBool kvs ''registered'' (pr_Registered r) (pr_Registered r')
    \<and> entry_or JStr kvs ''type'' (pr_Type r) (pr_Type r')"
  using assms
proof (induction kvs arbitrary: r)
  case (Cons kv kvs)
  obtain k v where kv: "kv = (k, v)" by fastforce
  have new: "k \<notin> fst ` set kvs" using Cons.prems(1) kv by auto
  from Cons.prems(2) kv have "text_entry {''name'', ''description'', ''type''} (k, v)" by simp
  then consider (name) s where "k = ''name''" "v = JStr s"
    | (desc) s where "k = ''description''" "v = JStr s" | (ty) s where "k = ''type''" "v = JStr s"
    | (amount) n where "k = ''amount_of_employees''" "v = JInt n" "is_go_int n"
    | (registered) b where "k = ''registered''" "v = JBool b"
    by (auto simp: text_entry_def)
  then show ?case
  proof cases
    case name
    with Cons.IH [of "r\<lparr>pr_Name := Some s\<rparr>"] Cons.prems new kv show ?thesis
      by (auto simp: set_patch_field_def entry_or_new)
  next
    case desc
    with Cons.IH [of "r\<lparr>pr_Description := Some s\<rparr>"] Cons.prems new kv show ?thesis
      by (auto simp: set_patch_field_def entry_or_new)
  next
    case ty
    with Cons.IH [of "r\<lparr>pr_Type := Some s\<rparr>"] Cons.prems new kv show ?thesis
      by (auto simp: set_patch_field_def entry_or_new)
  next
    case amount
    with Cons.IH [of "r\<lparr>pr_AmountOfEmployees := Some n\<rparr>"] Cons.prems new kv show ?thesis
      by (auto simp: set_patch_field_def entry_or_new)
  next
    case registered
    with Cons.IH [of "r\<lparr>pr_Registered := Some b\<rparr>"] Cons.prems new kv show ?thesis
      by (auto simp: set_patch_field_def entry_or_new)
  qed
qed simp

text \<open>
  Property C31: the service takes the request bodies it documents.  A POST /companies whose body is one
  JSON object that conforms to the documented schema is decoded, and every field of the request is the
  value of its property, or absent when the property is; and so is a PATCH /companies/{id}, against its
  own schema.  (Each property is named once, and a number is one that a Go int can hold.)
\<close>

theorem documented_bodies_are_accepted:
  assumes "r_Body r = Some [Inr (JObj kvs)]"
  shows "(documented_body api_document post_companies_doc kvs \<longrightarrow>
      (\<exists>req. decodeJSON set_create_field r zero_create = Inr req
        \<and> map_of kvs ''id'' = map_option JStr (cr_ID req)
        \<and> map_of kvs ''name'' = map_option JStr (cr_Name req)
        \<and> map_of kvs ''description'' = map_option JStr (cr_Description req)
        \<and> map_of kvs ''amount_of_employees'' = map_option JInt (cr_AmountOfEmployees req)
        \<and> map_of kvs ''registered'' = map_option JBool (cr_Registered req)
        \<and> map_of kvs ''type'' = map_option JStr (cr_Type req)))
    \<and> (documented_body api_document patch_company_doc kvs \<longrightarrow>
      (\<exists>req. decodeJSON set_patch_field r zero_patch = Inr req
        \<and> map_of kvs ''name'' = map_option JStr (pr_Name req)
        \<and> map_of kvs ''description'' = map_option JStr (pr_Description req)
        \<and> map_of kvs ''amount_of_employees'' = map_option JInt (pr_AmountOfEmployees req)
        \<and> map_of kvs ''registered'' = map_option JBool (pr_Registered req)
        \<and> map_of kvs ''type'' = map_option JStr (pr_Type req)))"
  using assms
    create_entries_fill [of kvs zero_create] documented_entries(1) [of kvs]
    patch_entries_fill [of kvs zero_patch] documented_entries(2) [of kvs]
  by (auto simp: decodeJSON_Inr zero_create_def zero_patch_def entry_or_None)

definition acme_entries :: "(string \<times> json) list" where
  "acme_entries = [(''name'', JStr ''Acme''), (''amount_of_employees'', JInt 10),
     (''registered'', JBool True), (''type'', JStr ''Corporations'')]"

lemma Some_eq_map_option: "Some y = map_option f v \<longleftrightarrow> (\<exists>x. v = Some x \<and> y = f x)"
  by (cases v) auto

theorem documented_bodies_are_accepted_witness:
  "\<exists>req preq. decodeJSON set_create_field (acme_http\<lparr>r_Body := Some [Inr (JObj acme_entries)]\<rparr>) zero_create = Inr req
    \<and> cr_ID req = None \<and> cr_Name req = Some ''Acme'' \<and> cr_Description req = None
    \<and> cr_AmountOfEmployees req = Some 10
    \<and> decodeJSON set_patch_field (acme_http\<lparr>r_Body := Some [Inr (JObj acme_entries)]\<rparr>) zero_patch = Inr preq
    \<and> pr_Name preq = Some ''Acme'' \<and> pr_Registered preq = Some True"
proof -
  have body: "r_Body (acme_http\<lparr>r_Body := Some [Inr (JObj acme_entries)]\<rparr>) = Some [Inr (JObj acme_entries)]"
    by simp
  have documented: "documented_body api_document post_companies_doc acme_entries"
    "documented_body api_document patch_company_doc acme_entries"
    by (simp_all add: documented_body_def acme_entries_def request_schema_types is_go_int_def
        int_min_def int_max_def)
  note accepted = documented_bodies_are_accepted [OF body]
  from accepted documented(1) obtain req where
    "decodeJSON set_create_field (acme_http\<lparr>r_Body := Some [Inr (JObj acme_entries)]\<rparr>) zero_create = Inr req"
    "map_of acme_entries ''id'' = map_option JStr (cr_ID req)"
    "map_of acme_entries ''name'' = map_option JStr (cr_Name req)"
    "map_of acme_entries ''description'' = map_option JStr (cr_Description req)"
    "map_of acme_entries ''amount_of_employees'' = map_option JInt (cr_AmountOfEmployees req)" by blast
  moreover from accepted documented(2) obtain preq where
    "decodeJSON set_patch_field (acme_http\<lparr>r_Body := Some [Inr (JObj acme_entries)]\<rparr>) zero_patch = Inr preq"
    "map_of acme_entries ''name'' = map_option JStr (pr_Name preq)"
    "map_of acme_entries ''registered'' = map_option JBool (pr_Registered preq)" by blast
  ultimately show ?thesis
    by (intro exI [of _ req] exI [of _ preq]) (auto simp: acme_entries_def Some_eq_map_option)
qed

text \<open>
  Property C32: the documentation of POST /companies requires no property, and the service does.  The
  empty object is a documented body; whatever the state of the service, it is answered 400 with the
  complaint that each of the five fields is required, and nothing happens.
\<close>

theorem documented_empty_body_is_refused:
  assumes "r_Body r = Some [Inr (JObj [])]"
  shows "documented_body api_document post_companies_doc []
    \<and> (\<exists>d. Handler_CreateCompany lib rt s r fresh_writer w = (writeJSON 400 (Some (Inr d)) fresh_writer, w)
        \<and> complaints_document (\<lambda>k. if k \<in> {''id'', ''name'', ''amount_of_employees'', ''registered'', ''type''}
             then Some ''is required'' else None) d)"
proof
  show "documented_body api_document post_companies_doc []"
    by (simp add: documented_body_def request_schema_types)
  let ?fs = "[(''id'', ''is required''), (''name'', ''is required''),
    (''amount_of_employees'', ''is required''), (''registered'', ''is required''), (''type'', ''is required'')]"
  have input: "create_toInput lib zero_create = Inl (ValidationError ?fs)"
    by (simp add: create_toInput_def zero_create_def require_def NewValidationError_def)
  have decode: "decodeJSON set_create_field r zero_create = Inr zero_create"
    using assms by (simp add: decodeJSON_Inr)
  have "plain_fields ?fs" by (simp add: plain_fields_def byte_def)
  with validation_answer [of "ValidationError ?fs" ?fs] obtain d where
    d: "writeAppError (ValidationError ?fs) = writeJSON 400 (Some (Inr d))"
    "complaints_document (map_of ?fs) d" by auto
  have "map_of ?fs = (\<lambda>k. if k \<in> {''id'', ''name'', ''amount_of_employees'', ''registered'', ''type''}
      then Some ''is required'' else None)" by (rule ext) simp
  with d have complaints: "complaints_document (\<lambda>k. if k \<in> {''id'', ''name'', ''amount_of_employees'',
      ''registered'', ''type''} then Some ''is required'' else None) d" by simp
  have "Handler_CreateCompany lib rt s r fresh_writer w = (writeJSON 400 (Some (Inr d)) fresh_writer, w)"
    using d(1) input decode by (simp add: Handler_CreateCompany_def)
  with complaints show "\<exists>d. Handler_CreateCompany lib rt s r fresh_writer w
        = (writeJSON 400 (Some (Inr d)) fresh_writer, w)
      \<and> complaints_document (\<lambda>k. if k \<in> {''id'', ''name'', ''amount_of_employees'', ''registered'', ''type''}
           then Some ''is required'' else None) d"
    by blast
qed

theorem documented_empty_body_is_refused_witness:
  "\<exists>d. Handler_CreateCompany canonical_uuids world_runtime world_service
      (acme_http\<lparr>r_Body := Some [Inr (JObj [])]\<rparr>) fresh_writer acme_world
      = (writeJSON 400 (Some (Inr d)) fresh_writer, acme_world)"
proof -
  have "r_Body (acme_http\<lparr>r_Body := Some [Inr (JObj [])]\<rparr>) = Some [Inr (JObj [])]" by simp
  from documented_empty_body_is_refused [OF this, where lib = canonical_uuids and rt = world_runtime
      and s = world_service and w = acme_world] show ?thesis by blast
qed

text \<open>
  Property C33: a body with a field that the documentation does not have is refused.  When no documented
  property has the name of the field, in any case of its letters, neither a POST nor a PATCH takes the
  body, whatever else is in it and whatever follows it.
\<close>

theorem undocumented_fields_are_refused:
  assumes "r_Body r = Some (Inr (JObj kvs) # rest)" and "(k, v) \<in> set kvs"
  shows "(list_all (\<lambda>p. \<not> EqualFold k p) (property_names api_document (schema_ref ''http.createCompanyRequest''))
       \<longrightarrow> (\<exists>e. decodeJSON set_create_field r zero_create = Inl e))
    \<and> (list_all (\<lambda>p. \<not> EqualFold k p) (property_names api_document (schema_ref ''http.patchCompanyRequest''))
       \<longrightarrow> (\<exists>e. decodeJSON set_patch_field r zero_patch = Inl e))"
proof (intro conjI impI)
  assume "list_all (\<lambda>p. \<not> EqualFold k p) (property_names api_document (schema_ref ''http.createCompanyRequest''))"
  then have unknown: "\<not> create_key k" by (simp add: create_key_def)
  have known: "create_key k" if "fill_struct set_create_field kvs x = Inr y" for x y
    using that assms(2) by (rule fill_struct_keys) (simp add: create_key_def set_create_field_def)
  show "\<exists>e. decodeJSON set_create_field r zero_create = Inl e"
  proof (cases "decodeJSON set_create_field r zero_create")
    case (Inr req)
    with assms(1) known unknown show ?thesis by (auto simp: decodeJSON_Inr)
  qed blast
next
  assume "list_all (\<lambda>p. \<not> EqualFold k p) (property_names api_document (schema_ref ''http.patchCompanyRequest''))"
  then have unknown: "\<not> patch_key k" by (simp add: patch_key_def)
  have known: "patch_key k" if "fill_struct set_patch_field kvs x = Inr y" for x y
    using that assms(2) by (rule fill_struct_keys) (simp add: patch_key_def set_patch_field_def)
  show "\<exists>e. decodeJSON set_patch_field r zero_patch = Inl e"
  proof (cases "decodeJSON set_patch_field r zero_patch")
    case (Inr req)
    with assms(1) known unknown show ?thesis by (auto simp: decodeJSON_Inr)
  qed blast
qed

theorem undocumented_fields_are_refused_witness:
  "\<exists>e. decodeJSON set_patch_field (acme_http\<lparr>r_Body := Some [Inr (JObj [(''id'', JNull)])]\<rparr>) zero_patch = Inl e"
proof -
  have body: "r_Body (acme_http\<lparr>r_Body := Some [Inr (JObj [(''id'', JNull)])]\<rparr>) = Some (Inr (JObj [(''id'', JNull)]) # [])"
    and entry: "(''id'', JNull) \<in> set [(''id'', JNull)]" by simp_all
  from undocumented_fields_are_refused [OF body entry] show ?thesis by simp
qed

end
