(* ===== verification/HandlerLogs.thy ===== *)
theory HandlerLogs
  imports HttpHandlers
begin

text \<open>
  The handlers with their log calls (\<^verbatim>\<open>internal/interfaces/http/handlers.go\<close>).  The theory
  HttpHandlers leaves the log out; here each handler also returns what it has logged, forgetting the
  log gives the handler of that theory, and the log tells what the client was told.

  The id of a request, which a middleware of the router puts into its context, is a parameter.
\<close>

subsection \<open>Log lines\<close>

record error_line =
  el_err :: goerr
  el_status :: nat
  el_method :: string
  el_path :: string
  el_request_id :: "string option"
    \<comment> \<open>left out of the line when the request has no id\<close>
  el_message :: string

definition logError ::
    "(request \<Rightarrow> string) \<Rightarrow> request \<Rightarrow> nat \<Rightarrow> goerr \<Rightarrow> string \<Rightarrow> error_line list \<Rightarrow> error_line list" where
  "logError GetReqID r status err message log =
     log @ [\<lparr>el_err = err, el_status = status, el_method = r_Method r, el_path = r_Path r,
       el_request_id = (if GetReqID r \<noteq> '''' then Some (GetReqID r) else None),
       el_message = message\<rparr>]"

type_synonym 'w logging_handler =
  "request \<Rightarrow> writer \<Rightarrow> error_line list \<Rightarrow> 'w \<Rightarrow> writer \<times> error_line list \<times> 'w"

subsection \<open>The handlers\<close>

definition logging_parseID ::
    "(request \<Rightarrow> string) \<Rightarrow> uuid_lib \<Rightarrow> request \<Rightarrow> writer \<Rightarrow> error_line list
     \<Rightarrow> uuid option \<times> writer \<times> error_line list" where
  "logging_parseID GetReqID lib r wr log =
     (case uuid_Parse lib (URLParam r ''id'') of
        Inl err \<Rightarrow>
          (let log = logError GetReqID r StatusBadRequest err ''invalid company id'' log
           in (None, writeJSON StatusBadRequest (error_message ''invalid company id'') wr, log))
      | Inr i \<Rightarrow> (Some i, wr, log))"

definition logging_CreateCompany ::
    "(request \<Rightarrow> string) \<Rightarrow> uuid_lib \<Rightarrow> 'w runtime \<Rightarrow> 'w Service \<Rightarrow> 'w logging_handler" where
  "logging_CreateCompany GetReqID lib rt s r wr log w =
     (case decodeJSON set_create_field r zero_create of
        Inl err \<Rightarrow>
          (let log = logError GetReqID r StatusBadRequest err
                 ''failed to decode create company request'' log
           in (writeJSON StatusBadRequest (error_message ''invalid JSON body'') wr, log, w))
      | Inr req \<Rightarrow>
          (case create_toInput lib req of
             Inl err \<Rightarrow>
               (let log = logError GetReqID r StatusBadRequest err ''invalid create company request'' log
                in (writeAppError err wr, log, w))
           | Inr input \<Rightarrow>
               (case CreateCompany rt s Background input w of
                  (Inl err, w) \<Rightarrow>
                    (let log = logError GetReqID r (appErrorStatus err) err ''failed to create company'' log
                     in (writeAppError err wr, log, w))
                | (Inr c, w) \<Rightarrow>
                    (writeJSON StatusCreated (Some (encode_company (toCompanyResponse lib c))) wr,
                     log, w))))"

definition logging_PatchCompany ::
    "(request \<Rightarrow> string) \<Rightarrow> uuid_lib \<Rightarrow> 'w runtime \<Rightarrow> 'w Service \<Rightarrow> 'w logging_handler" where
  "logging_PatchCompany GetReqID lib rt s r wr log w =
     (case logging_parseID GetReqID lib r wr log of
        (None, wr, log) \<Rightarrow> (wr, log, w)
      | (Some i, wr, log) \<Rightarrow>
          (case decodeJSON set_patch_field r zero_patch of
             Inl err \<Rightarrow>
               (let log = logError GetReqID r StatusBadRequest err
                      ''failed to decode patch company request'' log
                in (writeJSON StatusBadRequest (error_message ''invalid JSON body'') wr, log, w))
           | Inr req \<Rightarrow>
               (case patch_toInput req of
                  Inl err \<Rightarrow>
                    (let log = logError GetReqID r StatusBadRequest err ''invalid patch company request'' log
                     in (writeAppError err wr, log, w))
                | Inr input \<Rightarrow>
                    (case PatchCompany rt s Background i input w of
                       (Inl err, w) \<Rightarrow>
                         (let log = logError GetReqID r (appErrorStatus err) err
                                ''failed to patch company'' log
                          in (writeAppError err wr, log, w))
                     | (Inr c, w) \<Rightarrow>
                         (writeJSON StatusOK (Some (encode_company (toCompanyResponse lib c))) wr,
                          log, w)))))"

definition logging_DeleteCompany ::
    "(request \<Rightarrow> string) \<Rightarrow> uuid_lib \<Rightarrow> 'w Service \<Rightarrow> 'w logging_handler" where
  "logging_DeleteCompany GetReqID lib s r wr log w =
     (case logging_parseID GetReqID lib r wr log of
        (None, wr, log) \<Rightarrow> (wr, log, w)
      | (Some i, wr, log) \<Rightarrow>
          (case DeleteCompany s Background i w of
             (Some err, w) \<Rightarrow>
               (let log = logError GetReqID r (appErrorStatus err) err ''failed to delete company'' log
                in (writeAppError err wr, log, w))
           | (None, w) \<Rightarrow> (WriteHeader StatusNoContent wr, log, w)))"

definition logging_GetCompany ::
    "(request \<Rightarrow> string) \<Rightarrow> uuid_lib \<Rightarrow> 'w Service \<Rightarrow> 'w logging_handler" where
  "logging_GetCompany GetReqID lib s r wr log w =
     (case logging_parseID GetReqID lib r wr log of
        (None, wr, log) \<Rightarrow> (wr, log, w)
      | (Some i, wr, log) \<Rightarrow>
          (case GetCompany s Background i w of
             (Inl err, w) \<Rightarrow>
               (let log = logError GetReqID r (appErrorStatus err) err ''failed to get company'' log
                in (writeAppError err wr, log, w))
           | (Inr c, w) \<Rightarrow>
               (writeJSON StatusOK (Some (encode_company (toCompanyResponse lib c))) wr, log, w)))"

subsection \<open>The log tells what the client was told\<close>

text \<open>
  A log line for each refusal: one line, with the method and the path of the request and the status
  of the answer, when the status is 400 or more, and nothing otherwise.
\<close>

definition told :: "request \<Rightarrow> error_line list \<Rightarrow> writer \<Rightarrow> error_line list \<Rightarrow> bool" where
  "told r log wr' log' \<longleftrightarrow>
     (\<exists>st. status_sent wr' = Some st
        \<and> (if st < 400 then log' = log
           else \<exists>line. log' = log @ [line] \<and> el_status line = st
             \<and> el_method line = r_Method r \<and> el_path line = r_Path r))"

text \<open>
  A logging handler is faithful to a handler when it answers and does the same and logs the refusals.
\<close>

definition logs_refusals :: "'w handler \<Rightarrow> 'w logging_handler \<Rightarrow> bool" where
  "logs_refusals h lh \<longleftrightarrow>
     (\<forall>r log w. case lh r fresh_writer log w of
        (wr', log', w') \<Rightarrow> h r fresh_writer w = (wr', w') \<and> told r log wr' log')"

lemma told_refusal [simp]:
  assumes "400 \<le> st" and "status_sent wr' = Some st"
  shows "told r log wr' (logError GetReqID r st err message log)"
  using assms by (auto simp: told_def logError_def)

lemma told_success [simp]: "status_sent wr' = Some st \<Longrightarrow> st < 400 \<Longrightarrow> told r log wr' log"
  by (simp add: told_def)

lemma told_app_error [simp]:
  "told r log (writeAppError err fresh_writer)
     (logError GetReqID r (appErrorStatus err) err message log)"
  by (rule told_refusal) (simp_all add: appErrorStatus_def)

lemma create_toInput_status: "create_toInput lib req = Inl err \<Longrightarrow> appErrorStatus err = 400"
  by (auto simp: appErrorStatus_root dest!: create_toInput_Inl)

lemma create_logs: "logs_refusals (Handler_CreateCompany lib rt s) (logging_CreateCompany GetReqID lib rt s)"
  unfolding logs_refusals_def
proof (intro allI)
  fix r log w
  show "case logging_CreateCompany GetReqID lib rt s r fresh_writer log w of (wr', log', w') \<Rightarrow>
    Handler_CreateCompany lib rt s r fresh_writer w = (wr', w') \<and> told r log wr' log'"
  proof (cases "decodeJSON set_create_field r zero_create")
    case (Inl err)
    then show ?thesis by (simp add: logging_CreateCompany_def Handler_CreateCompany_def)
  next
    case req: (Inr req)
    show ?thesis
    proof (cases "create_toInput lib req")
      case (Inl err)
      with req create_toInput_status [OF Inl] show ?thesis
        by (simp add: logging_CreateCompany_def Handler_CreateCompany_def)
    next
      case (Inr input)
      with req show ?thesis
        by (simp add: logging_CreateCompany_def Handler_CreateCompany_def split: prod.split sum.split)
    qed
  qed
qed

lemma patch_logs: "logs_refusals (Handler_PatchCompany lib rt s) (logging_PatchCompany GetReqID lib rt s)"
  by (simp add: logs_refusals_def logging_PatchCompany_def Handler_PatchCompany_def parseID_def
      logging_parseID_def patch_toInput_def split: sum.split prod.split)

lemma delete_logs: "logs_refusals (Handler_DeleteCompany lib s) (logging_DeleteCompany GetReqID lib s)"
  by (simp add: logs_refusals_def logging_DeleteCompany_def Handler_DeleteCompany_def parseID_def
      logging_parseID_def split: sum.split prod.split option.split)

lemma get_logs: "logs_refusals (Handler_GetCompany lib s) (logging_GetCompany GetReqID lib s)"
  by (simp add: logs_refusals_def logging_GetCompany_def Handler_GetCompany_def parseID_def
      logging_parseID_def split: sum.split prod.split)

text \<open>
  Property C34: the log tells what the client was told.  Whatever the service behind it does, each
  handler with its log calls answers and does the same as without them, and it logs one line when it
  answers 400 or more, with the method and the path of the request and the very status of the answer,
  and no line when it succeeds.
\<close>

theorem refusals_are_logged:
  "logs_refusals (Handler_CreateCompany lib rt s) (logging_CreateCompany GetReqID lib rt s)
   \<and> logs_refusals (Handler_PatchCompany lib rt s) (logging_PatchCompany GetReqID lib rt s)
   \<and> logs_refusals (Handler_DeleteCompany lib s) (logging_DeleteCompany GetReqID lib s)
   \<and> logs_refusals (Handler_GetCompany lib s) (logging_GetCompany GetReqID lib s)"
  by (intro conjI create_logs patch_logs delete_logs get_logs)

end
