(* ===== verification/Migrations.thy ===== *)
theory Migrations
  imports Postgres
begin

text \<open>
  The migrations (\<^verbatim>\<open>migrations/\<close>): the statements that create and drop the tables, what they do to the
  schema of a database, and that the schema they make is the one the repositories run on.  The tool
  that applies them, in the order of their numbers and backwards, is not part of the repository.
\<close>

subsection \<open>Schemas\<close>

record index =
  ix_name :: string
  ix_table :: string
  ix_columns :: "string list"
  ix_where :: "sqlcond list"

record schema =
  sc_tables :: "table list"
  sc_indexes :: "index list"

datatype ddl =
    CreateTable table
      \<comment> \<open>\<^verbatim>\<open>CREATE TABLE IF NOT EXISTS\<close>\<close>
  | CreateIndex index
      \<comment> \<open>\<^verbatim>\<open>CREATE INDEX IF NOT EXISTS\<close>\<close>
  | DropTable string
      \<comment> \<open>\<^verbatim>\<open>DROP TABLE IF EXISTS\<close>\<close>

fun cond_column :: "sqlcond \<Rightarrow> string" where
  "cond_column (Eq c v) = c"
| "cond_column (IsNull c) = c"
| "cond_column (LeNow c) = c"

definition find_table :: "string \<Rightarrow> schema \<Rightarrow> table option" where
  "find_table name sc = find (\<lambda>t. table_name t = name) (sc_tables sc)"

text \<open>An index needs its table and its columns; dropping a table drops its indexes.\<close>

definition index_fits :: "index \<Rightarrow> table \<Rightarrow> bool" where
  "index_fits ix t \<longleftrightarrow>
     list_all (\<lambda>c. c \<in> set (map col_name (columns t))) (ix_columns ix @ map cond_column (ix_where ix))"

fun run_ddl :: "ddl \<Rightarrow> schema \<Rightarrow> goerr + schema" where
  "run_ddl (CreateTable t) sc =
     (case find_table (table_name t) sc of
        Some _ \<Rightarrow> Inr sc
      | None \<Rightarrow> Inr (sc\<lparr>sc_tables := sc_tables sc @ [t]\<rparr>))"
| "run_ddl (CreateIndex ix) sc =
     (case find_table (ix_table ix) sc of
        None \<Rightarrow> Inl (PgError ''42P01'' '''' ''relation does not exist'')
      | Some t \<Rightarrow>
          if list_ex (\<lambda>ix'. ix_name ix' = ix_name ix) (sc_indexes sc) then Inr sc
          else if index_fits ix t then Inr (sc\<lparr>sc_indexes := sc_indexes sc @ [ix]\<rparr>)
          else Inl (PgError ''42703'' '''' ''column does not exist''))"
| "run_ddl (DropTable name) sc =
     Inr (sc\<lparr>sc_tables := filter (\<lambda>t. table_name t \<noteq> name) (sc_tables sc),
             sc_indexes := filter (\<lambda>ix. ix_table ix \<noteq> name) (sc_indexes sc)\<rparr>)"

fun run_migration :: "ddl list \<Rightarrow> schema \<Rightarrow> goerr + schema" where
  "run_migration [] sc = Inr sc"
| "run_migration (d # ds) sc = (case run_ddl d sc of Inl e \<Rightarrow> Inl e | Inr sc' \<Rightarrow> run_migration ds sc')"

subsection \<open>The files\<close>

definition idx_outbox_events_pending :: index where
  "idx_outbox_events_pending =
     \<lparr>ix_name = ''idx_outbox_events_pending'', ix_table = ''outbox_events'',
      ix_columns = [''available_at'', ''created_at''], ix_where = [IsNull ''published_at'']\<rparr>"

definition create_companies_up :: "ddl list" where
  "create_companies_up = [CreateTable companies_table]"

definition create_companies_down :: "ddl list" where
  "create_companies_down = [DropTable ''companies'']"

definition create_outbox_events_up :: "ddl list" where
  "create_outbox_events_up = [CreateTable outbox_events_table, CreateIndex idx_outbox_events_pending]"

definition create_outbox_events_down :: "ddl list" where
  "create_outbox_events_down = [DropTable ''outbox_events'']"

definition migrate_up :: "schema \<Rightarrow> goerr + schema" where
  "migrate_up = run_migration (create_companies_up @ create_outbox_events_up)"

definition migrate_down :: "schema \<Rightarrow> goerr + schema" where
  "migrate_down = run_migration (create_outbox_events_down @ create_companies_down)"

subsection \<open>What they do\<close>

text \<open>A schema without anything of the service.\<close>

definition foreign :: "schema \<Rightarrow> bool" where
  "foreign sc \<longleftrightarrow>
     list_all (\<lambda>t. table_name t \<notin> {''companies'', ''outbox_events''}) (sc_tables sc)
     \<and> list_all (\<lambda>ix. ix_table ix \<notin> {''companies'', ''outbox_events''}
          \<and> ix_name ix \<noteq> ''idx_outbox_events_pending'') (sc_indexes sc)"

definition service_schema :: "schema \<Rightarrow> schema" where
  "service_schema sc =
     sc\<lparr>sc_tables := sc_tables sc @ [companies_table, outbox_events_table],
        sc_indexes := sc_indexes sc @ [idx_outbox_events_pending]\<rparr>"

lemma table_names [simp]:
  "table_name companies_table = ''companies''" "table_name outbox_events_table = ''outbox_events''"
  by (simp_all add: companies_table_def outbox_events_table_def)

lemma pending_index_fits: "index_fits idx_outbox_events_pending outbox_events_table"
  by (simp add: index_fits_def idx_outbox_events_pending_def outbox_events_table_def)

lemma index_names [simp]:
  "ix_name idx_outbox_events_pending = ''idx_outbox_events_pending''"
  "ix_table idx_outbox_events_pending = ''outbox_events''"
  by (simp_all add: idx_outbox_events_pending_def)

lemma foreign_find:
  "foreign sc \<Longrightarrow> find_table ''companies'' sc = None \<and> find_table ''outbox_events'' sc = None"
  by (auto simp: foreign_def find_table_def find_None_iff list_all_iff)

lemma foreign_filters:
  assumes "foreign sc"
  shows "filter (\<lambda>t. table_name t \<noteq> ''companies'') (sc_tables sc) = sc_tables sc"
    "filter (\<lambda>t. table_name t \<noteq> ''outbox_events'') (sc_tables sc) = sc_tables sc"
    "filter (\<lambda>ix. ix_table ix \<noteq> ''companies'') (sc_indexes sc) = sc_indexes sc"
    "filter (\<lambda>ix. ix_table ix \<noteq> ''outbox_events'') (sc_indexes sc) = sc_indexes sc"
  using assms by (simp_all add: foreign_def list_all_iff filter_id_conv)

lemma find_append: "find P (xs @ ys) = (case find P xs of None \<Rightarrow> find P ys | Some x \<Rightarrow> Some x)"
  by (induction xs) auto

lemma service_schema_tables:
  assumes "foreign sc"
  shows "find_table ''companies'' (service_schema sc) = Some companies_table"
    "find_table ''outbox_events'' (service_schema sc) = Some outbox_events_table"
  using foreign_find [OF assms] by (simp_all add: find_table_def service_schema_def find_append)

lemma up_foreign:
  assumes "foreign sc"
  shows "migrate_up sc = Inr (service_schema sc)"
proof -
  have "\<not> list_ex (\<lambda>ix'. ix_name ix' = ''idx_outbox_events_pending'') (sc_indexes sc)"
    using assms by (auto simp: foreign_def list_ex_iff list_all_iff)
  with foreign_find [OF assms] pending_index_fits show ?thesis
    by (simp add: migrate_up_def create_companies_up_def create_outbox_events_up_def find_table_def
        find_append service_schema_def)
qed

lemma up_again:
  assumes "foreign sc"
  shows "migrate_up (service_schema sc) = Inr (service_schema sc)"
proof -
  have "list_ex (\<lambda>ix'. ix_name ix' = ''idx_outbox_events_pending'') (sc_indexes (service_schema sc))"
    by (simp add: service_schema_def)
  with service_schema_tables [OF assms] show ?thesis
    by (simp add: migrate_up_def create_companies_up_def create_outbox_events_up_def)
qed

lemma down_foreign:
  assumes "foreign sc"
  shows "migrate_down (service_schema sc) = Inr sc"
  using foreign_filters [OF assms]
  by (simp add: migrate_down_def create_outbox_events_down_def create_companies_down_def
      service_schema_def)

text \<open>
  Property C36: the migrations make the schema the service runs on, and undo it.  On a database that
  has nothing of the service, applying them succeeds; the tables it then has under the names of the
  service are the ones the statements of the repositories are run against; applying them again
  changes nothing, and going all the way down leaves the database as it was, the index included.
\<close>

theorem migrations_round_trip:
  assumes "foreign sc"
  shows "\<exists>sc'. migrate_up sc = Inr sc'
    \<and> find_table ''companies'' sc' = table_of ''companies''
    \<and> find_table ''outbox_events'' sc' = table_of ''outbox_events''
    \<and> migrate_up sc' = Inr sc' \<and> migrate_down sc' = Inr sc"
  using up_foreign [OF assms] up_again [OF assms] down_foreign [OF assms] service_schema_tables [OF assms]
  by (auto simp: table_of_def)

definition other_schema :: schema where
  "other_schema = \<lparr>sc_tables = [companies_table\<lparr>table_name := ''schema_migrations''\<rparr>], sc_indexes = []\<rparr>"

theorem migrations_round_trip_witness:
  "\<exists>sc'. migrate_up other_schema = Inr sc'
    \<and> find_table ''outbox_events'' sc' = table_of ''outbox_events''
    \<and> migrate_down sc' = Inr other_schema"
proof -
  have "foreign other_schema" by (simp add: foreign_def other_schema_def)
  from migrations_round_trip [OF this] show ?thesis by blast
qed

end
