(* ===== verification/Spec2Isabelle.thy ===== *)
theory Spec2Isabelle
  imports Recovery HttpAnswers Interleavings Endings Typing Documented HandlerLogs Migrations
begin

text \<open>
  Verification of the company service.

  \<^bold>\<open>The program.\<close>  The repository holds a small Go service: companies are created, patched, deleted
  and read over HTTP; PostgreSQL keeps them; every change puts an event into an outbox table in the
  same transaction, and a background publisher sends the events of the outbox to Kafka (or to the
  log).  A request passes the router and the authentication middleware
  (\<^verbatim>\<open>internal/interfaces/http\<close>, \<^verbatim>\<open>internal/infrastructure/auth\<close>), is decoded and handed to the
  application service (\<^verbatim>\<open>internal/application/company\<close>), which builds or patches a company of the
  domain (\<^verbatim>\<open>internal/domain/company\<close>) and calls the repositories inside a transaction
  (\<^verbatim>\<open>internal/infrastructure/postgres\<close>).  The publisher (\<^verbatim>\<open>internal/infrastructure/outbox\<close>) calls the
  outbox repository and an event producer (\<^verbatim>\<open>internal/infrastructure/events\<close>).  \<^verbatim>\<open>cmd/api\<close> reads the
  configuration (\<^verbatim>\<open>internal/config\<close>) and wires all this together; \<^verbatim>\<open>cmd/token\<close> prints a bearer token.

  \<^bold>\<open>How it is modelled.\<close>  Every function of the code is a definition of the same name, in
  state-passing style: an effectful function takes the state of the world, of any type
  \<^typ>\<open>'w\<close>, and returns its results and the next state.  A Go pair of a value and an error is
  a sum, an error alone an option; errors are the values of the datatype \<^typ>\<open>goerr\<close> with the wrapping
  of \<^verbatim>\<open>fmt.Errorf\<close>, through which \<^verbatim>\<open>errors.Is\<close> and \<^verbatim>\<open>errors.As\<close> look.  Strings are lists of bytes, with
  UTF-8 decoded where the code counts runes; Go's \<^verbatim>\<open>int\<close> is an integer with its range as a predicate,
  the widths at which the code converts (\<^verbatim>\<open>int32\<close>, \<^verbatim>\<open>uint64\<close>) are words; instants and durations are
  integers in nanoseconds.  Libraries are parameters: the driver of the database, the JWT library, the
  mux, the Kafka writer, the UUID library, the clock, the random source.  What the code relies on of
  them is the assumptions of a locale; each locale is interpreted on the model's own definitions and
  on a reference world (theories \<open>Server\<close>, \<open>World\<close>, \<open>AuthWorld\<close>, \<open>Program\<close>) in which the witnesses
  compute.
\<close>

text \<open>
  \<^bold>\<open>The theories\<close>, in the order in which they build on each other.

  \<^item> \<open>Prelude\<close>: the two combinators for Go's early returns, with their inversion rules, and the
    collections of facts.  \<open>GoStrings\<close>, \<open>GoErrors\<close>: what the code uses of \<^verbatim>\<open>strings\<close>, \<^verbatim>\<open>unicode/utf8\<close>,
    \<^verbatim>\<open>fmt\<close> and \<^verbatim>\<open>errors\<close>.
  \<^item> \<open>Domain\<close> (\<^verbatim>\<open>company.go\<close>, \<^verbatim>\<open>errors.go\<close>, \<^verbatim>\<open>type.go\<close>): the company, its validation, \<^verbatim>\<open>New\<close> and
    \<^verbatim>\<open>ApplyPatch\<close>; \<open>validation_fields\<close> says which rules are broken, \<open>patch_error\<close> which complaint comes
    first, \<open>patched\<close> what a patch does.
  \<^item> \<open>Entities\<close> (\<^verbatim>\<open>entities.go\<close>): events, inputs and the interfaces of the application, as records of
    functions.  \<open>Json\<close>: the JSON of an event, written and read back.
  \<^item> \<open>Sql\<close> (the migrations): tables with their types, defaults and constraints, and \<open>sql_exec\<close>, what a
    statement does to them.  \<open>Postgres\<close> (\<^verbatim>\<open>transaction.go\<close>, \<^verbatim>\<open>company_repository.go\<close>,
    \<^verbatim>\<open>outbox_repository.go\<close>): the transaction manager and the repositories, with the statements they
    build.  \<open>Service\<close> (\<^verbatim>\<open>service.go\<close>): the use cases.  \<open>Publisher\<close> (\<^verbatim>\<open>publisher.go\<close>): the batches and \<^verbatim>\<open>Run\<close>.
  \<^item> \<open>Tables\<close>, \<open>OutboxTable\<close>: the abstraction.  A \<^typ>\<open>ledger\<close> is what the two tables mean, \<open>conc\<close> and
    \<open>abs_ledger\<close> go back and forth, and for each statement there is one lemma that says what it does
    to the ledger.
  \<^item> \<open>Server\<close>: the contract \<open>sql_server\<close> of driver and server, and a reference server with faults that
    keeps it.  \<open>Contracts\<close>: what the service relies on (locales \<open>company_store\<close>, \<open>event_store\<close>,
    \<open>transactional\<close>) and what it then achieves (\<open>company_service\<close>).  \<open>Repositories\<close>: the postgres package
    keeps these contracts.  \<open>Delivery\<close>: the same for the publisher (\<open>outbox_queue\<close>, \<open>event_broker\<close>,
    \<open>publishing\<close>).
  \<^item> \<open>Config\<close> (\<^verbatim>\<open>config.go\<close>, with \<^verbatim>\<open>time.ParseDuration\<close>), \<open>Producers\<close> (\<^verbatim>\<open>kafka_producer.go\<close>,
    \<^verbatim>\<open>log_producer.go\<close>, \<^verbatim>\<open>factory.go\<close>), \<open>World\<close> (the reference world with clock, UUIDs and broker).
  \<^item> \<open>UseCases\<close>: the guarantees of the wired service.  \<open>System\<close>: service, publisher and environment as
    a step relation; what holds in every reachable state.  \<open>Progress\<close>, \<open>Liveness\<close>: what is achieved when
    nothing fails (locales \<open>working_database\<close>, \<open>working_service\<close>, \<open>working_publisher\<close>).
  \<^item> \<open>HttpResponse\<close>, \<open>HttpMiddleware\<close>, \<open>HttpDto\<close>, \<open>HttpHandlers\<close>, \<open>HttpRouter\<close>: the files of
    \<^verbatim>\<open>interfaces/http\<close>.  \<open>HttpPromises\<close>: what each handler answers on every path, status, document and
    change, as predicates with one rule per documented answer (\<open>post_answer\<close>, \<open>patch_answer\<close>,
    \<open>delete_answer\<close>, \<open>get_answer\<close>).  \<open>HttpAnswers\<close>: what it answers when all works.
  \<^item> \<open>Tokens\<close> (\<^verbatim>\<open>jwt.go\<close>), \<open>AuthWorld\<close>: bearer tokens, over a JWT library with the locale \<open>jwt_library\<close>.
    \<open>Startup\<close> (\<^verbatim>\<open>postgres.go\<close>, \<^verbatim>\<open>cmd/api/main.go\<close>, \<^verbatim>\<open>cmd/token/main.go\<close>), \<open>Program\<close>: the started program as a
    step relation, which refines the one of \<open>System\<close> and inherits its invariants.  \<open>Lives\<close>: main from
    its start to its end (\<open>api_main\<close>), with whatever happens while it serves and while it shuts down,
    and started again (locale \<open>program_world\<close>); \<open>Recovery\<close>: a healthy start after all that.
  \<^item> \<open>HandlerLogs\<close> (\<^verbatim>\<open>handlers.go\<close>): the handlers again, with their log calls.  \<open>Docs\<close> (\<^verbatim>\<open>docs/docs.go\<close>): the
    Swagger document of the service as a JSON value, and how such a document is read: its operations,
    their security, their responses, and when a value conforms to a schema.  \<open>Documented\<close>: the service
    against that document.  \<open>Migrations\<close> (\<^verbatim>\<open>migrations/\<close>): what the migrations do to a schema, up and down.
  \<^item> Concurrency.  \<open>Traces\<close>: the same code run on a script of answers, so that what it does becomes a
    list of calls with their answers, and triples for these lists.  \<open>Protocols\<close>, \<open>Jobs\<close>: which calls
    a use case and a batch make, in which order, whatever they are answered.  \<open>Budgets\<close>: how many calls
    they make (locales \<open>budget\<close>, \<open>call_budget\<close>).  \<open>Typing\<close>: the statements against the columns of the
    migrations.  \<open>Isolation\<close>: a server shared by many clients at READ COMMITTED, with the locks of rows
    and unique keys and \<^verbatim>\<open>SKIP LOCKED\<close>; every call may fail and every answer be lost.  \<open>Effects\<close>,
    \<open>Writes\<close>, \<open>Transactions\<close>: what a write does to the ledger, under which locks, and that writes under
    different locks do not disturb each other.  \<open>Concurrency\<close>: any number of jobs whose calls
    interleave in any order, with the invariant of all that.  \<open>Races\<close>, \<open>Interleavings\<close>, \<open>Endings\<close>:
    concrete interleavings, and what holds of every one.
\<close>

text \<open>
  \<^bold>\<open>What is shown.\<close> The properties are the theorems whose text names an id
  C\<open>n\<close>. The main ones: in every state that the started program can reach, whatever
  fails, the companies are valid, with ids and names of their own, the events of the outbox replay
  to exactly the table of companies, and every event has been sent or still waits
  (\<open>program_invariants\<close>); each use case and each request is all or nothing, and each of the four
  handlers answers with the status and the document that tell what happened to the company of the
  request (\<open>create_handler_keeps_its_promises\<close> and its neighbours); nothing changes without a token
  signed with the secret; a batch calls Publish at most once per due event, in their order, and marks
  as published only what the broker has taken; with a working database and
  broker, acceptable requests succeed and the outbox empties. With requests and batches that run at
  the same time, call by call interleaved: the tables stay as sound as that
  (\<open>interleaved_tables_sound\<close>), a change that was answered with success stays
  announced, publishers never work on the same event, whatever has returned holds no transaction, and
  every job ends after a bounded number of calls; but of two patches of one company one can be lost
  (\<open>concurrent_patches_lose_an_update\<close>). The data stay sound over any number of
  starts and shutdowns of main (\<open>data_survive_restarts\<close>), which leaves no pool open, and a healthy start
  after them sends every event that is left (\<open>every_event_is_sent_in_the_end\<close>). The service is the one
  that its documentation describes: the same operations, secured where it says so, answers with
  documented statuses and one documented body each, the documented request bodies decoded into the
  values they hold, and undocumented fields refused; only that the documentation requires no field of
  a POST, and the code five (\<open>documented_empty_body_is_refused\<close>). Around them: the functional behaviour of
  the domain on every branch, the round trips of JSON, tokens, messages and migrations, the outcome of
  reading the configuration, and that the log tells what the client was told.

  \<^bold>\<open>Fuel and bounds.\<close>  There is no fuel: the loops of the code run over lists and are structural
  recursions, the parsers have termination proofs by measures.  \<^verbatim>\<open>Run\<close> works on the list of wake-ups it has
  received, of any length.  Batch sizes are 64-bit words as in the code.

  \<^bold>\<open>Assumptions\<close>, beside the contracts of the locales: the contract of the
  server (\<open>sql_server\<close>) is stated for one transaction after the other, although every
  call may fail and its answer be lost; where several run at the same time, \<open>Isolation\<close>
  replaces it. There a statement is one step, which waits as long as another transaction holds a
  lock that it needs, and then takes its locks at once; the locks stand for the row locks and the
  entries of the unique indexes. That is a simplification: PostgreSQL takes the locks of one statement
  one by one, the row first and then the index entries, so that two renames can wait for each other in
  the middle of their statements until the server ends one of them.  The outcome is among the runs
  considered, since a call may fail at any time and then ends its transaction, but nothing is claimed
  here about who waits for whom.  One instant of JSON stands for its RFC 3339 text; the binary format of
  \<^verbatim>\<open>jsonb\<close> keeps the document; the fractions of
  \<^verbatim>\<open>time.ParseDuration\<close> go through a parameter for the floating-point
  multiplication; functions given to the code do not panic.
\<close>

text \<open>
  \<^bold>\<open>Not modelled.\<close>  Log calls outside of the handlers (except the line that the log producer writes,
  which is its output), response headers other than the content type, the values that chi and the
  middleware put into the context and nobody reads; the mocks of the unit tests, which are
  generated; the expansion of the documentation's template and the page that shows it, which belong
  to libraries; in \<^verbatim>\<open>main\<close> the signals and the failure of the server, which are the end of the list
  of what happens, and that its goroutines run at the same time (in \<open>api_main\<close> requests and batches
  happen one after the other; the theories from \<open>Races\<close> on interleave their calls); and the
  middlewares of chi (request id, real IP, recoverer, timeout), which belong to the mux that is a
  parameter.

  \<^bold>\<open>Cancellation.\<close>  A context is its transaction handle only.  That it is cancelled (by a timeout, a
  client that goes away, the shutdown) shows in the code as errors of the calls that follow, and
  every call of the model may fail with an error from below; so the runs of a cancelled request are
  among those considered.

  \<^bold>\<open>Panics.\<close>  No function of the model panics; a panic inside of a transaction, after which
  \<^verbatim>\<open>WithinTransaction\<close> does not roll back, is therefore not among the runs considered.
\<close>

end
